(* ===== verification/Py_Prelude.thy ===== *)
theory Py_Prelude
  imports Main "HOL-Library.Word" "HOL-Library.Multiset"
begin

text \<open>
  Shared vocabulary of the development: the Python values and builtins that
  \<^verbatim>\<open>src/send_umbrella.py\<close> uses, as executable HOL definitions, with the
  lemmas the component theories rely on.

  \<^item> Python integers are \<^typ>\<open>int\<close>; list indices and loop counters that the
    source only ever draws from \<^verbatim>\<open>range\<close> and \<^verbatim>\<open>enumerate\<close> with non-negative
    constants are \<^typ>\<open>nat\<close>.
  \<^item> A \<^verbatim>\<open>bytearray\<close> or \<^verbatim>\<open>bytes\<close> object is a list of 8-bit words.
  \<^item> An exception is a value of \<open>py_error\<close>; a call that may raise returns
    \<open>py_error + 'a\<close> with \<open>Inl\<close> for the exception.
  \<^item> The collections \<open>py_defs\<close>, \<open>len_simps\<close> and \<open>result_iffs\<close> carry the
    unfolding rules, the length facts and the success characterisations that
    the component proofs pass to the simplifier.
\<close>

unbundle bit_operations_syntax

named_theorems py_defs "definitions of the modelled Python builtins"
named_theorems len_simps "lengths of the lists the model builds"
named_theorems result_iffs "when a call returns normally, as an equivalence"


section \<open>Bytes and exceptions\<close>

type_synonym byte = "8 word"
type_synonym bytes = "byte list"

datatype py_error =
  IndexError | TypeError | ValueError | StructError | OSError | ImportError | OverflowError

type_synonym 'a result = "py_error + 'a"

definition rbind :: "'a result \<Rightarrow> ('a \<Rightarrow> 'b result) \<Rightarrow> 'b result" where
  "rbind m f = (case m of Inl e \<Rightarrow> Inl e | Inr x \<Rightarrow> f x)"

definition is_ok :: "'a result \<Rightarrow> bool" where
  "is_ok m = (case m of Inl e \<Rightarrow> False | Inr x \<Rightarrow> True)"

type_synonym 's outcome = "py_error option \<times> 's"

definition and_then :: "('s \<Rightarrow> 's outcome) \<Rightarrow> ('s \<Rightarrow> 's outcome) \<Rightarrow> 's \<Rightarrow> 's outcome" where
  "and_then f g s = (case f s of (None, s') \<Rightarrow> g s' | (Some e, s') \<Rightarrow> (Some e, s'))"

fun run_all :: "('s \<Rightarrow> 's outcome) list \<Rightarrow> 's \<Rightarrow> 's outcome" where
  "run_all [] s = (None, s)"
| "run_all (f # fs) s = and_then f (run_all fs) s"

definition for_each :: "'a list \<Rightarrow> ('a \<Rightarrow> 's \<Rightarrow> 's outcome) \<Rightarrow> 's \<Rightarrow> 's outcome" where
  "for_each xs body = run_all (map body xs)"

definition in_byte :: "int \<Rightarrow> bool" where
  "in_byte x \<longleftrightarrow> 0 \<le> x \<and> x < 256"

definition bytearray :: "int list \<Rightarrow> bytes result" where
  "bytearray xs = (if list_all in_byte xs then Inr (map word_of_int xs) else Inl ValueError)"

definition ints_of :: "bytes \<Rightarrow> int list" where
  "ints_of bs = map uint bs"


section \<open>Ranges, slices and repetition\<close>

definition py_range :: "nat \<Rightarrow> nat \<Rightarrow> nat \<Rightarrow> nat list" where
  "py_range start stop step =
     map (\<lambda>k. start + k * step) [0..<(stop - start + step - 1) div step]"

definition py_slice :: "'a list \<Rightarrow> nat \<Rightarrow> nat \<Rightarrow> 'a list" where
  "py_slice xs i j = take (j - i) (drop i xs)"

definition py_repeat :: "'a list \<Rightarrow> nat \<Rightarrow> 'a list" where
  "py_repeat xs n = concat (replicate n xs)"

definition item0 :: "'a list \<Rightarrow> 'a result" where
  "item0 xs = (case xs of [] \<Rightarrow> Inl IndexError | x # _ \<Rightarrow> Inr x)"

fun map_result :: "('a \<Rightarrow> 'b result) \<Rightarrow> 'a list \<Rightarrow> 'b list result" where
  "map_result f [] = Inr []"
| "map_result f (x # xs) = rbind (f x) (\<lambda>y. rbind (map_result f xs) (\<lambda>ys. Inr (y # ys)))"

declare py_range_def [py_defs] py_slice_def [py_defs] py_repeat_def [py_defs] item0_def [py_defs]


section \<open>Results\<close>

lemma rbind_Inl [simp]: "rbind (Inl e) f = Inl e"
  by (simp add: rbind_def)

lemma rbind_Inr [simp]: "rbind (Inr x) f = f x"
  by (simp add: rbind_def)

lemma rbind_eq_Inr_iff [result_iffs]:
  "rbind m f = Inr y \<longleftrightarrow> (\<exists>x. m = Inr x \<and> f x = Inr y)"
  by (cases m) simp_all

lemma rbind_eq_Inl_iff [result_iffs]:
  "rbind m f = Inl e \<longleftrightarrow> m = Inl e \<or> (\<exists>x. m = Inr x \<and> f x = Inl e)"
  by (cases m) auto

lemma is_ok_simps [simp]: "is_ok (Inr x)" "\<not> is_ok (Inl e)"
  by (simp_all add: is_ok_def)

lemma is_ok_iff: "is_ok m \<longleftrightarrow> (\<exists>x. m = Inr x)"
  by (cases m) simp_all


lemma item0_simps [simp]: "item0 [] = Inl IndexError" "item0 (x # xs) = Inr x"
  by (simp_all add: item0_def)

lemma map_result_eq_Inr_iff [result_iffs]:
  "map_result f xs = Inr ys \<longleftrightarrow> list_all2 (\<lambda>x y. f x = Inr y) xs ys"
proof (induction xs arbitrary: ys)
  case Nil
  show ?case by auto
next
  case (Cons x xs)
  show ?case
    by (cases ys) (auto simp: rbind_eq_Inr_iff Cons.IH)
qed

lemma map_result_total:
  "list_all (\<lambda>x. is_ok (f x)) xs \<Longrightarrow> \<exists>ys. map_result f xs = Inr ys"
  by (induction xs) (auto simp: is_ok_iff)

lemma map_result_cong_ok:
  "(\<And>x. x \<in> set xs \<Longrightarrow> f x = Inr (g x)) \<Longrightarrow> map_result f xs = Inr (map g xs)"
  by (induction xs) simp_all

lemma map_result_first_error:
  "map_result f (xs @ y # ys) = Inl e" if "list_all (\<lambda>x. is_ok (f x)) xs" "f y = Inl e"
  using that by (induction xs) (auto simp: is_ok_iff)

lemma map_result_one_error:
  assumes "\<And>x. x \<in> set xs \<Longrightarrow> f x = Inl e \<or> is_ok (f x)" "\<exists>x\<in>set xs. \<not> is_ok (f x)"
  shows "map_result f xs = Inl e"
  using assms
proof (induction xs)
  case Nil
  then show ?case by simp
next
  case (Cons x xs)
  show ?case
  proof (cases "f x")
    case (Inl e')
    with Cons.prems(1) [of x] show ?thesis by simp
  next
    case (Inr y)
    with Cons.prems have "map_result f xs = Inl e"
      by (intro Cons.IH) auto
    with Inr show ?thesis by simp
  qed
qed

lemma length_map_result [len_simps]: "map_result f xs = Inr ys \<Longrightarrow> length ys = length xs"
  by (simp add: map_result_eq_Inr_iff list_all2_lengthD)


section \<open>Statements in sequence\<close>

lemma and_then_None [simp]: "f s = (None, s') \<Longrightarrow> and_then f g s = g s'"
  by (simp add: and_then_def)

lemma and_then_Some [simp]: "f s = (Some e, s') \<Longrightarrow> and_then f g s = (Some e, s')"
  by (simp add: and_then_def)

lemma and_then_eq_None_iff [result_iffs]:
  "and_then f g s = (None, t) \<longleftrightarrow> (\<exists>s'. f s = (None, s') \<and> g s' = (None, t))"
  by (auto simp: and_then_def split: prod.splits option.splits)

lemma run_all_append:
  "run_all (fs @ gs) = and_then (run_all fs) (run_all gs)"
proof
  fix s
  show "run_all (fs @ gs) s = and_then (run_all fs) (run_all gs) s"
    by (induction fs arbitrary: s) (auto simp: and_then_def split: prod.splits option.splits)
qed

lemma run_all_single: "run_all [f] = f"
  by (auto simp: fun_eq_iff and_then_def split: prod.splits option.splits)

lemma run_all_pair: "run_all [f, g] = and_then f g"
  using run_all_append [of "[f]" "[g]"] by (simp only: run_all_single append.simps)

lemma for_each_Nil [simp]: "for_each [] body s = (None, s)"
  by (simp add: for_each_def)

lemma for_each_Cons [simp]: "for_each (x # xs) body = and_then (body x) (for_each xs body)"
  by (simp add: for_each_def fun_eq_iff)

lemma for_each_append: "for_each (xs @ ys) body = and_then (for_each xs body) (for_each ys body)"
  by (simp add: for_each_def run_all_append)


section \<open>Bytes\<close>

lemma in_byte_numeral [simp]: "in_byte 0" "in_byte 1" "in_byte (numeral n) \<longleftrightarrow> numeral n < (256::int)"
  by (simp_all add: in_byte_def)

lemma in_byte_uint [simp]: "in_byte (uint (b :: byte))"
  using uint_lt2p [of b] by (simp add: in_byte_def)

lemma uint_word_of_int_byte [simp]: "in_byte x \<Longrightarrow> uint (word_of_int x :: byte) = x"
  by (simp add: in_byte_def uint_word_of_int take_bit_eq_mod)

lemma and_255_eq_mod: "(x::int) AND 255 = x mod 256"
proof -
  have "x AND 255 = take_bit 8 x"
    by (simp add: take_bit_eq_mask mask_eq_exp_minus_1)
  then show ?thesis
    by (simp add: take_bit_eq_mod)
qed

lemma in_byte_mask [simp]: "in_byte (x AND 255)"
  by (simp add: and_255_eq_mod in_byte_def)

lemma mask_in_byte: "in_byte x \<Longrightarrow> x AND 255 = x"
  by (simp add: and_255_eq_mod in_byte_def)

lemma bytearray_eq_Inr_iff [result_iffs]:
  "bytearray xs = Inr bs \<longleftrightarrow> list_all in_byte xs \<and> bs = map word_of_int xs"
  by (auto simp: bytearray_def)

lemma bytearray_eq_Inl_iff [result_iffs]:
  "bytearray xs = Inl e \<longleftrightarrow> \<not> list_all in_byte xs \<and> e = ValueError"
  by (auto simp: bytearray_def)

lemma bytearray_ok [simp]: "list_all in_byte xs \<Longrightarrow> bytearray xs = Inr (map word_of_int xs)"
  by (simp add: bytearray_def)

lemma length_bytearray [len_simps]: "bytearray xs = Inr bs \<Longrightarrow> length bs = length xs"
  by (auto simp: bytearray_def split: if_splits)

lemma ints_of_bytearray: "bytearray xs = Inr bs \<Longrightarrow> ints_of bs = xs"
  by (auto simp: bytearray_def ints_of_def list_all_iff map_idI split: if_splits)

lemma bytearray_ints_of [simp]: "bytearray (ints_of bs) = Inr bs"
  by (simp add: bytearray_def ints_of_def list_all_iff map_idI)

lemma bytearray_append:
  "bytearray (xs @ ys) = rbind (bytearray xs) (\<lambda>a. rbind (bytearray ys) (\<lambda>b. Inr (a @ b)))"
  by (simp add: bytearray_def)

lemma bytearray_zeros [simp]: "bytearray (replicate n 0) = Inr (replicate n 0)"
  by (simp add: bytearray_def list_all_iff)


section \<open>Lists cut into blocks of one length\<close>

lemma length_concat_uniform [len_simps]:
  "\<forall>xs\<in>set xss. length xs = n \<Longrightarrow> length (concat xss) = length xss * n"
  by (induction xss) simp_all

lemma nth_concat_uniform:
  "\<forall>xs\<in>set xss. length xs = n \<Longrightarrow> i < length xss \<Longrightarrow> j < n \<Longrightarrow>
     concat xss ! (i * n + j) = xss ! i ! j"
proof (induction xss arbitrary: i)
  case Nil
  then show ?case by simp
next
  case (Cons xs xss)
  show ?case
  proof (cases i)
    case 0
    with Cons.prems show ?thesis by (simp add: nth_append)
  next
    case (Suc k)
    with Cons.prems have "concat xss ! (k * n + j) = xss ! k ! j"
      by (intro Cons.IH) simp_all
    with Suc Cons.prems show ?thesis by (simp add: nth_append)
  qed
qed

lemma take_drop_concat_uniform:
  "\<forall>xs\<in>set xss. length xs = n \<Longrightarrow> i < length xss \<Longrightarrow>
     take n (drop (i * n) (concat xss)) = xss ! i"
proof (induction xss arbitrary: i)
  case Nil
  then show ?case by simp
next
  case (Cons xs xss)
  then show ?case by (cases i) simp_all
qed

lemma length_py_repeat [len_simps, simp]: "length (py_repeat xs n) = n * length xs"
  by (simp add: py_repeat_def length_concat sum_list_replicate)

lemma nth_py_repeat:
  "i < n \<Longrightarrow> j < length xs \<Longrightarrow> py_repeat xs n ! (i * length xs + j) = xs ! j"
  by (simp add: py_repeat_def nth_concat_uniform)

lemma py_repeat_take_drop:
  "i < n \<Longrightarrow> take (length xs) (drop (i * length xs) (py_repeat xs n)) = xs"
  by (simp add: py_repeat_def take_drop_concat_uniform)

lemma set_py_repeat: "set (py_repeat xs n) = (if n = 0 then {} else set xs)"
  by (auto simp: py_repeat_def)

lemma map_py_repeat: "map f (py_repeat xs n) = py_repeat (map f xs) n"
  by (simp add: py_repeat_def map_concat)

lemma bytearray_py_repeat:
  "0 < n \<Longrightarrow> bytearray (py_repeat xs n) =
     (if list_all in_byte xs then Inr (py_repeat (map word_of_int xs) n) else Inl ValueError)"
  by (simp add: bytearray_def list_all_iff set_py_repeat map_py_repeat)

lemma py_repeat_Suc: "py_repeat xs (Suc n) = xs @ py_repeat xs n"
  by (simp add: py_repeat_def)


section \<open>Ranges and slices\<close>

lemma length_py_range [len_simps]:
  "length (py_range start stop step) = (stop - start + step - 1) div step"
  by (simp add: py_range_def)

lemma nth_py_range:
  "k < (stop - start + step - 1) div step \<Longrightarrow> py_range start stop step ! k = start + k * step"
  by (simp add: py_range_def)

lemma py_range_unit: "py_range 0 n 1 = [0..<n]" "py_range 0 n (Suc 0) = [0..<n]"
  by (simp_all add: py_range_def map_idI)

lemma length_py_slice [len_simps]:
  "length (py_slice xs i j) = min (j - i) (length xs - i)"
  by (simp add: py_slice_def)

lemma nth_py_slice:
  "k < j - i \<Longrightarrow> i + k < length xs \<Longrightarrow> py_slice xs i j ! k = xs ! (i + k)"
  by (simp add: py_slice_def)

lemma py_slice_take: "py_slice (take n xs) i j = py_slice xs i (min j n)"
  by (simp add: py_slice_def drop_take min_def)

lemma concat_chunks:
  "concat (map (\<lambda>k. py_slice xs (k * m) (k * m + m)) [0..<n]) = take (n * m) xs"
proof (induction n)
  case 0
  show ?case by simp
next
  case (Suc n)
  have "take (Suc n * m) xs = take (n * m + m) xs"
    by (simp add: add.commute)
  also have "\<dots> = take (n * m) xs @ take m (drop (n * m) xs)"
    by (rule take_add)
  finally show ?case
    using Suc by (simp add: py_slice_def)
qed


section \<open>Multisets of concatenations\<close>

lemma mset_concat_map_cong:
  assumes "mset xs = mset ys"
  shows "mset (concat (map f xs)) = mset (concat (map f ys))"
proof -
  have "mset (concat (map f zs)) = sum_mset (image_mset (\<lambda>z. mset (f z)) (mset zs))" for zs
    by (induction zs) simp_all
  with assms show ?thesis by simp
qed

lemma mset_concat_map_eq:
  "(\<And>x. x \<in> set xs \<Longrightarrow> mset (f x) = mset (g x)) \<Longrightarrow>
     mset (concat (map f xs)) = mset (concat (map g xs))"
  by (induction xs) simp_all

end
