(* ===== verification/Wheel.thy ===== *)
theory Wheel
  imports Py_Prelude
begin

text \<open>
  The colour wheel, \<^verbatim>\<open>wheel\<close> of \<^verbatim>\<open>src/send_umbrella.py\<close> (lines 35 to 44).
  \<open>wheel\<close> is the function as written, over Python's unbounded integers with
  the \<^verbatim>\<open>& 0xFF\<close> masks. \<open>wheel_ramp\<close> is the piecewise linear curve without
  masks and \<open>wheel8\<close> the same curve computed in 8-bit arithmetic: the two
  reference definitions the code is compared with.
\<close>

section \<open>Definitions\<close>

definition wheel :: "int \<Rightarrow> int list" where
  "wheel pos0 =
     (let pos = 255 - pos0 in
      if pos < 85 then [(255 - pos * 3) AND 255, 0, (pos * 3) AND 255]
      else if pos < 170 then
        (let pos = pos - 85 in [0, (pos * 3) AND 255, (255 - pos * 3) AND 255])
      else
        (let pos = pos - 170 in [(pos * 3) AND 255, (255 - pos * 3) AND 255, 0]))"

definition wheel_ramp :: "int \<Rightarrow> int list" where
  "wheel_ramp position =
     (let p = 255 - position in
      if p < 85 then [255 - 3 * p, 0, 3 * p]
      else if p < 170 then [0, 3 * (p - 85), 255 - 3 * (p - 85)]
      else [3 * (p - 170), 255 - 3 * (p - 170), 0])"

definition wheel8 :: "byte \<Rightarrow> bytes" where
  "wheel8 position =
     (let p = 255 - position in
      if p < 85 then [255 - 3 * p, 0, 3 * p]
      else if p < 170 then (let q = p - 85 in [0, 3 * q, 255 - 3 * q])
      else (let q = p - 170 in [3 * q, 255 - 3 * q, 0]))"

lemmas wheel_defs = wheel_def wheel_ramp_def wheel8_def Let_def


section \<open>Shape of the result\<close>

lemma length_wheel [simp, len_simps]: "length (wheel pos) = 3"
  by (simp add: wheel_defs)

lemma wheel_in_byte: "list_all in_byte (wheel pos)"
  by (simp add: wheel_defs)

lemma length_wheel_ramp [simp]: "length (wheel_ramp pos) = 3"
  by (simp add: wheel_defs)

lemma wheel_ramp_in_byte: "in_byte pos \<Longrightarrow> list_all in_byte (wheel_ramp pos)"
  by (auto simp: wheel_defs in_byte_def)

lemma wheel_eq_ramp: "in_byte pos \<Longrightarrow> wheel pos = wheel_ramp pos"
  by (auto simp: wheel_defs mask_in_byte in_byte_def)


section \<open>Words against integers\<close>

lemma byte_less_iff: "in_byte a \<Longrightarrow> in_byte b \<Longrightarrow>
    (word_of_int a :: byte) < word_of_int b \<longleftrightarrow> a < b"
  by (simp add: word_less_def)

lemma wheel8_of_int:
  assumes "in_byte pos"
  shows "wheel8 (word_of_int pos) = map word_of_int (wheel_ramp pos)"
proof -
  let ?p = "255 - pos"
  have p: "in_byte ?p"
    using assms by (simp add: in_byte_def)
  have w: "255 - (word_of_int pos :: byte) = word_of_int ?p"
    by simp
  have lt: "(word_of_int ?p :: byte) < 85 \<longleftrightarrow> ?p < 85"
    "(word_of_int ?p :: byte) < 170 \<longleftrightarrow> ?p < 170"
    using byte_less_iff [OF p, of 85] byte_less_iff [OF p, of 170] by simp_all
  show ?thesis
    unfolding wheel8_def wheel_ramp_def Let_def w lt
    by (simp add: algebra_simps)
qed


section \<open>Properties\<close>

text \<open>
  Whatever integer position is passed, the three channels returned by
  \<open>wheel\<close> are bytes, so turning the result into a \<^verbatim>\<open>bytearray\<close> never
  raises \<^verbatim>\<open>ValueError\<close>.
\<close>

theorem wheel_bytearray_total: "bytearray (wheel pos) = Inr (map word_of_int (wheel pos))"
  by (simp add: wheel_in_byte)

text \<open>
  Claim C34 (refinement). For a position in 0..255 the code computes the curve
  of the specification in 8-bit arithmetic: converting the result to bytes
  gives \<open>wheel8\<close> of the position as a byte.
\<close>

theorem wheel_refines_wheel8:
  "in_byte pos \<Longrightarrow> bytearray (wheel pos) = Inr (wheel8 (word_of_int pos))"
  by (simp add: wheel_ramp_in_byte wheel8_of_int wheel_eq_ramp)

theorem wheel_refines_wheel8_witness:
  "in_byte 100 \<and> bytearray (wheel 100) = Inr (wheel8 (word_of_int 100))"
  using wheel_refines_wheel8 [of 100] by simp

text \<open>
  Claim C40 (equivalence). The masks \<^verbatim>\<open>& 0xFF\<close> change the result exactly for
  positions outside 0..255: inside the documented domain no channel ever
  wraps, outside it one always does.
\<close>

theorem wheel_eq_ramp_iff: "wheel pos = wheel_ramp pos \<longleftrightarrow> in_byte pos"
proof
  assume eq: "wheel pos = wheel_ramp pos"
  have "list_all in_byte (wheel_ramp pos)"
    using wheel_in_byte [of pos] by (simp add: eq)
  then show "in_byte pos"
    by (auto simp: wheel_ramp_def Let_def in_byte_def split: if_splits)
qed (rule wheel_eq_ramp)

text \<open>
  The values at the ends and at the band boundaries:
  positions 0 and 255 are both pure red, 85 is pure green and 170 pure blue;
  position 256, outside the domain, wraps to \<open>[2, 0, 253]\<close>.
\<close>

theorem wheel_landmarks:
  "wheel 0 = [255, 0, 0] \<and> wheel 255 = [255, 0, 0] \<and> wheel 85 = [0, 255, 0] \<and>
   wheel 170 = [0, 0, 255] \<and> wheel 256 = [2, 0, 253]"
  by (simp add: wheel_defs and_255_eq_mod)

text \<open>
  Inside the domain the three channels always add up
  to 255: the wheel moves intensity between two channels and never changes
  the total.
\<close>

theorem wheel_sum: "in_byte pos \<Longrightarrow> sum_list (wheel pos) = 255"
  by (auto simp: wheel_eq_ramp wheel_ramp_def Let_def)

theorem wheel_sum_witness: "in_byte 42 \<and> sum_list (wheel 42) = 255"
  using wheel_sum [of 42] by simp

text \<open>
  The wheel is one closed cycle: two positions of the domain give the same
  colour only if they are equal or are the two ends 0 and 255.
\<close>

theorem wheel_cycle:
  "in_byte a \<Longrightarrow> in_byte b \<Longrightarrow> wheel a = wheel b \<Longrightarrow> a = b \<or> {a, b} = {0, 255}"
  by (simp add: wheel_eq_ramp) (auto simp: wheel_ramp_def Let_def in_byte_def split: if_splits)

theorem wheel_cycle_witness:
  "in_byte 0 \<and> in_byte 255 \<and> wheel 0 = wheel 255 \<and> ((0::int) = 255 \<or> {0, 255} = {0, 255::int})"
  using wheel_cycle [of 0 255] by (simp add: wheel_defs)

text \<open>
  The curve is smooth: between neighbouring positions of
  the domain no channel moves by more than 3, the band boundaries included.
\<close>

theorem wheel_smooth:
  "in_byte pos \<Longrightarrow> in_byte (pos + 1) \<Longrightarrow>
     list_all2 (\<lambda>x y. \<bar>x - y\<bar> \<le> 3) (wheel pos) (wheel (pos + 1))"
  by (simp add: wheel_eq_ramp) (auto simp: wheel_ramp_def Let_def in_byte_def)

theorem wheel_smooth_witness:
  "in_byte 84 \<and> in_byte (84 + 1) \<and>
     list_all2 (\<lambda>x y. \<bar>x - y\<bar> \<le> 3) (wheel 84) (wheel (84 + 1))"
  using wheel_smooth [of 84] by simp

end
