(* ===== verification/Rearange.thy ===== *)
theory Rearange
  imports Py_Prelude
begin

text \<open>
  The pixel remapper, \<^verbatim>\<open>rearange\<close> of \<^verbatim>\<open>src/send_umbrella.py\<close> (lines 47 to 64).
  The loop over the 32 segment starts is \<open>rearange_loop\<close>, its body
  \<open>segment_line\<close>; \<open>rearange_pixels\<close> is the list \<^verbatim>\<open>nbuf\<close> after the loop and
  \<open>rearange\<close> the flattened \<^verbatim>\<open>bytearray\<close> the function returns, for a
  list of tuples. \<open>rearange_any\<close> is the same function on a list whose
  items are tuples or numbers (a \<open>pixel\<close> each), as Python lets the caller
  pass: iterating over a number raises \<^verbatim>\<open>TypeError\<close>.

  The wiring of the panel is stated a second time, as arithmetic on indices:
  \<open>wire_source k\<close> is the image index shown at wire position \<open>k\<close>, and
  \<open>wire_pos p\<close> the wire position of image index \<open>p\<close>. The lemmas relate the
  loop to these two functions and show that they are inverse permutations of
  0..255.
\<close>

section \<open>The code\<close>

definition segment_starts :: "nat list" where
  "segment_starts = py_range 0 256 16 @ py_range 8 256 16"

definition segment_line :: "'a list \<Rightarrow> nat \<times> nat \<Rightarrow> 'a list" where
  "segment_line buf ci =
     (case ci of (c, i) \<Rightarrow>
        let line = py_slice buf i (i + 8)
        in if c mod 2 = 1 then rev line else line)"

fun rearange_loop :: "'a list \<Rightarrow> (nat \<times> nat) list \<Rightarrow> 'a list \<Rightarrow> 'a list" where
  "rearange_loop buf [] nbuf = nbuf"
| "rearange_loop buf (ci # rest) nbuf = rearange_loop buf rest (nbuf @ segment_line buf ci)"

definition rearange_pixels :: "'a list \<Rightarrow> 'a list" where
  "rearange_pixels buf = rearange_loop buf (List.enumerate 0 segment_starts) []"

definition rearange :: "int list list \<Rightarrow> bytes result" where
  "rearange buf = bytearray (concat (rearange_pixels buf))"

datatype pixel = Scalar int | is_tuple: Bands (items: "int list")

definition items_of :: "pixel \<Rightarrow> int list result" where
  "items_of px = (case px of Scalar v \<Rightarrow> Inl TypeError | Bands vs \<Rightarrow> Inr vs)"

definition rearange_any :: "pixel list \<Rightarrow> bytes result" where
  "rearange_any buf =
     rbind (map_result items_of (rearange_pixels buf)) (\<lambda>rows. bytearray (concat rows))"


section \<open>The wiring as index arithmetic\<close>

definition segment_start :: "nat \<Rightarrow> nat" where
  "segment_start c = (if c < 16 then 16 * c else 16 * (c - 16) + 8)"

definition serpentine :: "nat \<Rightarrow> nat \<Rightarrow> nat" where
  "serpentine c j = (if odd c then 7 - j else j)"

definition wire_source :: "nat \<Rightarrow> nat" where
  "wire_source k =
     (let c = k div 8; j = k mod 8
      in segment_start c + serpentine c j)"

definition wire_pos :: "nat \<Rightarrow> nat" where
  "wire_pos p =
     (let row = p div 16; col = p mod 16;
          c = (if col < 8 then row else 16 + row); j = col mod 8
      in 8 * c + serpentine c j)"

definition wire_order :: "'a list \<Rightarrow> 'a list" where
  "wire_order buf = map (\<lambda>k. buf ! wire_source k) [0..<256]"

definition unwire :: "'a list \<Rightarrow> 'a list" where
  "unwire wbuf = map (\<lambda>p. wbuf ! wire_pos p) [0..<256]"

lemmas wire_defs = segment_start_def serpentine_def wire_source_def wire_pos_def Let_def


section \<open>The loop as a concatenation of segments\<close>

lemma rearange_loop_append:
  "rearange_loop buf cis nbuf = nbuf @ concat (map (segment_line buf) cis)"
  by (induction cis arbitrary: nbuf) simp_all

lemma length_segment_starts [simp]: "length segment_starts = 32"
  by (simp add: segment_starts_def length_py_range)

lemma segment_starts_eq: "segment_starts = map segment_start [0..<32]"
proof (rule nth_equalityI)
  show "length segment_starts = length (map segment_start [0..<32])"
    by simp
next
  fix i
  assume "i < length segment_starts"
  then have "i < 32"
    by simp
  then show "segment_starts ! i = map segment_start [0..<32] ! i"
    by (simp add: segment_starts_def nth_append length_py_range nth_py_range segment_start_def
        del: upt_Suc)
qed

lemma rearange_pixels_segments:
  "rearange_pixels buf = concat (map (\<lambda>c. segment_line buf (c, segment_start c)) [0..<32])"
  by (simp add: rearange_pixels_def rearange_loop_append segment_starts_eq enumerate_map_upt
      comp_def del: upt_Suc)

lemma segment_start_bound: "c < 32 \<Longrightarrow> segment_start c + 8 \<le> 256"
  by (simp add: segment_start_def) linarith

lemma length_segment_line [len_simps]:
  "length (segment_line buf (c, i)) = min 8 (length buf - i)"
  by (simp add: segment_line_def py_slice_def Let_def min.commute)

lemma nth_segment_line:
  assumes "i + 8 \<le> length buf" "j < 8"
  shows "segment_line buf (c, i) ! j = buf ! (i + serpentine c j)"
proof -
  have len: "length (py_slice buf i (i + 8)) = 8"
    using assms by (simp add: py_slice_def)
  have "rev (py_slice buf i (i + 8)) ! j = py_slice buf i (i + 8) ! (7 - j)"
    using assms len by (simp add: rev_nth)
  with assms show ?thesis
    by (auto simp: segment_line_def serpentine_def Let_def nth_py_slice odd_iff_mod_2_eq_one)
qed


section \<open>The two index maps are inverse permutations of 0..255\<close>

lemma serpentine_less [simp]: "j < 8 \<Longrightarrow> serpentine c j < 8"
  by (auto simp: serpentine_def)

lemma serpentine_invol [simp]: "j < 8 \<Longrightarrow> serpentine c (serpentine c j) = j"
  by (auto simp: serpentine_def)

lemma serpentine_add16 [simp]: "serpentine (16 + c) j = serpentine c j"
  by (simp add: serpentine_def)

lemma mod8_of_less16: "x < 16 \<Longrightarrow> x mod 8 = (if x < 8 then x else x - 8)" for x :: nat
  by (auto simp: mod_if)

lemma wire_index_bound: "c < 32 \<Longrightarrow> y < 8 \<Longrightarrow> 8 * c + y < (256::nat)"
  by simp

lemma wire_source_decomp: "j < 8 \<Longrightarrow> wire_source (8 * c + j) = segment_start c + serpentine c j"
  by (simp add: wire_source_def Let_def)

lemma wire_pos_decomp:
  assumes "c < 32" "x < 8"
  shows "wire_pos (segment_start c + x) = 8 * c + serpentine c x"
proof (cases "c < 16")
  case True
  with assms show ?thesis
    by (simp add: wire_pos_def segment_start_def Let_def)
next
  case False
  then obtain d where c: "c = 16 + d"
    by (auto simp: not_less le_iff_add)
  have "(16 * d + 8 + x) div 16 = d" "(16 * d + (8 + x)) mod 16 = 8 + x"
    using assms(2) by simp_all
  with assms(2) show ?thesis
    by (simp add: wire_pos_def segment_start_def Let_def c add.assoc)
qed

lemma wire_source_less: "k < 256 \<Longrightarrow> wire_source k < 256"
proof -
  assume "k < 256"
  then have "k div 8 < 32" by simp
  then have "segment_start (k div 8) + 8 \<le> 256"
    by (rule segment_start_bound)
  moreover have "serpentine (k div 8) (k mod 8) < 8"
    by simp
  ultimately show ?thesis
    unfolding wire_source_def Let_def by linarith
qed

lemma wire_pos_less: "p < 256 \<Longrightarrow> wire_pos p < 256"
proof -
  assume "p < 256"
  then have "p div 16 < 16" by simp
  then have "(if p mod 16 < 8 then p div 16 else 16 + p div 16) < 32"
    by simp
  then show ?thesis
    unfolding wire_pos_def Let_def by (rule wire_index_bound) simp
qed

lemma wire_pos_source: "k < 256 \<Longrightarrow> wire_pos (wire_source k) = k"
proof -
  assume "k < 256"
  then have "k div 8 < 32" by simp
  then show ?thesis
    by (simp add: wire_source_def Let_def wire_pos_decomp)
qed

lemma wire_source_pos: "p < 256 \<Longrightarrow> wire_source (wire_pos p) = p"
proof -
  assume "p < 256"
  let ?c = "if p mod 16 < 8 then p div 16 else 16 + p div 16"
  have "wire_source (wire_pos p) = segment_start ?c + p mod 16 mod 8"
    by (simp add: wire_pos_def Let_def wire_source_decomp)
  also have "\<dots> = 16 * (p div 16) + p mod 16"
  proof -
    from \<open>p < 256\<close> have "p div 16 < 16" by simp
    then show ?thesis
      by (simp add: segment_start_def mod8_of_less16)
  qed
  finally show ?thesis by simp
qed

lemmas wire_inverse = wire_pos_source wire_source_pos wire_pos_less wire_source_less


section \<open>What the loop computes\<close>

lemma segments_uniform:
  assumes "256 \<le> length buf"
  shows "\<forall>xs\<in>set (map (\<lambda>c. segment_line buf (c, segment_start c)) [0..<32]). length xs = 8"
proof -
  have "length (segment_line buf (c, segment_start c)) = 8" if "c < 32" for c
    using segment_start_bound [OF that] assms by (simp add: length_segment_line)
  then show ?thesis by auto
qed

lemma length_rearange_pixels [len_simps]:
  "256 \<le> length buf \<Longrightarrow> length (rearange_pixels buf) = 256"
  by (simp add: rearange_pixels_segments length_concat_uniform [OF segments_uniform]
      del: upt_Suc)

lemma nth_rearange_pixels:
  assumes "256 \<le> length buf" "k < 256"
  shows "rearange_pixels buf ! k = buf ! wire_source k"
proof -
  let ?segs = "map (\<lambda>c. segment_line buf (c, segment_start c)) [0..<32]"
  have c: "k div 8 < 32" and j: "k mod 8 < 8"
    using assms(2) by simp_all
  have "rearange_pixels buf ! (k div 8 * 8 + k mod 8) = ?segs ! (k div 8) ! (k mod 8)"
    unfolding rearange_pixels_segments
    using segments_uniform [OF assms(1)] c j by (intro nth_concat_uniform) simp_all
  also have "\<dots> = segment_line buf (k div 8, segment_start (k div 8)) ! (k mod 8)"
    using c by (simp del: upt_Suc)
  also have "\<dots> = buf ! wire_source k"
    using segment_start_bound [OF c] assms(1) j
    by (simp add: nth_segment_line wire_source_def Let_def)
  finally show ?thesis by simp
qed

lemma rearange_pixels_wire_order:
  "256 \<le> length buf \<Longrightarrow> rearange_pixels buf = wire_order buf"
  by (rule nth_equalityI)
    (simp_all add: length_rearange_pixels wire_order_def nth_rearange_pixels del: upt_Suc)


section \<open>The loop keeps every pixel once\<close>

lemma mset_segment_line [simp]: "mset (segment_line buf (c, i)) = mset (py_slice buf i (i + 8))"
  by (simp add: segment_line_def Let_def)

lemma segment_starts_mset: "mset (map segment_start [0..<32]) = mset (map (\<lambda>k. k * 8) [0..<32])"
  by code_simp

lemma mset_rearange_pixels: "mset (rearange_pixels buf) = mset (take 256 buf)"
proof -
  let ?chunk = "\<lambda>i. py_slice buf i (i + 8)"
  have "mset (rearange_pixels buf) = mset (concat (map (\<lambda>c. ?chunk (segment_start c)) [0..<32]))"
    unfolding rearange_pixels_segments by (rule mset_concat_map_eq) simp
  also have "\<dots> = mset (concat (map ?chunk (map segment_start [0..<32])))"
    by (simp add: comp_def del: upt_Suc)
  also have "\<dots> = mset (concat (map ?chunk (map (\<lambda>k. k * 8) [0..<32])))"
    by (rule mset_concat_map_cong) (rule segment_starts_mset)
  also have "\<dots> = mset (concat (map (\<lambda>k. py_slice buf (k * 8) (k * 8 + 8)) [0..<32]))"
    by (simp add: comp_def del: upt_Suc)
  also have "\<dots> = mset (take 256 buf)"
    by (simp add: concat_chunks del: upt_Suc)
  finally show ?thesis .
qed

lemma set_rearange_pixels: "set (rearange_pixels buf) = set (take 256 buf)"
  using mset_rearange_pixels [of buf] by (rule mset_eq_setD)

lemma length_rearange_pixels_min: "length (rearange_pixels buf) = min 256 (length buf)"
  using arg_cong [OF mset_rearange_pixels [of buf], of size] by (simp add: min.commute)

lemma rearange_pixels_take: "rearange_pixels (take 256 buf) = rearange_pixels buf"
proof -
  have "segment_line (take 256 buf) (c, segment_start c) = segment_line buf (c, segment_start c)"
    if "c < 32" for c
    using segment_start_bound [OF that] by (simp add: segment_line_def py_slice_take min_def)
  then have "map (\<lambda>c. segment_line (take 256 buf) (c, segment_start c)) [0..<32] =
      map (\<lambda>c. segment_line buf (c, segment_start c)) [0..<32]"
    by (intro map_cong) simp_all
  then show ?thesis
    by (simp only: rearange_pixels_segments)
qed


section \<open>The returned bytes\<close>

lemma rearange_eq_Inr_iff [result_iffs]:
  "rearange buf = Inr bs \<longleftrightarrow>
     list_all (list_all in_byte) (take 256 buf) \<and>
     bs = map word_of_int (concat (rearange_pixels buf))"
  by (auto simp: rearange_def bytearray_eq_Inr_iff list_all_iff set_rearange_pixels)

lemma rearange_eq_Inl_iff [result_iffs]:
  "rearange buf = Inl e \<longleftrightarrow> \<not> list_all (list_all in_byte) (take 256 buf) \<and> e = ValueError"
  by (auto simp: rearange_def bytearray_eq_Inl_iff list_all_iff set_rearange_pixels)

lemma triples_uniform:
  assumes "list_all (\<lambda>p. length p = 3) buf"
  shows "\<forall>xs\<in>set (rearange_pixels buf). length xs = 3"
  using assms by (auto simp: set_rearange_pixels list_all_iff dest: in_set_takeD)

lemma length_rearange [len_simps]:
  assumes "list_all (\<lambda>p. length p = 3) buf" "rearange buf = Inr bs"
  shows "length bs = 3 * min 256 (length buf)"
  using assms(2) length_concat_uniform [OF triples_uniform [OF assms(1)]]
  by (simp add: rearange_eq_Inr_iff length_rearange_pixels_min)

lemma rearange_pixel_at:
  assumes "256 \<le> length buf" "list_all (\<lambda>p. length p = 3) buf" "rearange buf = Inr bs" "k < 256"
  shows "take 3 (drop (k * 3) bs) = map word_of_int (buf ! wire_source k)"
proof -
  have "take 3 (drop (k * 3) (concat (rearange_pixels buf))) = rearange_pixels buf ! k"
    using triples_uniform [OF assms(2)] assms(1,4)
    by (intro take_drop_concat_uniform) (simp_all add: length_rearange_pixels)
  with assms show ?thesis
    by (simp add: rearange_eq_Inr_iff nth_rearange_pixels take_map drop_map)
qed


lemma rearange_pixels_at_pos:
  "256 \<le> length buf \<Longrightarrow> p < 256 \<Longrightarrow> rearange_pixels buf ! wire_pos p = buf ! p"
  by (simp add: nth_rearange_pixels wire_inverse)

lemma rearange_total:
  assumes "list_all (list_all in_byte) buf"
  shows "rearange buf = Inr (map word_of_int (concat (rearange_pixels buf)))"
  using assms by (auto simp: rearange_eq_Inr_iff list_all_iff dest: in_set_takeD)

lemma rearange_bytes_at_pos:
  assumes "256 \<le> length buf" "list_all (\<lambda>p. length p = 3) buf" "rearange buf = Inr bs" "p < 256"
  shows "take 3 (drop (3 * wire_pos p) bs) = map word_of_int (buf ! p)"
  using rearange_pixel_at [OF assms(1-3), of "wire_pos p"] assms(4)
  by (simp add: wire_inverse mult.commute)


section \<open>Items that are not tuples\<close>

lemma items_of_simps [simp]:
  "items_of (Scalar v) = Inl TypeError" "items_of (Bands vs) = Inr vs"
  by (simp_all add: items_of_def)

lemma items_of_cases: "items_of px = (if is_tuple px then Inr (items px) else Inl TypeError)"
  by (cases px) simp_all

lemma segment_line_map: "segment_line (map f buf) = (\<lambda>ci. map f (segment_line buf ci))"
  by (rule ext) (simp add: segment_line_def py_slice_def Let_def take_map drop_map rev_map
      split: prod.splits)

lemma rearange_pixels_short:
  assumes "length buf \<le> 8"
  shows "rearange_pixels buf = buf"
proof -
  let ?g = "\<lambda>c. segment_line buf (c, segment_start c)"
  have rest: "?g c = []" if "0 < c" for c
    using that assms by (simp add: segment_line_def py_slice_def segment_start_def)
  have first: "?g 0 = buf"
    using assms by (simp add: segment_line_def py_slice_def segment_start_def)
  have "[0..<32] = 0 # [Suc 0..<32]"
    by (simp add: upt_conv_Cons del: upt_Suc)
  then have "rearange_pixels buf = ?g 0 @ concat (map ?g [Suc 0..<32])"
    by (simp only: rearange_pixels_segments list.map concat.simps)
  also have "concat (map ?g [Suc 0..<32]) = []"
    using rest by (simp del: upt_Suc)
  finally show ?thesis
    using first by simp
qed

lemma rearange_pixels_map: "rearange_pixels (map f buf) = map f (rearange_pixels buf)"
  by (simp add: rearange_pixels_def rearange_loop_append segment_line_map map_concat comp_def)

lemma rearange_any_tuples:
  assumes "list_all is_tuple (take 256 buf)"
  shows "rearange_any buf = rearange (map items (take 256 buf))"
proof -
  from assms have "map_result items_of (rearange_pixels buf) = Inr (map items (rearange_pixels buf))"
    by (intro map_result_cong_ok) (simp add: set_rearange_pixels list_all_iff items_of_cases)
  then show ?thesis
    by (simp add: rearange_any_def rearange_def rearange_pixels_map rearange_pixels_take)
qed

lemma rearange_any_scalar:
  assumes "\<not> list_all is_tuple (take 256 buf)"
  shows "rearange_any buf = Inl TypeError"
proof -
  from assms have "map_result items_of (rearange_pixels buf) = Inl TypeError"
    by (intro map_result_one_error)
      (auto simp: set_rearange_pixels list_all_iff items_of_cases is_ok_def)
  then show ?thesis
    by (simp add: rearange_any_def)
qed

lemma rearange_take: "rearange (take 256 buf) = rearange buf"
  by (simp add: rearange_def rearange_pixels_take)

lemma rearange_any_Bands: "rearange_any (map Bands buf) = rearange buf"
proof -
  have "list_all is_tuple (take 256 (map Bands buf))"
    by (auto simp: list_all_iff dest!: in_set_takeD)
  then have "rearange_any (map Bands buf) = rearange (map items (take 256 (map Bands buf)))"
    by (rule rearange_any_tuples)
  also have "map items (take 256 (map Bands buf)) = take 256 buf"
    by (simp add: take_map comp_def)
  finally show ?thesis
    by (simp add: rearange_take)
qed


section \<open>Properties\<close>

text \<open>
  Claim C2 (refinement). Given at least 256 pixels, the loop of \<^verbatim>\<open>rearange\<close>
  produces the wire order of the specification: wire position \<open>k\<close> holds the
  pixel at row-major image index \<open>wire_source k\<close>, for each of the 256
  positions.
\<close>

theorem rearange_pixels_refines_wire_order:
  "256 \<le> length buf \<Longrightarrow> rearange_pixels buf = wire_order buf"
  by (rule rearange_pixels_wire_order)

theorem rearange_pixels_refines_wire_order_witness:
  "256 \<le> length (replicate 256 (0::nat)) \<and>
   rearange_pixels (replicate 256 (0::nat)) = wire_order (replicate 256 0)"
  using rearange_pixels_refines_wire_order [of "replicate 256 (0::nat)"] by simp

text \<open>
  Claim C14 (functional). The remapper neither loses nor duplicates a pixel:
  for an input of any length, the list built by the loop is a permutation of
  the first 256 pixels of the input.
\<close>

theorem rearange_pixels_permutes: "mset (rearange_pixels buf) = mset (take 256 buf)"
  by (rule mset_rearange_pixels)

text \<open>
  Claim C32 (roundtrip). Reading the wire order back through \<open>wire_pos\<close>
  recovers the image: the pixel of image index \<open>p\<close> is at wire position
  \<open>wire_pos p\<close>, so \<open>unwire\<close> undoes the remapping.
\<close>

theorem unwire_rearange_pixels:
  assumes "256 \<le> length buf"
  shows "unwire (rearange_pixels buf) = take 256 buf"
proof (rule nth_equalityI)
  show "length (unwire (rearange_pixels buf)) = length (take 256 buf)"
    using assms by (simp add: unwire_def)
next
  fix p
  assume "p < length (unwire (rearange_pixels buf))"
  then have "p < 256"
    by (simp add: unwire_def)
  with assms show "unwire (rearange_pixels buf) ! p = take 256 buf ! p"
    by (simp add: unwire_def rearange_pixels_at_pos del: upt_Suc)
qed

theorem unwire_rearange_pixels_witness:
  "256 \<le> length (replicate 300 True) \<and>
   unwire (rearange_pixels (replicate 300 True)) = take 256 (replicate 300 True)"
  using unwire_rearange_pixels [of "replicate 300 True"] by simp

text \<open>
  For 256 pixels of three byte-sized channels each, \<^verbatim>\<open>rearange\<close> returns
  normally and the buffer it returns is 768 bytes long.
\<close>

theorem rearange_length_768:
  assumes "length buf = 256" "list_all (\<lambda>p. length p = 3 \<and> list_all in_byte p) buf"
  shows "\<exists>bs. rearange buf = Inr bs \<and> length bs = 768"
proof -
  from assms(2) have ok: "list_all (list_all in_byte) buf" and tri: "list_all (\<lambda>p. length p = 3) buf"
    by (simp_all add: list_all_iff)
  from rearange_total [OF ok] length_rearange [OF tri] assms(1) show ?thesis
    by simp
qed

theorem rearange_length_768_witness:
  "length (replicate 256 [1, 2, 3 :: int]) = 256 \<and>
   list_all (\<lambda>p. length p = 3 \<and> list_all in_byte p) (replicate 256 [1, 2, 3]) \<and>
   (\<exists>bs. rearange (replicate 256 [1, 2, 3]) = Inr bs \<and> length bs = 768)"
  using rearange_length_768 [of "replicate 256 [1, 2, 3]"] by (simp add: list_all_iff)

text \<open>
  On a list of tuples \<^verbatim>\<open>rearange\<close> raises exactly when one of the first 256
  pixels has a channel outside 0..255, and then the exception is
  \<^verbatim>\<open>ValueError\<close>; pixels beyond the first 256 are never looked at.
\<close>

theorem rearange_result:
  "rearange buf =
     (if list_all (list_all in_byte) (take 256 buf)
      then Inr (map word_of_int (concat (rearange_pixels buf))) else Inl ValueError)"
  by (simp add: rearange_eq_Inr_iff rearange_eq_Inl_iff)

text \<open>
  Claim C37 (functional). \<^verbatim>\<open>rearange\<close> itself has no fallback for a pixel
  count other than 256: the loop returns as many pixels as it was given, up
  to 256, and the empty input gives the empty buffer, not 768 zero bytes.
\<close>

theorem rearange_no_fallback:
  "length (rearange_pixels buf) = min 256 (length buf) \<and> rearange [] = Inr []"
  by (simp add: length_rearange_pixels_min rearange_eq_Inr_iff set_rearange_pixels)

text \<open>
  Claim C33 (error). \<^verbatim>\<open>rearange\<close> on a list whose items need not be tuples:
  if one of the first 256 items is a number, flattening the list on line 64
  raises \<^verbatim>\<open>TypeError\<close>, also when another item holds a value outside
  0..255, because the comprehension is evaluated before \<^verbatim>\<open>bytearray\<close> sees
  a value. Otherwise a value outside 0..255 raises \<^verbatim>\<open>ValueError\<close>, and
  otherwise the result is the bytes of the remapped items, whatever the
  length of each tuple. Items beyond the first 256 are never looked at.
\<close>

theorem rearange_any_result:
  "rearange_any buf =
     (if \<not> list_all is_tuple (take 256 buf) then Inl TypeError
      else if \<not> list_all (\<lambda>px. list_all in_byte (items px)) (take 256 buf) then Inl ValueError
      else Inr (map word_of_int (concat (map items (rearange_pixels buf)))))"
  by (auto simp: rearange_any_scalar rearange_any_tuples rearange_eq_Inl_iff rearange_eq_Inr_iff
      rearange_pixels_map rearange_pixels_take list_all_iff dest: in_set_takeD)

theorem rearange_any_result_witness:
  "rearange_any [Bands [300, 0, 0], Scalar 7] = Inl TypeError \<and>
   rearange_any [Bands [300, 0, 0], Bands [7]] = Inl ValueError \<and>
   rearange_any (map Scalar [1, 2, 3]) = Inl TypeError \<and>
   rearange_any [Bands [1, 2, 3], Bands [4, 5]] = Inr [1, 2, 3, 4, 5]"
  using rearange_any_result [of "[Bands [300, 0, 0], Scalar 7]"]
    rearange_any_result [of "[Bands [300, 0, 0], Bands [7]]"]
    rearange_any_result [of "map Scalar [1, 2, 3]"]
    rearange_any_result [of "[Bands [1, 2, 3], Bands [4, 5]]"]
  by (simp add: rearange_pixels_short)

end
