(* ===== verification/Image_Buffer.thy ===== *)
theory Image_Buffer
  imports Rearange
begin

text \<open>
  The image loader, \<^verbatim>\<open>imageToBuffer\<close> of \<^verbatim>\<open>src/send_umbrella.py\<close> (lines 67 to
  78). Decoding the file (\<^verbatim>\<open>Image.open\<close> and \<^verbatim>\<open>getdata\<close> of the imaging
  library) is a parameter \<open>decode\<close> of the model: a function from the file
  name to the pixel data or an exception. Everything after it is modelled as
  written: the test on the first pixel, the two comprehensions that swap the
  channels and drop alpha, the test on the pixel count, and the call of
  \<^verbatim>\<open>rearange\<close>.

  An element of the pixel data is a \<open>pixel\<close> (declared in \<open>Rearange\<close>): a
  tuple of bands, or a single number for a one-band image. The exceptions of the comprehensions
  (unpacking a tuple of the wrong size, taking the length of a number) are
  branches of \<open>unpack4\<close>, \<open>unpack3\<close> and \<open>py_len\<close>.
\<close>

section \<open>The code\<close>

definition py_len :: "pixel \<Rightarrow> nat result" where
  "py_len px = (case px of Scalar v \<Rightarrow> Inl TypeError | Bands vs \<Rightarrow> Inr (length vs))"

fun unpack4 :: "pixel \<Rightarrow> int list result" where
  "unpack4 (Bands [r, g, b, a]) = Inr [b, g, r]"
| "unpack4 (Bands vs) = Inl ValueError"
| "unpack4 (Scalar v) = Inl TypeError"

fun unpack3 :: "pixel \<Rightarrow> int list result" where
  "unpack3 (Bands [r, g, b]) = Inr [b, g, r]"
| "unpack3 (Bands vs) = Inl ValueError"
| "unpack3 (Scalar v) = Inl TypeError"

definition swap_channels :: "pixel list \<Rightarrow> int list list result" where
  "swap_channels pix =
     rbind (item0 pix) (\<lambda>p0.
     rbind (py_len p0) (\<lambda>n.
       if n = 4 then map_result unpack4 pix else map_result unpack3 pix))"

definition frame_of_pixels :: "pixel list \<Rightarrow> bytes result" where
  "frame_of_pixels pix0 =
     rbind (swap_channels pix0) (\<lambda>pix.
       if length pix \<noteq> 256 then bytearray (py_repeat [0] 768) else rearange pix)"

definition imageToBuffer :: "(string \<Rightarrow> pixel list result) \<Rightarrow> string \<Rightarrow> bytes result" where
  "imageToBuffer decode fname = rbind (decode fname) frame_of_pixels"


section \<open>Well-formed pixel data\<close>

definition is_rgb :: "pixel \<Rightarrow> bool" where
  "is_rgb px = (case px of Bands vs \<Rightarrow> length vs = 3 \<and> list_all in_byte vs | Scalar v \<Rightarrow> False)"

definition is_rgba :: "pixel \<Rightarrow> bool" where
  "is_rgba px = (case px of Bands vs \<Rightarrow> length vs = 4 \<and> list_all in_byte vs | Scalar v \<Rightarrow> False)"

definition bgr :: "pixel \<Rightarrow> int list" where
  "bgr px = (case px of Bands vs \<Rightarrow> rev (take 3 vs) | Scalar v \<Rightarrow> [])"

definition drop_alpha :: "pixel \<Rightarrow> pixel" where
  "drop_alpha px = (case px of Bands vs \<Rightarrow> Bands (take 3 vs) | Scalar v \<Rightarrow> Scalar v)"

definition blank_frame :: bytes where
  "blank_frame = replicate 768 0"

definition arity :: "pixel \<Rightarrow> nat option" where
  "arity px = (case px of Scalar v \<Rightarrow> None | Bands vs \<Rightarrow> Some (length vs))"

lemmas pixel_defs = is_rgb_def is_rgba_def bgr_def drop_alpha_def py_len_def


section \<open>Unpacking one pixel\<close>

lemma length_3E:
  assumes "length vs = 3"
  obtains r g b where "vs = [r, g, b]"
  using assms by (auto simp: length_Suc_conv numeral_3_eq_3)

lemma length_4E:
  assumes "length vs = 4"
  obtains r g b a where "vs = [r, g, b, a]"
proof -
  from assms obtain r ws where "vs = r # ws" "length ws = 3"
    by (cases vs) auto
  then show ?thesis
    using that by (auto elim: length_3E)
qed

fun_cases unpack3_InrE: "unpack3 px = Inr t"
  and unpack4_InrE: "unpack4 px = Inr t"

lemma unpack3_eq_Inr_iff [result_iffs]:
  "unpack3 px = Inr t \<longleftrightarrow> (\<exists>r g b. px = Bands [r, g, b] \<and> t = [b, g, r])"
  by (auto elim: unpack3_InrE)

lemma unpack4_eq_Inr_iff [result_iffs]:
  "unpack4 px = Inr t \<longleftrightarrow> (\<exists>r g b a. px = Bands [r, g, b, a] \<and> t = [b, g, r])"
  by (auto elim: unpack4_InrE)

lemma unpack3_rgb: "is_rgb px \<Longrightarrow> unpack3 px = Inr (bgr px)"
  by (cases px) (auto simp: pixel_defs elim!: length_3E)

lemma unpack4_rgba: "is_rgba px \<Longrightarrow> unpack4 px = Inr (bgr px)"
  by (cases px) (auto simp: pixel_defs elim!: length_4E)

lemma unpack4_drop_alpha: "unpack4 px = Inr t \<Longrightarrow> unpack3 (drop_alpha px) = Inr t"
  by (auto simp: unpack4_eq_Inr_iff drop_alpha_def)

lemma unpack_typed:
  "unpack3 px = Inr t \<longleftrightarrow> arity px = Some 3 \<and> t = bgr px"
  "unpack4 px = Inr t \<longleftrightarrow> arity px = Some 4 \<and> t = bgr px"
  by (cases px; auto simp: result_iffs arity_def bgr_def elim: length_3E length_4E)+

lemma map_result_unpack_typed:
  "map_result unpack3 pix = Inr out \<longleftrightarrow>
     list_all (\<lambda>p. arity p = Some 3) pix \<and> out = map bgr pix"
  "map_result unpack4 pix = Inr out \<longleftrightarrow>
     list_all (\<lambda>p. arity p = Some 4) pix \<and> out = map bgr pix"
  by (auto simp: map_result_eq_Inr_iff unpack_typed list_all2_conv_all_nth list_all_length
      intro: nth_equalityI)

lemma length_unpack [len_simps]:
  "unpack3 px = Inr t \<Longrightarrow> length t = 3" "unpack4 px = Inr t \<Longrightarrow> length t = 3"
  by (auto simp: result_iffs)

lemma bgr_in_byte: "is_rgb px \<or> is_rgba px \<Longrightarrow> length (bgr px) = 3 \<and> list_all in_byte (bgr px)"
  by (cases px) (auto simp: pixel_defs list_all_iff dest: in_set_takeD)


section \<open>The two comprehensions\<close>

lemma swap_channels_Nil [simp]: "swap_channels [] = Inl IndexError"
  by (simp add: swap_channels_def)

lemma swap_channels_Scalar [simp]: "swap_channels (Scalar v # rest) = Inl TypeError"
  by (simp add: swap_channels_def py_len_def)

lemma swap_channels_Bands:
  "swap_channels (Bands vs # rest) =
     (if length vs = 4 then map_result unpack4 (Bands vs # rest)
      else map_result unpack3 (Bands vs # rest))"
  by (simp add: swap_channels_def py_len_def)

lemma swap_channels_triples:
  assumes "swap_channels pix = Inr px"
  shows "length px = length pix \<and> list_all (\<lambda>t. length t = 3) px"
proof -
  from assms obtain f where f: "map_result f pix = Inr px" "f = unpack3 \<or> f = unpack4"
    by (auto simp: swap_channels_def rbind_eq_Inr_iff split: if_splits)
  then have "list_all2 (\<lambda>x y. f x = Inr y) pix px"
    by (simp add: map_result_eq_Inr_iff)
  with f(2) show ?thesis
    by (auto simp: list_all2_conv_all_nth list_all_length intro: length_unpack)
qed

lemma swap_channels_rgb:
  assumes "pix \<noteq> []" "list_all is_rgb pix"
  shows "swap_channels pix = Inr (map bgr pix)"
proof -
  from assms obtain vs rest where pix: "pix = Bands vs # rest" and "length vs = 3"
    by (cases pix; cases "hd pix") (auto simp: is_rgb_def)
  moreover have "map_result unpack3 pix = Inr (map bgr pix)"
    using assms(2) by (intro map_result_cong_ok) (simp add: list_all_iff unpack3_rgb)
  ultimately show ?thesis
    by (simp add: swap_channels_Bands)
qed

lemma swap_channels_rgba:
  assumes "pix \<noteq> []" "list_all is_rgba pix"
  shows "swap_channels pix = Inr (map bgr pix)"
proof -
  from assms obtain vs rest where pix: "pix = Bands vs # rest" and "length vs = 4"
    by (cases pix; cases "hd pix") (auto simp: is_rgba_def)
  moreover have "map_result unpack4 pix = Inr (map bgr pix)"
    using assms(2) by (intro map_result_cong_ok) (simp add: list_all_iff unpack4_rgba)
  ultimately show ?thesis
    by (simp add: swap_channels_Bands)
qed

lemma swap_channels_image:
  assumes "pix \<noteq> []" "list_all is_rgb pix \<or> list_all is_rgba pix"
  shows "swap_channels pix = Inr (map bgr pix)"
  using assms swap_channels_rgb swap_channels_rgba by blast

lemma bgr_frame_ok:
  assumes "list_all is_rgb pix \<or> list_all is_rgba pix"
  shows "list_all (list_all in_byte) (map bgr pix)" "list_all (\<lambda>t. length t = 3) (map bgr pix)"
  using assms bgr_in_byte by (auto simp: list_all_iff)


section \<open>The frame\<close>

lemma blank_frame_eq: "bytearray (py_repeat [0] 768) = Inr blank_frame"
proof -
  have "py_repeat [0::int] n = replicate n 0" for n
    by (induction n) (simp_all add: py_repeat_def)
  then show ?thesis
    by (simp add: blank_frame_def)
qed

lemma frame_of_pixels_eq:
  "swap_channels pix = Inr px \<Longrightarrow>
     frame_of_pixels pix = (if length pix \<noteq> 256 then Inr blank_frame else rearange px)"
  using swap_channels_triples [of pix px] by (simp add: frame_of_pixels_def blank_frame_eq)

lemma frame_of_pixels_error: "swap_channels pix = Inl e \<Longrightarrow> frame_of_pixels pix = Inl e"
  by (simp add: frame_of_pixels_def)

lemma frame_of_image:
  assumes "length pix = 256" "list_all is_rgb pix \<or> list_all is_rgba pix"
  shows "frame_of_pixels pix = Inr (map word_of_int (concat (rearange_pixels (map bgr pix))))"
proof -
  from assms(1) have "pix \<noteq> []" by auto
  then have "swap_channels pix = Inr (map bgr pix)"
    using assms(2) by (rule swap_channels_image)
  then show ?thesis
    using assms(1) bgr_frame_ok(1) [OF assms(2)] by (simp add: frame_of_pixels_eq rearange_total)
qed


lemma length_frame_of_pixels [len_simps]:
  assumes "frame_of_pixels pix = Inr bs"
  shows "length bs = 768"
proof -
  from assms obtain px where px: "swap_channels pix = Inr px"
    by (auto simp: frame_of_pixels_def rbind_eq_Inr_iff)
  note tri = swap_channels_triples [OF px]
  show ?thesis
  proof (cases "length pix = 256")
    case True
    with assms px have "rearange px = Inr bs"
      by (simp add: frame_of_pixels_eq)
    with tri True length_rearange [of px bs] show ?thesis
      by simp
  next
    case False
    with assms px show ?thesis
      by (auto simp: frame_of_pixels_eq blank_frame_def)
  qed
qed

lemma unpack4_as_unpack3:
  "length vs = 4 \<Longrightarrow> unpack4 (Bands vs) = unpack3 (drop_alpha (Bands vs))"
  by (auto simp: drop_alpha_def elim!: length_4E)

lemma map_result_drop_alpha:
  "list_all (\<lambda>px. \<exists>vs. px = Bands vs \<and> length vs = 4) pix \<Longrightarrow>
     map_result unpack4 pix = map_result unpack3 (map drop_alpha pix)"
  by (induction pix) (auto simp: unpack4_as_unpack3)


lemma frame_pixel_bytes:
  assumes "length pix = 256" "list_all is_rgb pix \<or> list_all is_rgba pix"
    and "p < 256" "pix ! p = Bands (r # g # b # rest)"
  shows "\<exists>bs. frame_of_pixels pix = Inr bs \<and>
     take 3 (drop (3 * wire_pos p) bs) = [word_of_int b, word_of_int g, word_of_int r]"
proof -
  let ?px = "map bgr pix"
  let ?bs = "map word_of_int (concat (rearange_pixels ?px)) :: bytes"
  have r: "rearange ?px = Inr ?bs"
    by (rule rearange_total) (rule bgr_frame_ok(1) [OF assms(2)])
  have "take 3 (drop (3 * wire_pos p) ?bs) = map word_of_int (?px ! p)"
    by (rule rearange_bytes_at_pos [OF _ bgr_frame_ok(2) [OF assms(2)] r assms(3)])
      (simp add: assms(1))
  moreover have "?px ! p = [b, g, r]"
    using assms(1,3,4) by (simp add: bgr_def)
  ultimately show ?thesis
    using frame_of_image [OF assms(1,2)] by simp
qed


section \<open>Properties\<close>

text \<open>
  Claim C24 (functional). Whenever \<^verbatim>\<open>imageToBuffer\<close> returns, for any file and
  any decoder result, the buffer it returns has exactly 768 bytes.
\<close>

theorem imageToBuffer_length:
  "imageToBuffer decode fname = Inr bs \<Longrightarrow> length bs = 768"
  by (auto simp: imageToBuffer_def rbind_eq_Inr_iff intro: length_frame_of_pixels)

theorem imageToBuffer_length_witness:
  "imageToBuffer (\<lambda>f. Inr [Bands [1, 2, 3]]) ''a.png'' = Inr blank_frame \<and>
   length blank_frame = 768"
proof -
  have "imageToBuffer (\<lambda>f. Inr [Bands [1, 2, 3]]) ''a.png'' = Inr blank_frame"
    by (simp add: imageToBuffer_def frame_of_pixels_def swap_channels_Bands blank_frame_eq)
  with imageToBuffer_length [of "\<lambda>f. Inr [Bands [1, 2, 3]]" "''a.png''" blank_frame]
  show ?thesis by simp
qed

text \<open>
  Claim C9 (error). With a decoder that delivers a non-empty RGB or RGBA
  image, the loader never raises; when the image does not have exactly 256
  pixels the result is the blank frame of 768 zero bytes.
\<close>

theorem imageToBuffer_total:
  assumes "decode fname = Inr pix" "pix \<noteq> []" "list_all is_rgb pix \<or> list_all is_rgba pix"
  shows "\<exists>bs. imageToBuffer decode fname = Inr bs \<and> (length pix \<noteq> 256 \<longrightarrow> bs = blank_frame)"
proof (cases "length pix = 256")
  case True
  with assms show ?thesis
    by (simp add: imageToBuffer_def frame_of_image)
next
  case False
  with assms swap_channels_image [OF assms(2,3)] show ?thesis
    by (simp add: imageToBuffer_def frame_of_pixels_eq)
qed

theorem imageToBuffer_total_witness:
  "(\<lambda>f. Inr [Bands [1, 2, 3, 4]]) ''a.png'' = Inr [Bands [1, 2, 3, 4]] \<and>
   [Bands [1, 2, 3, 4]] \<noteq> [] \<and>
   (list_all is_rgb [Bands [1, 2, 3, 4]] \<or> list_all is_rgba [Bands [1, 2, 3, 4]]) \<and>
   (\<exists>bs. imageToBuffer (\<lambda>f. Inr [Bands [1, 2, 3, 4]]) ''a.png'' = Inr bs \<and>
     (length [Bands [1, 2, 3, 4]] \<noteq> 256 \<longrightarrow> bs = blank_frame))"
  using imageToBuffer_total [of "\<lambda>f. Inr [Bands [1, 2, 3, 4]]" "''a.png''" "[Bands [1, 2, 3, 4]]"]
  by (simp add: is_rgba_def)

text \<open>
  Claim C25 (error). The pixel count is tested only after the channels are
  swapped, so data that cannot be unpacked raises whatever its size: empty
  data raises \<^verbatim>\<open>IndexError\<close>, one-band data \<^verbatim>\<open>TypeError\<close>, two-band data
  \<^verbatim>\<open>ValueError\<close>, and a failure of the decoder is passed on unchanged.
\<close>

theorem imageToBuffer_errors:
  "imageToBuffer (\<lambda>f. Inr []) fname = Inl IndexError \<and>
   imageToBuffer (\<lambda>f. Inr (Scalar v # rest)) fname = Inl TypeError \<and>
   imageToBuffer (\<lambda>f. Inr (Bands [l, a] # rest)) fname = Inl ValueError \<and>
   imageToBuffer (\<lambda>f. Inl e) fname = Inl e"
  by (simp add: imageToBuffer_def frame_of_pixels_def swap_channels_Bands)

text \<open>
  Claim C38 (equivalence). Alpha is discarded and never range-checked: for
  four-band data the loader gives the same result, buffer or exception, as
  for the same data with the fourth band removed.
\<close>

theorem alpha_discarded:
  assumes "list_all (\<lambda>px. \<exists>vs. px = Bands vs \<and> length vs = 4) pix"
  shows "frame_of_pixels pix = frame_of_pixels (map drop_alpha pix)"
proof (cases pix)
  case Nil
  then show ?thesis by simp
next
  case (Cons px rest)
  with assms obtain vs where px: "px = Bands vs" "length vs = 4"
    by auto
  have "swap_channels pix = map_result unpack4 pix"
    using Cons px by (simp add: swap_channels_Bands)
  also have "\<dots> = map_result unpack3 (map drop_alpha pix)"
    using assms by (rule map_result_drop_alpha)
  also have "\<dots> = swap_channels (map drop_alpha pix)"
    using Cons px by (simp add: swap_channels_Bands drop_alpha_def)
  finally show ?thesis
    by (simp add: frame_of_pixels_def)
qed

theorem alpha_discarded_witness:
  "list_all (\<lambda>px. \<exists>vs. px = Bands vs \<and> length vs = 4) [Bands [1, 2, 3, 999]] \<and>
   frame_of_pixels [Bands [1, 2, 3, 999]] = frame_of_pixels (map drop_alpha [Bands [1, 2, 3, 999]])"
  using alpha_discarded [of "[Bands [1, 2, 3, 999]]"] by simp

text \<open>
  Claim C22 (type). The two comprehensions accept exactly the well-typed
  pixel data: the channel swap returns normally if and only if the data are
  not empty and every pixel is a tuple of three values, or every pixel is a
  tuple of four values; the result then holds, for each pixel, the list of
  its first three values reversed. No value is inspected: only the shape of
  the data decides.
\<close>

theorem swap_channels_typed:
  "swap_channels pix = Inr out \<longleftrightarrow>
     pix \<noteq> [] \<and>
     (list_all (\<lambda>p. arity p = Some 3) pix \<or> list_all (\<lambda>p. arity p = Some 4) pix) \<and>
     out = map bgr pix"
proof (cases pix)
  case Nil
  then show ?thesis by simp
next
  case (Cons p rest)
  show ?thesis
  proof (cases p)
    case (Scalar v)
    with Cons show ?thesis by (simp add: arity_def)
  next
    case (Bands vs)
    with Cons have sw: "swap_channels pix =
        (if length vs = 4 then map_result unpack4 pix else map_result unpack3 pix)"
      and shape: "pix \<noteq> []" "list_all (\<lambda>p. arity p = Some 3) pix \<Longrightarrow> length vs = 3"
        "list_all (\<lambda>p. arity p = Some 4) pix \<Longrightarrow> length vs = 4"
      by (simp_all add: swap_channels_Bands arity_def)
    from shape show ?thesis
      unfolding sw by (auto simp: map_result_unpack_typed)
  qed
qed

end
