(* ===== verification/Pil_Image.thy ===== *)
theory Pil_Image
  imports Image_Buffer
begin

text \<open>
  The imaging library as \<^verbatim>\<open>imageToBuffer\<close> of \<^verbatim>\<open>src/send_umbrella.py\<close> uses it
  (lines 68 and 69): \<^verbatim>\<open>Image.open(fname)\<close> and \<^verbatim>\<open>list(im.getdata())\<close>. The
  library is not part of the repository; this theory models its documented
  interface, as far as the script depends on it.

  An \<open>image\<close> has a mode, a size and one list of samples per pixel, row by
  row. \<open>bands\<close> gives the number of samples per pixel of each mode.
  \<open>getdata\<close> returns a number for each pixel of a one-band image and a tuple
  for each pixel of any other image. A sample of the modes \<open>I\<close> and \<open>F\<close>, a
  32-bit integer or a float, is represented by an integer: the script never
  looks at the samples of a one-band image. \<open>Image_open\<close> looks the name up
  in the files of the system; a missing file and a file that is no image
  raise subclasses of \<^verbatim>\<open>OSError\<close>.

  \<open>pil_decode\<close> is the two lines of the script, and \<open>load_image\<close> the
  function \<^verbatim>\<open>imageToBuffer\<close> with the library in place of the parameter
  \<open>decode\<close> of \<open>Image_Buffer\<close>. \<open>picture_frame\<close> states, image by image,
  what the function returns or raises.
\<close>

section \<open>Images and files\<close>

datatype mode =
  Mode_1 | Mode_L | Mode_P | Mode_I | Mode_F | Mode_LA | Mode_PA
  | Mode_RGB | Mode_YCbCr | Mode_LAB | Mode_HSV | Mode_RGBA | Mode_CMYK | Mode_RGBX

fun bands :: "mode \<Rightarrow> nat" where
  "bands Mode_1 = 1"
| "bands Mode_L = 1"
| "bands Mode_P = 1"
| "bands Mode_I = 1"
| "bands Mode_F = 1"
| "bands Mode_LA = 2"
| "bands Mode_PA = 2"
| "bands Mode_RGB = 3"
| "bands Mode_YCbCr = 3"
| "bands Mode_LAB = 3"
| "bands Mode_HSV = 3"
| "bands Mode_RGBA = 4"
| "bands Mode_CMYK = 4"
| "bands Mode_RGBX = 4"

section \<open>The modes as an enumeration\<close>

instantiation mode :: enum
begin

definition enum_mode :: "mode list" where
  "enum_mode = [Mode_1, Mode_L, Mode_P, Mode_I, Mode_F, Mode_LA, Mode_PA, Mode_RGB, Mode_YCbCr,
     Mode_LAB, Mode_HSV, Mode_RGBA, Mode_CMYK, Mode_RGBX]"

definition enum_all_mode :: "(mode \<Rightarrow> bool) \<Rightarrow> bool" where
  "enum_all_mode Q = list_all Q
     [Mode_1, Mode_L, Mode_P, Mode_I, Mode_F, Mode_LA, Mode_PA, Mode_RGB, Mode_YCbCr,
       Mode_LAB, Mode_HSV, Mode_RGBA, Mode_CMYK, Mode_RGBX]"

definition enum_ex_mode :: "(mode \<Rightarrow> bool) \<Rightarrow> bool" where
  "enum_ex_mode Q = list_ex Q
     [Mode_1, Mode_L, Mode_P, Mode_I, Mode_F, Mode_LA, Mode_PA, Mode_RGB, Mode_YCbCr,
       Mode_LAB, Mode_HSV, Mode_RGBA, Mode_CMYK, Mode_RGBX]"

instance
proof
  have UNIV_mode: "UNIV = {Mode_1, Mode_L, Mode_P, Mode_I, Mode_F, Mode_LA, Mode_PA, Mode_RGB,
      Mode_YCbCr, Mode_LAB, Mode_HSV, Mode_RGBA, Mode_CMYK, Mode_RGBX}"
    using mode.exhaust by auto
  show "UNIV = set (Enum.enum :: mode list)"
    by (simp add: UNIV_mode enum_mode_def)
  show "distinct (Enum.enum :: mode list)"
    by (simp add: enum_mode_def)
  show "Enum.enum_all Q = Ball UNIV Q" for Q :: "mode \<Rightarrow> bool"
    by (simp add: UNIV_mode enum_all_mode_def)
  show "Enum.enum_ex Q = Bex UNIV Q" for Q :: "mode \<Rightarrow> bool"
    by (simp add: UNIV_mode enum_ex_mode_def)
qed

end

record image =
  im_mode :: mode
  im_size :: "nat \<times> nat"
  im_pixels :: "int list list"

datatype entry = Picture image | Other

type_synonym files = "string \<Rightarrow> entry option"

definition sample_ok :: "mode \<Rightarrow> int \<Rightarrow> bool" where
  "sample_ok m v \<longleftrightarrow> m = Mode_I \<or> m = Mode_F \<or> in_byte v"

definition wf_image :: "image \<Rightarrow> bool" where
  "wf_image im \<longleftrightarrow>
     length (im_pixels im) = fst (im_size im) * snd (im_size im) \<and>
     list_all (\<lambda>vs. length vs = bands (im_mode im) \<and> list_all (sample_ok (im_mode im)) vs)
       (im_pixels im)"

definition wf_file :: "entry option \<Rightarrow> bool" where
  "wf_file f = (case f of Some (Picture im) \<Rightarrow> wf_image im | _ \<Rightarrow> True)"


section \<open>The two calls of the script\<close>

definition pixel_of :: "mode \<Rightarrow> int list \<Rightarrow> pixel" where
  "pixel_of m vs = (if bands m = 1 then (case vs of [v] \<Rightarrow> Scalar v | _ \<Rightarrow> Bands vs) else Bands vs)"

definition getdata :: "image \<Rightarrow> pixel list" where
  "getdata im = map (pixel_of (im_mode im)) (im_pixels im)"

definition Image_open :: "files \<Rightarrow> string \<Rightarrow> image result" where
  "Image_open fs fname =
     (case fs fname of
        None \<Rightarrow> Inl OSError
      | Some Other \<Rightarrow> Inl OSError
      | Some (Picture im) \<Rightarrow> Inr im)"

definition pil_decode :: "files \<Rightarrow> string \<Rightarrow> pixel list result" where
  "pil_decode fs fname = rbind (Image_open fs fname) (\<lambda>im. Inr (getdata im))"

definition load_image :: "files \<Rightarrow> string \<Rightarrow> bytes result" where
  "load_image fs = imageToBuffer (pil_decode fs)"


section \<open>What the loader does with an image\<close>

definition picture_frame :: "image \<Rightarrow> bytes result" where
  "picture_frame im =
     (if im_pixels im = [] then Inl IndexError
      else if bands (im_mode im) = 1 then Inl TypeError
      else if bands (im_mode im) = 2 then Inl ValueError
      else if length (im_pixels im) \<noteq> 256 then Inr blank_frame
      else Inr (map word_of_int (concat (wire_order (map (\<lambda>vs. rev (take 3 vs)) (im_pixels im))))))"

definition load_spec :: "files \<Rightarrow> string \<Rightarrow> bytes result" where
  "load_spec fs fname =
     (case fs fname of Some (Picture im) \<Rightarrow> picture_frame im | _ \<Rightarrow> Inl OSError)"

definition loadable :: "mode \<Rightarrow> bool" where
  "loadable m \<longleftrightarrow> 3 \<le> bands m"

lemmas pil_defs = getdata_def pixel_of_def Image_open_def pil_decode_def load_image_def


section \<open>Facts about modes\<close>

lemma bands_range: "bands m \<in> {1, 2, 3, 4}"
  by (cases m) simp_all

lemma loadable_modes:
  "filter loadable Enum.enum =
     [Mode_RGB, Mode_YCbCr, Mode_LAB, Mode_HSV, Mode_RGBA, Mode_CMYK, Mode_RGBX]"
  by (simp add: enum_mode_def loadable_def)

lemma loadable_samples: "loadable m \<Longrightarrow> sample_ok m v = in_byte v"
  by (cases m) (simp_all add: loadable_def sample_ok_def)


section \<open>Pixel data of a well-formed image\<close>

lemma length_getdata [simp, len_simps]: "length (getdata im) = length (im_pixels im)"
  by (simp add: getdata_def)

lemma getdata_bands: "bands (im_mode im) \<noteq> 1 \<Longrightarrow> getdata im = map Bands (im_pixels im)"
  by (simp add: getdata_def pixel_of_def)

lemma wf_image_pixel:
  assumes "wf_image im" "vs \<in> set (im_pixels im)"
  shows "length vs = bands (im_mode im)" "list_all (sample_ok (im_mode im)) vs"
  using assms by (auto simp: wf_image_def list_all_iff)

lemma getdata_one_band:
  assumes "wf_image im" "bands (im_mode im) = 1" "im_pixels im \<noteq> []"
  shows "\<exists>v ps. getdata im = Scalar v # ps"
proof -
  from assms(3) obtain vs rest where px: "im_pixels im = vs # rest"
    by (cases "im_pixels im") auto
  with assms(1,2) have "length vs = 1"
    using wf_image_pixel(1) [of im vs] by simp
  then obtain v where "vs = [v]"
    by (cases vs) auto
  with px assms(2) show ?thesis
    by (simp add: getdata_def pixel_of_def)
qed

lemma getdata_two_bands:
  assumes "wf_image im" "bands (im_mode im) = 2" "im_pixels im \<noteq> []"
  shows "\<exists>l a ps. getdata im = Bands [l, a] # ps"
proof -
  from assms(3) obtain vs rest where px: "im_pixels im = vs # rest"
    by (cases "im_pixels im") auto
  with assms(1,2) have "length vs = 2"
    using wf_image_pixel(1) [of im vs] by simp
  then obtain l a where "vs = [l, a]"
    by (auto simp: length_Suc_conv numeral_2_eq_2)
  with px assms(2) show ?thesis
    by (simp add: getdata_bands)
qed

lemma getdata_loadable:
  assumes "wf_image im" "loadable (im_mode im)"
  shows "list_all is_rgb (getdata im) \<or> list_all is_rgba (getdata im)"
proof -
  from assms(2) bands_range [of "im_mode im"]
  consider "bands (im_mode im) = 3" | "bands (im_mode im) = 4"
    by (auto simp: loadable_def)
  then show ?thesis
  proof cases
    case 1
    with assms have "list_all is_rgb (getdata im)"
      using wf_image_pixel [of im]
      by (auto simp: getdata_bands list_all_iff is_rgb_def loadable_samples)
    then show ?thesis ..
  next
    case 2
    with assms have "list_all is_rgba (getdata im)"
      using wf_image_pixel [of im]
      by (auto simp: getdata_bands list_all_iff is_rgba_def loadable_samples)
    then show ?thesis ..
  qed
qed

lemma bgr_getdata:
  "loadable (im_mode im) \<Longrightarrow> map bgr (getdata im) = map (\<lambda>vs. rev (take 3 vs)) (im_pixels im)"
  by (simp add: getdata_bands loadable_def bgr_def)

lemma picture_frame_loadable:
  assumes "wf_image im" "im_pixels im \<noteq> []" "loadable (im_mode im)"
  shows "frame_of_pixels (getdata im) = picture_frame im"
proof -
  note rgb = getdata_loadable [OF assms(1,3)]
  from assms(2) have "getdata im \<noteq> []"
    by (simp add: getdata_def)
  then have swap: "swap_channels (getdata im) = Inr (map bgr (getdata im))"
    using rgb by (rule swap_channels_image)
  from assms(3) have b: "bands (im_mode im) \<noteq> 1" "bands (im_mode im) \<noteq> 2"
    by (simp_all add: loadable_def)
  show ?thesis
  proof (cases "length (im_pixels im) = 256")
    case True
    with frame_of_image [OF _ rgb] assms(2,3) b show ?thesis
      by (simp add: picture_frame_def bgr_getdata rearange_pixels_wire_order)
  next
    case False
    with frame_of_pixels_eq [OF swap] assms(2,3) b show ?thesis
      by (simp add: picture_frame_def)
  qed
qed

lemma picture_frame_eq:
  assumes "wf_image im"
  shows "frame_of_pixels (getdata im) = picture_frame im"
proof -
  from bands_range [of "im_mode im"]
  consider (empty) "im_pixels im = []"
    | (one) "im_pixels im \<noteq> []" "bands (im_mode im) = 1"
    | (two) "im_pixels im \<noteq> []" "bands (im_mode im) = 2"
    | (more) "im_pixels im \<noteq> []" "loadable (im_mode im)"
    by (cases "im_pixels im = []") (auto simp: loadable_def)
  then show ?thesis
  proof cases
    case empty
    then show ?thesis
      by (simp add: picture_frame_def getdata_def frame_of_pixels_def)
  next
    case one
    with getdata_one_band [OF assms] show ?thesis
      by (auto simp: picture_frame_def frame_of_pixels_def)
  next
    case two
    with getdata_two_bands [OF assms] show ?thesis
      by (auto simp: picture_frame_def frame_of_pixels_def swap_channels_Bands)
  next
    case more
    with assms show ?thesis
      by (simp add: picture_frame_loadable)
  qed
qed

lemma load_image_eq:
  "load_image fs fname =
     (case fs fname of Some (Picture im) \<Rightarrow> frame_of_pixels (getdata im) | _ \<Rightarrow> Inl OSError)"
  by (simp add: load_image_def imageToBuffer_def pil_decode_def Image_open_def
      split: option.splits entry.splits)


section \<open>Properties\<close>

text \<open>
  Claim C8 (equivalence). With the imaging library in place,
  \<^verbatim>\<open>imageToBuffer\<close> is the function \<open>load_spec\<close> on every well-formed file: a
  missing file or a file that is no image raises \<^verbatim>\<open>OSError\<close>; an image
  without pixels raises \<^verbatim>\<open>IndexError\<close>, an image of a one-band mode
  \<^verbatim>\<open>TypeError\<close> and of a two-band mode \<^verbatim>\<open>ValueError\<close>, whatever its size;
  an image of a mode with three or four bands gives the blank frame unless
  it has 256 pixels, and then the first three samples of each pixel,
  reversed, in wire order.
\<close>

theorem load_image_spec:
  "wf_file (fs fname) \<Longrightarrow> load_image fs fname = load_spec fs fname"
  by (auto simp: load_image_eq load_spec_def wf_file_def picture_frame_eq
      split: option.splits entry.splits)

theorem load_image_spec_witness:
  "wf_file ([''grey.png'' \<mapsto> Picture \<lparr>im_mode = Mode_LA, im_size = (1, 2),
       im_pixels = [[0, 255], [9, 255]]\<rparr>] ''grey.png'') \<and>
   load_image [''grey.png'' \<mapsto> Picture \<lparr>im_mode = Mode_LA, im_size = (1, 2),
       im_pixels = [[0, 255], [9, 255]]\<rparr>] ''grey.png'' = Inl ValueError \<and>
   load_image [''grey.png'' \<mapsto> Picture \<lparr>im_mode = Mode_LA, im_size = (1, 2),
       im_pixels = [[0, 255], [9, 255]]\<rparr>] ''none.png'' = Inl OSError"
  using load_image_spec [of "[''grey.png'' \<mapsto> Picture \<lparr>im_mode = Mode_LA, im_size = (1, 2),
       im_pixels = [[0, 255], [9, 255]]\<rparr>]" "''grey.png''"]
    load_image_spec [of "[''grey.png'' \<mapsto> Picture \<lparr>im_mode = Mode_LA, im_size = (1, 2),
       im_pixels = [[0, 255], [9, 255]]\<rparr>]" "''none.png''"]
  by (simp add: wf_file_def wf_image_def sample_ok_def load_spec_def picture_frame_def)

end
