(* ===== verification/Struct_Pack.thy ===== *)
theory Struct_Pack
  imports Py_Prelude
begin

text \<open>
  The three calls of \<^verbatim>\<open>struct.pack\<close> in \<^verbatim>\<open>src/send_umbrella.py\<close> (lines 101 and
  107): one unsigned byte (\<^verbatim>\<open>">B"\<close>), an unsigned 16-bit number little-endian
  (\<^verbatim>\<open>"<H"\<close>) and big-endian (\<^verbatim>\<open>">H"\<close>). A number outside the format's range
  raises \<^verbatim>\<open>struct.error\<close>, here \<open>StructError\<close>. The readers \<open>unpack_B\<close>,
  \<open>unpack_H_le\<close> and \<open>unpack_H_be\<close> are what a receiver of the datagram
  applies; the round-trip lemmas show that they recover the packed number.
\<close>

section \<open>Packing\<close>

definition in_u16 :: "int \<Rightarrow> bool" where
  "in_u16 x \<longleftrightarrow> 0 \<le> x \<and> x < 65536"

definition pack_B :: "int \<Rightarrow> bytes result" where
  "pack_B x = (if in_byte x then Inr [word_of_int x] else Inl StructError)"

definition pack_H_le :: "int \<Rightarrow> bytes result" where
  "pack_H_le x =
     (if in_u16 x then Inr [word_of_int (x mod 256), word_of_int (x div 256)]
      else Inl StructError)"

definition pack_H_be :: "int \<Rightarrow> bytes result" where
  "pack_H_be x =
     (if in_u16 x then Inr [word_of_int (x div 256), word_of_int (x mod 256)]
      else Inl StructError)"


section \<open>Reading back\<close>

definition unpack_B :: "bytes \<Rightarrow> int option" where
  "unpack_B bs = (case bs of [b] \<Rightarrow> Some (uint b) | _ \<Rightarrow> None)"

definition unpack_H_le :: "bytes \<Rightarrow> int option" where
  "unpack_H_le bs = (case bs of [lo, hi] \<Rightarrow> Some (uint lo + 256 * uint hi) | _ \<Rightarrow> None)"

definition unpack_H_be :: "bytes \<Rightarrow> int option" where
  "unpack_H_be bs = (case bs of [hi, lo] \<Rightarrow> Some (uint lo + 256 * uint hi) | _ \<Rightarrow> None)"

lemmas pack_defs = pack_B_def pack_H_le_def pack_H_be_def
lemmas unpack_defs = unpack_B_def unpack_H_le_def unpack_H_be_def


section \<open>Lemmas\<close>

lemma in_u16_numeral [simp]:
  "in_u16 0" "in_u16 1" "in_u16 (numeral n) \<longleftrightarrow> numeral n < (65536::int)"
  by (simp_all add: in_u16_def)

lemma in_u16_length [simp]: "n < 65536 \<Longrightarrow> in_u16 (int n)"
  by (simp add: in_u16_def)

lemma u16_digits: "in_u16 x \<Longrightarrow> in_byte (x mod 256) \<and> in_byte (x div 256)"
  by (auto simp: in_u16_def in_byte_def)

lemma pack_B_eq_Inr_iff [result_iffs]: "pack_B x = Inr bs \<longleftrightarrow> in_byte x \<and> bs = [word_of_int x]"
  by (auto simp: pack_B_def)

lemma pack_H_le_eq_Inr_iff [result_iffs]:
  "pack_H_le x = Inr bs \<longleftrightarrow> in_u16 x \<and> bs = [word_of_int (x mod 256), word_of_int (x div 256)]"
  by (auto simp: pack_H_le_def)

lemma pack_H_be_eq_Inr_iff [result_iffs]:
  "pack_H_be x = Inr bs \<longleftrightarrow> in_u16 x \<and> bs = [word_of_int (x div 256), word_of_int (x mod 256)]"
  by (auto simp: pack_H_be_def)

lemma length_pack [len_simps]:
  "pack_B x = Inr bs \<Longrightarrow> length bs = 1"
  "pack_H_le x = Inr bs \<Longrightarrow> length bs = 2"
  "pack_H_be x = Inr bs \<Longrightarrow> length bs = 2"
  by (auto simp: pack_defs split: if_splits)

lemma pack_ok [simp]:
  "in_byte x \<Longrightarrow> pack_B x = Inr [word_of_int x]"
  "in_u16 x \<Longrightarrow> pack_H_le x = Inr [word_of_int (x mod 256), word_of_int (x div 256)]"
  "in_u16 x \<Longrightarrow> pack_H_be x = Inr [word_of_int (x div 256), word_of_int (x mod 256)]"
  by (simp_all add: pack_defs)

lemma unpack_B_single [simp]: "unpack_B [b] = Some (uint b)"
  by (simp add: unpack_B_def)

lemma unpack_pack_B: "pack_B x = Inr bs \<Longrightarrow> unpack_B bs = Some x"
  by (auto simp: pack_B_eq_Inr_iff unpack_B_def)

lemma unpack_pack_H_le: "pack_H_le x = Inr bs \<Longrightarrow> unpack_H_le bs = Some x"
  by (auto simp: pack_H_le_eq_Inr_iff unpack_H_le_def u16_digits)

lemma unpack_pack_H_be: "pack_H_be x = Inr bs \<Longrightarrow> unpack_H_be bs = Some x"
  by (auto simp: pack_H_be_eq_Inr_iff unpack_H_be_def u16_digits)

lemma pack_unpack_B: "unpack_B bs = Some x \<Longrightarrow> pack_B x = Inr bs"
  by (auto simp: unpack_B_def split: list.splits)

lemma uint_byte_mod256 [simp]: "uint (b :: byte) mod 256 = uint b"
  using uint_lt2p [of b] by simp

lemma uint_pair_digits:
  fixes lo hi :: byte
  shows "(uint lo + 256 * uint hi) mod 256 = uint lo" "(uint lo + 256 * uint hi) div 256 = uint hi"
    "in_u16 (uint lo + 256 * uint hi)"
  using uint_lt2p [of lo] uint_lt2p [of hi] uint_ge_0 [of lo] uint_ge_0 [of hi]
  by (simp_all add: in_u16_def)

lemma pack_unpack_H_le: "unpack_H_le bs = Some x \<Longrightarrow> pack_H_le x = Inr bs"
  by (auto simp: unpack_H_le_def uint_pair_digits split: list.splits)

lemma pack_unpack_H_be: "unpack_H_be bs = Some x \<Longrightarrow> pack_H_be x = Inr bs"
  by (auto simp: unpack_H_be_def uint_pair_digits split: list.splits)


section \<open>Properties\<close>

text \<open>
  The two 16-bit formats hold the same two bytes in
  opposite order, and reading either back gives the number that was packed.
\<close>

theorem pack_H_roundtrip:
  "pack_H_le x = Inr bs \<Longrightarrow>
     length bs = 2 \<and> unpack_H_le bs = Some x \<and>
     pack_H_be x = Inr (rev bs) \<and> unpack_H_be (rev bs) = Some x"
  by (auto simp: pack_H_le_eq_Inr_iff unpack_H_le_def unpack_H_be_def u16_digits)

theorem pack_H_roundtrip_witness:
  "pack_H_le 3 = Inr [3, 0] \<and>
     length [3, 0 :: byte] = 2 \<and> unpack_H_le [3, 0] = Some 3 \<and>
     pack_H_be 3 = Inr (rev [3, 0]) \<and> unpack_H_be (rev [3, 0]) = Some 3"
proof -
  have "pack_H_le 3 = Inr [3, 0]"
    by simp
  from pack_H_roundtrip [OF this] this show ?thesis
    by simp
qed

end
