(* ===== verification/Udp_Socket.thy ===== *)
theory Udp_Socket
  imports Py_Prelude
begin

text \<open>
  The operating system's side of \<^verbatim>\<open>src/send_umbrella.py\<close>: the UDP socket that
  the sender creates (line 92), switches to broadcast (line 93) and sends
  through (lines 101 and 107). The source only calls these operations, so
  this theory is the model of an interface, not of code of the repository.

  A socket records whether \<^verbatim>\<open>SO_BROADCAST\<close> is set and the datagrams handed
  to the network, oldest first. Failures of the operating system are not
  under the program's control; they are scripted in the field \<open>os_faults\<close>:
  each system call consumes the head of the list and fails with
  \<open>OSError\<close> when it is \<open>True\<close>, and succeeds once the list is used up. A
  send to the limited broadcast address on a socket without
  \<^verbatim>\<open>SO_BROADCAST\<close> is refused, as the network stack does. The address of a
  send is checked before the operating system is asked: a port outside
  0..65535 raises \<open>OverflowError\<close> and consumes no answer. Host names are
  taken as they are; a name that cannot be resolved is one of the failures
  of the operating system.
\<close>

type_synonym address = "string \<times> int"

record udp_socket =
  so_broadcast :: bool
  outbox :: "(bytes \<times> address) list"
  os_faults :: "bool list"

definition os_call :: "udp_socket \<Rightarrow> udp_socket outcome" where
  "os_call s =
     (case os_faults s of
        [] \<Rightarrow> (None, s)
      | f # fs \<Rightarrow> (if f then Some OSError else None, s\<lparr>os_faults := fs\<rparr>))"

definition socket_new :: "bool list \<Rightarrow> udp_socket outcome" where
  "socket_new faults = os_call \<lparr>so_broadcast = False, outbox = [], os_faults = faults\<rparr>"

definition setsockopt_broadcast :: "udp_socket \<Rightarrow> udp_socket outcome" where
  "setsockopt_broadcast s =
     (case os_call s of
        (Some e, s') \<Rightarrow> (Some e, s')
      | (None, s') \<Rightarrow> (None, s'\<lparr>so_broadcast := True\<rparr>))"

definition valid_port :: "int \<Rightarrow> bool" where
  "valid_port p \<longleftrightarrow> 0 \<le> p \<and> p < 65536"

definition limited_broadcast :: string where
  "limited_broadcast = ''255.255.255.255''"

definition sendto :: "bytes \<Rightarrow> address \<Rightarrow> udp_socket \<Rightarrow> udp_socket outcome" where
  "sendto data addr s =
     (if \<not> valid_port (snd addr) then (Some OverflowError, s)
      else if fst addr = limited_broadcast \<and> \<not> so_broadcast s then (Some OSError, s)
      else case os_call s of
        (Some e, s') \<Rightarrow> (Some e, s')
      | (None, s') \<Rightarrow> (None, s'\<lparr>outbox := outbox s' @ [(data, addr)]\<rparr>))"

lemmas socket_defs = os_call_def socket_new_def setsockopt_broadcast_def sendto_def


section \<open>Lemmas\<close>

lemma os_call_frame [simp]:
  "so_broadcast (snd (os_call s)) = so_broadcast s" "outbox (snd (os_call s)) = outbox s"
  by (simp_all add: os_call_def split: list.splits)

lemma os_call_quiet [simp]: "os_faults s = [] \<Longrightarrow> os_call s = (None, s)"
  by (simp add: os_call_def)

lemma os_call_faults: "os_faults (snd (os_call s)) = tl (os_faults s)"
  by (simp add: os_call_def split: list.splits)

lemma os_call_fails_iff: "fst (os_call s) \<noteq> None \<longleftrightarrow> (\<exists>fs. os_faults s = True # fs)"
  by (auto simp: os_call_def split: list.splits)

lemma valid_port_numeral [simp]: "valid_port (numeral n) \<longleftrightarrow> numeral n < (65536 :: int)"
  by (simp add: valid_port_def)

lemma sendto_bad_port [simp]:
  "\<not> valid_port (snd addr) \<Longrightarrow> sendto data addr s = (Some OverflowError, s)"
  by (simp add: sendto_def)

lemma sendto_cases:
  assumes "valid_port (snd addr)"
  obtains (sent) s' where "sendto data addr s = (None, s')"
      "outbox s' = outbox s @ [(data, addr)]" "so_broadcast s' = so_broadcast s"
      "os_faults s' = tl (os_faults s)"
    | (failed) s' where "sendto data addr s = (Some OSError, s')"
      "outbox s' = outbox s" "so_broadcast s' = so_broadcast s"
proof (cases "sendto data addr s")
  case (Pair r s')
  show ?thesis
  proof (cases r)
    case None
    with Pair assms have "outbox s' = outbox s @ [(data, addr)] \<and> so_broadcast s' = so_broadcast s
        \<and> os_faults s' = tl (os_faults s)"
      by (auto simp: socket_defs split: if_splits list.splits)
    with Pair None sent show ?thesis by blast
  next
    case (Some e)
    with Pair assms have "e = OSError \<and> outbox s' = outbox s \<and> so_broadcast s' = so_broadcast s"
      by (auto simp: socket_defs split: if_splits list.splits)
    with Pair Some failed show ?thesis by blast
  qed
qed

lemma sendto_quiet:
  "os_faults s = [] \<Longrightarrow> so_broadcast s \<Longrightarrow> valid_port (snd addr) \<Longrightarrow>
     sendto data addr s = (None, s\<lparr>outbox := outbox s @ [(data, addr)]\<rparr>)"
  by (simp add: sendto_def)

end
