(* ===== verification/ArtNet.thy ===== *)
theory ArtNet
  imports Struct_Pack Udp_Socket
begin

text \<open>
  The datagram sender, class \<^verbatim>\<open>ArtNet\<close> of \<^verbatim>\<open>src/send_umbrella.py\<close> (lines 81 to
  108). The object is the record \<open>artnet\<close> with the attributes the
  constructor sets; \<open>ArtNet_init\<close> is \<^verbatim>\<open>__init__\<close>, \<open>sendrgb\<close> and \<open>sendwa\<close> are
  the two methods. Their common tail, building the datagram and handing it to
  the socket before the sequence counter moves, is \<open>datagram\<close> and
  \<open>transmit\<close>. A method returns the exception it raised, if any, together
  with the object as the exception left it. The constructor stores the
  destination and the port as they are given; the socket checks the port
  when a datagram is sent (\<open>Udp_Socket.sendto\<close>).

  \<open>parse_artdmx\<close> reads a datagram the way a receiver does, following the
  wire format of the specification; \<open>art_inv\<close> and \<open>numbered\<close> are the
  invariants of a session, proved for every object reachable from the
  constructor by calls of the two methods, for a port in 0..65535. A
  session with another port never sends (\<open>bad_port_never_sends\<close>).
\<close>

section \<open>The object and its constructor\<close>

record artnet =
  seq :: int
  dst :: string
  port :: int
  brightness :: int
  controlb :: bool
  sock :: udp_socket
  universe :: int
  hdr :: bytes

definition default_dst :: string where
  "default_dst = ''255.255.255.255''"

definition default_port :: int where
  "default_port = 0x1936"

definition default_brightness :: int where
  "default_brightness = 6"

definition default_controlb :: bool where
  "default_controlb = True"

definition artnet_id :: bytes where
  "artnet_id = map of_char ''Art-Net'' @ [0]"

definition ArtNet_init :: "string \<Rightarrow> int \<Rightarrow> int \<Rightarrow> bool \<Rightarrow> bool list \<Rightarrow> artnet result" where
  "ArtNet_init dst0 port0 brightness0 controlb0 faults =
     (case socket_new faults of
        (Some e, s) \<Rightarrow> Inl e
      | (None, s) \<Rightarrow>
         (case setsockopt_broadcast s of
            (Some e, s') \<Rightarrow> Inl e
          | (None, s') \<Rightarrow>
             rbind (bytearray ([0, 0x50] @ [0, 14])) (\<lambda>version.
               Inr \<lparr>seq = 0, dst = dst0, port = port0, brightness = 8 - brightness0,
                    controlb = controlb0, sock = s', universe = 3,
                    hdr = artnet_id @ version\<rparr>)))"


section \<open>The two send methods\<close>

definition datagram :: "artnet \<Rightarrow> bytes \<Rightarrow> bytes result" where
  "datagram self buf =
     rbind (pack_B (seq self)) (\<lambda>s.
     rbind (pack_H_le (universe self)) (\<lambda>u.
     rbind (pack_H_be (int (length buf))) (\<lambda>l.
       Inr (hdr self @ s @ [0] @ u @ l @ buf))))"

definition transmit :: "bytes \<Rightarrow> artnet \<Rightarrow> artnet outcome" where
  "transmit buf self =
     (case datagram self buf of
        Inl e \<Rightarrow> (Some e, self)
      | Inr d \<Rightarrow>
         (case sendto d (dst self, port self) (sock self) of
            (Some e, s) \<Rightarrow> (Some e, self\<lparr>sock := s\<rparr>)
          | (None, s) \<Rightarrow> (None, self\<lparr>sock := s, seq := (seq self + 1) mod 256\<rparr>)))"

definition sendrgb :: "int \<Rightarrow> int \<Rightarrow> int \<Rightarrow> artnet \<Rightarrow> artnet outcome" where
  "sendrgb r g b self =
     (case bytearray (py_repeat [r, g, b, 0, 0] 12) of
        Inl e \<Rightarrow> (Some e, self)
      | Inr buf \<Rightarrow> transmit buf self)"

definition sendwa :: "int \<Rightarrow> int \<Rightarrow> artnet \<Rightarrow> artnet outcome" where
  "sendwa w a self =
     (case bytearray (py_repeat [0, 0, 0, a, w] 12) of
        Inl e \<Rightarrow> (Some e, self)
      | Inr buf \<Rightarrow> transmit buf self)"

datatype art_op = SendRGB int int int | SendWA int int

fun art_step :: "art_op \<Rightarrow> artnet \<Rightarrow> artnet outcome" where
  "art_step (SendRGB r g b) = sendrgb r g b"
| "art_step (SendWA w a) = sendwa w a"

definition art_run :: "art_op list \<Rightarrow> artnet \<Rightarrow> artnet outcome" where
  "art_run ops = for_each ops art_step"

fun channels :: "art_op \<Rightarrow> int list" where
  "channels (SendRGB r g b) = [r, g, b, 0, 0]"
| "channels (SendWA w a) = [0, 0, 0, a, w]"


section \<open>The wire format, read back\<close>

record artdmx =
  dmx_seq :: int
  dmx_phys :: int
  dmx_universe :: int
  dmx_data :: bytes

definition artnet_hdr :: bytes where
  "artnet_hdr = [0x41, 0x72, 0x74, 0x2D, 0x4E, 0x65, 0x74, 0, 0, 0x50, 0, 14]"

definition parse_artdmx :: "bytes \<Rightarrow> artdmx option" where
  "parse_artdmx d =
     (if length d < 18 \<or> take 12 d \<noteq> artnet_hdr then None
      else case (unpack_B (take 1 (drop 12 d)), unpack_B (take 1 (drop 13 d)),
                 unpack_H_le (take 2 (drop 14 d)), unpack_H_be (take 2 (drop 16 d))) of
        (Some s, Some p, Some u, Some l) \<Rightarrow>
          if l = int (length d) - 18
          then Some \<lparr>dmx_seq = s, dmx_phys = p, dmx_universe = u, dmx_data = drop 18 d\<rparr>
          else None
      | _ \<Rightarrow> None)"


definition payload :: "art_op \<Rightarrow> bytes" where
  "payload op = py_repeat (map word_of_int (channels op)) 12"

definition dmx_frame :: "int \<Rightarrow> bytes \<Rightarrow> bytes" where
  "dmx_frame n p =
     artnet_hdr @ [word_of_int n, 0, 3, 0, word_of_int (int (length p) div 256),
       word_of_int (int (length p) mod 256)] @ p"


fun frames :: "int \<Rightarrow> art_op list \<Rightarrow> bytes list" where
  "frames n [] = []"
| "frames n (op # ops) = dmx_frame n (payload op) # frames ((n + 1) mod 256) ops"

definition sendable :: "art_op \<Rightarrow> bool" where
  "sendable op = list_all in_byte (channels op)"


definition fresh :: "string \<Rightarrow> int \<Rightarrow> int \<Rightarrow> bool \<Rightarrow> artnet" where
  "fresh d p br cb =
     \<lparr>seq = 0, dst = d, port = p, brightness = 8 - br, controlb = cb,
      sock = \<lparr>so_broadcast = True, outbox = [], os_faults = []\<rparr>,
      universe = 3, hdr = artnet_hdr\<rparr>"


section \<open>Invariants of a session\<close>

definition art_inv :: "artnet \<Rightarrow> bool" where
  "art_inv a \<longleftrightarrow>
     in_byte (seq a) \<and> universe a = 3 \<and> hdr a = artnet_hdr \<and> so_broadcast (sock a) \<and>
     valid_port (port a)"

definition frame_ok :: "nat \<Rightarrow> bytes \<Rightarrow> bool" where
  "frame_ok k d =
     (case parse_artdmx d of
        None \<Rightarrow> False
      | Some m \<Rightarrow> dmx_seq m = int k mod 256 \<and> dmx_phys m = 0 \<and> dmx_universe m = 3 \<and>
          length (dmx_data m) = 60)"

definition numbered_from :: "nat \<Rightarrow> address \<Rightarrow> (bytes \<times> address) list \<Rightarrow> bool" where
  "numbered_from n addr out =
     list_all (\<lambda>(k, (d, to)). to = addr \<and> frame_ok k d) (List.enumerate n out)"

definition numbered :: "artnet \<Rightarrow> bool" where
  "numbered a \<longleftrightarrow>
     seq a = int (length (outbox (sock a))) mod 256 \<and>
     numbered_from 0 (dst a, port a) (outbox (sock a))"

inductive reachable :: "artnet \<Rightarrow> bool" where
  init: "valid_port p \<Longrightarrow> ArtNet_init d p br cb faults = Inr a \<Longrightarrow> reachable a"
| step: "reachable a \<Longrightarrow> art_step op a = (r, a') \<Longrightarrow> reachable a'"

lemmas send_defs = sendrgb_def sendwa_def transmit_def datagram_def


section \<open>The header\<close>

lemma valid_default_port [simp]: "valid_port default_port"
  by (simp add: default_port_def)

lemma artnet_id_eq: "artnet_id = [0x41, 0x72, 0x74, 0x2D, 0x4E, 0x65, 0x74, 0]"
  by (simp add: artnet_id_def)

lemma version_bytes: "bytearray ([0, 0x50] @ [0, 14]) = Inr [0, 0x50, 0, 14]"
  by (simp add: bytearray_def)

lemma length_artnet_hdr [simp]: "length artnet_hdr = 12"
  by (simp add: artnet_hdr_def)


lemma length_dmx_frame [simp, len_simps]: "length (dmx_frame n p) = 18 + length p"
  by (simp add: dmx_frame_def)

lemma length_payload [simp, len_simps]: "length (payload op) = 60"
  by (cases op) (simp_all add: payload_def)


section \<open>The constructor\<close>

lemma ArtNet_init_eq_Inr_iff [result_iffs]:
  "ArtNet_init d p br cb faults = Inr a \<longleftrightarrow>
     True \<notin> set (take 2 faults) \<and>
     a = \<lparr>seq = 0, dst = d, port = p, brightness = 8 - br, controlb = cb,
          sock = \<lparr>so_broadcast = True, outbox = [], os_faults = drop 2 faults\<rparr>,
          universe = 3, hdr = artnet_hdr\<rparr>"
proof (cases faults)
  case Nil
  then show ?thesis
    by (auto simp: ArtNet_init_def socket_defs version_bytes artnet_id_eq artnet_hdr_def)
next
  case (Cons f fs)
  then show ?thesis
    by (cases fs)
      (auto simp: ArtNet_init_def socket_defs version_bytes artnet_id_eq artnet_hdr_def)
qed

lemma ArtNet_init_eq_Inl_iff [result_iffs]:
  "ArtNet_init d p br cb faults = Inl e \<longleftrightarrow> True \<in> set (take 2 faults) \<and> e = OSError"
proof (cases faults)
  case Nil
  then show ?thesis
    by (auto simp: ArtNet_init_def socket_defs version_bytes)
next
  case (Cons f fs)
  then show ?thesis
    by (cases fs) (auto simp: ArtNet_init_def socket_defs version_bytes)
qed


section \<open>Building and reading a datagram\<close>

lemma datagram_eq:
  assumes "in_byte (seq a)" "universe a = 3" "hdr a = artnet_hdr" "length buf < 65536"
  shows "datagram a buf = Inr (dmx_frame (seq a) buf)"
  using assms by (simp add: datagram_def dmx_frame_def)

lemma datagram_inv: "art_inv a \<Longrightarrow> length buf < 65536 \<Longrightarrow> datagram a buf = Inr (dmx_frame (seq a) buf)"
  by (simp add: art_inv_def datagram_eq)

lemma parse_datagram:
  assumes "datagram a buf = Inr d" "hdr a = artnet_hdr"
  shows "parse_artdmx d =
     Some \<lparr>dmx_seq = seq a, dmx_phys = 0, dmx_universe = universe a, dmx_data = buf\<rparr>"
proof -
  from assms(1) obtain s u l where
    s: "pack_B (seq a) = Inr s" and u: "pack_H_le (universe a) = Inr u"
    and l: "pack_H_be (int (length buf)) = Inr l" and d: "d = hdr a @ s @ [0] @ u @ l @ buf"
    by (auto simp: datagram_def rbind_eq_Inr_iff)
  note len = length_pack(1) [OF s] length_pack(2) [OF u] length_pack(3) [OF l]
  have "take 12 d = artnet_hdr" "take 1 (drop 12 d) = s" "take 1 (drop 13 d) = [0]"
    "take 2 (drop 14 d) = u" "take 2 (drop 16 d) = l" "drop 18 d = buf" "length d = 18 + length buf"
    using len by (simp_all add: d assms(2))
  then show ?thesis
    by (simp add: parse_artdmx_def unpack_pack_B [OF s] unpack_pack_H_le [OF u]
        unpack_pack_H_be [OF l])
qed

lemma parse_dmx_frame:
  "in_byte n \<Longrightarrow> length p < 65536 \<Longrightarrow>
     parse_artdmx (dmx_frame n p) =
       Some \<lparr>dmx_seq = n, dmx_phys = 0, dmx_universe = 3, dmx_data = p\<rparr>"
  using parse_datagram [of "\<lparr>seq = n, dst = [], port = 0, brightness = 0, controlb = False,
      sock = \<lparr>so_broadcast = False, outbox = [], os_faults = []\<rparr>, universe = 3,
      hdr = artnet_hdr\<rparr>" p "dmx_frame n p"]
  by (simp add: datagram_eq)


section \<open>One call of a send method\<close>

lemma channels_payload:
  "bytearray (py_repeat (channels op) 12) =
     (if list_all in_byte (channels op) then Inr (payload op) else Inl ValueError)"
  by (simp add: bytearray_py_repeat payload_def)

lemma art_step_unfold:
  "art_step op a =
     (case bytearray (py_repeat (channels op) 12) of
        Inl e \<Rightarrow> (Some e, a)
      | Inr buf \<Rightarrow> transmit buf a)"
  by (cases op) (simp_all add: sendrgb_def sendwa_def)

lemma art_step_eq:
  assumes "art_inv a"
  shows "art_step op a =
     (if \<not> list_all in_byte (channels op) then (Some ValueError, a)
      else case sendto (dmx_frame (seq a) (payload op)) (dst a, port a) (sock a) of
          (Some e, s) \<Rightarrow> (Some e, a\<lparr>sock := s\<rparr>)
        | (None, s) \<Rightarrow> (None, a\<lparr>sock := s, seq := (seq a + 1) mod 256\<rparr>))"
  using assms by (simp add: art_step_unfold channels_payload transmit_def datagram_inv)

lemma art_step_bad_port:
  assumes "in_byte (seq a)" "universe a = 3" "hdr a = artnet_hdr" "\<not> valid_port (port a)"
  shows "art_step op a = (Some (if sendable op then OverflowError else ValueError), a)"
  using assms
  by (simp add: art_step_unfold channels_payload sendable_def transmit_def datagram_eq)

lemma art_step_cases:
  assumes "art_inv a"
  obtains (rejected) "\<not> list_all in_byte (channels op)" "art_step op a = (Some ValueError, a)"
    | (sent) s where "list_all in_byte (channels op)"
        "art_step op a = (None, a\<lparr>sock := s, seq := (seq a + 1) mod 256\<rparr>)"
        "outbox s = outbox (sock a) @ [(dmx_frame (seq a) (payload op), (dst a, port a))]"
        "so_broadcast s" "os_faults s = tl (os_faults (sock a))"
    | (failed) s where "list_all in_byte (channels op)"
        "art_step op a = (Some OSError, a\<lparr>sock := s\<rparr>)"
        "outbox s = outbox (sock a)" "so_broadcast s"
proof (cases "list_all in_byte (channels op)")
  case False
  with assms rejected show ?thesis
    by (simp add: art_step_eq)
next
  case True
  from assms have bc: "so_broadcast (sock a)" and vp: "valid_port (snd (dst a, port a))"
    by (simp_all add: art_inv_def)
  from vp show ?thesis
  proof (cases rule: sendto_cases [where data = "dmx_frame (seq a) (payload op)" and s = "sock a"])
    case (sent s)
    with assms True bc show ?thesis
      by (intro that(2) [of s]) (simp_all add: art_step_eq)
  next
    case (failed s)
    with assms True bc show ?thesis
      by (intro that(3) [of s]) (simp_all add: art_step_eq)
  qed
qed

lemma art_step_frame:
  assumes "art_step op a = (r, a')"
  shows "dst a' = dst a" "port a' = port a" "universe a' = universe a" "hdr a' = hdr a"
    "brightness a' = brightness a" "controlb a' = controlb a"
  using assms
  by (auto simp: art_step_unfold transmit_def split: sum.splits prod.splits option.splits)

lemma art_step_inv:
  assumes "art_inv a" "art_step op a = (r, a')"
  shows "art_inv a'"
  using assms(1)
proof (cases rule: art_step_cases [where op = op])
  case rejected
  with assms show ?thesis by simp
next
  case (sent s)
  with assms show ?thesis by (auto simp: art_inv_def in_byte_def)
next
  case (failed s)
  with assms show ?thesis by (auto simp: art_inv_def)
qed


lemma art_step_ok:
  assumes "art_inv a" "art_step op a = (None, a')"
  shows "art_inv a'" "seq a' = (seq a + 1) mod 256" "dst a' = dst a" "port a' = port a"
    "outbox (sock a') = outbox (sock a) @ [(dmx_frame (seq a) (payload op), (dst a, port a))]"
  using assms(1)
  by (cases rule: art_step_cases [where op = op]; use assms in \<open>auto intro: art_step_inv\<close>)+

lemma art_step_err:
  assumes "art_inv a" "art_step op a = (Some e, a')"
  shows "outbox (sock a') = outbox (sock a)" "dst a' = dst a" "port a' = port a"
  using assms(1)
  by (cases rule: art_step_cases [where op = op]; use assms in auto)+


section \<open>Numbered datagrams\<close>

lemma numbered_from_Nil [simp]: "numbered_from n addr []"
  by (simp add: numbered_from_def)

lemma numbered_from_snoc:
  "numbered_from n addr (out @ [(d, to)]) \<longleftrightarrow>
     numbered_from n addr out \<and> to = addr \<and> frame_ok (n + length out) d"
  by (auto simp: numbered_from_def enumerate_append_eq)

lemma numbered_from_nth:
  assumes "numbered_from n addr out" "k < length out"
  shows "snd (out ! k) = addr \<and> frame_ok (n + k) (fst (out ! k))"
proof -
  have "(n + k, out ! k) \<in> set (List.enumerate n out)"
    using assms(2) by (metis length_enumerate nth_enumerate_eq nth_mem)
  with assms(1) show ?thesis
    by (cases "out ! k") (auto simp: numbered_from_def list_all_iff)
qed

lemma frame_ok_dmx_frame:
  "in_byte s \<Longrightarrow> length p = 60 \<Longrightarrow> int k mod 256 = s \<Longrightarrow> frame_ok k (dmx_frame s p)"
  by (simp add: frame_ok_def parse_dmx_frame)

lemma art_step_numbered:
  assumes "art_inv a" "numbered a" "art_step op a = (r, a')"
  shows "numbered a'"
  using assms(1)
proof (cases rule: art_step_cases [where op = op])
  case rejected
  with assms show ?thesis by simp
next
  case (sent s)
  from assms(1,2) have old: "in_byte (seq a)" "int (length (outbox (sock a))) mod 256 = seq a"
    by (simp_all add: art_inv_def numbered_def)
  have "(seq a + 1) mod 256 = (1 + int (length (outbox (sock a)))) mod 256"
    unfolding old(2) [symmetric] by presburger
  with old sent assms(2,3) show ?thesis
    by (simp add: numbered_def numbered_from_snoc frame_ok_dmx_frame)
next
  case (failed s)
  with assms show ?thesis by (auto simp: numbered_def)
qed

lemma init_inv:
  "valid_port p \<Longrightarrow> ArtNet_init d p br cb faults = Inr a \<Longrightarrow> art_inv a \<and> numbered a"
  by (auto simp: ArtNet_init_eq_Inr_iff art_inv_def numbered_def)

lemma reachable_inv: "reachable a \<Longrightarrow> art_inv a \<and> numbered a"
proof (induction rule: reachable.induct)
  case (init p d br cb faults a)
  then show ?case by (rule init_inv)
next
  case (step a op r a')
  then show ?case by (blast intro: art_step_inv art_step_numbered)
qed


section \<open>Runs of send calls\<close>

lemma art_run_Nil [simp]: "art_run [] a = (None, a)"
  by (simp add: art_run_def)

lemma art_run_Cons:
  "art_run (op # ops) a =
     (case art_step op a of (None, a') \<Rightarrow> art_run ops a' | (Some e, a') \<Rightarrow> (Some e, a'))"
  unfolding art_run_def by (simp add: and_then_def)

lemma length_frames [simp, len_simps]: "length (frames n ops) = length ops"
  by (induction ops arbitrary: n) simp_all

lemma in_byte_mod [simp]: "in_byte (x mod 256)"
  by (simp add: in_byte_def)

lemma mod_in_byte [simp]: "in_byte x \<Longrightarrow> x mod 256 = x"
  by (simp add: in_byte_def)

lemma frames_append:
  "in_byte n \<Longrightarrow>
     frames n (xs @ ys) = frames n xs @ frames ((n + int (length xs)) mod 256) ys"
proof (induction xs arbitrary: n)
  case Nil
  then show ?case by simp
next
  case (Cons x xs)
  have "((n + 1) mod 256 + int (length xs)) mod 256 = (n + (1 + int (length xs))) mod 256"
    by presburger
  with Cons.IH [of "(n + 1) mod 256"] show ?case by simp
qed

lemma nth_frames:
  "in_byte n \<Longrightarrow> k < length ops \<Longrightarrow>
     frames n ops ! k = dmx_frame ((n + int k) mod 256) (payload (ops ! k))"
proof (induction ops arbitrary: n k)
  case Nil
  then show ?case by simp
next
  case (Cons op ops)
  show ?case
  proof (cases k)
    case 0
    with Cons.prems show ?thesis by simp
  next
    case (Suc j)
    have "((n + 1) mod 256 + int j) mod 256 = (n + (1 + int j)) mod 256"
      by presburger
    with Suc Cons.prems Cons.IH [of "(n + 1) mod 256" j] show ?thesis by simp
  qed
qed

lemma art_run_reachable: "reachable a \<Longrightarrow> art_run ops a = (r, a') \<Longrightarrow> reachable a'"
proof (induction ops arbitrary: a)
  case Nil
  then show ?case by simp
next
  case (Cons op ops)
  obtain r1 a1 where s: "art_step op a = (r1, a1)"
    by (cases "art_step op a")
  with Cons.prems(1) have "reachable a1"
    by (rule reachable.step)
  with Cons s show ?case
    by (cases r1) (auto simp: art_run_Cons)
qed

lemma art_step_failed_faults:
  assumes "art_inv a" "art_step op a = (Some OSError, a')"
  shows "os_faults (sock a) = True # os_faults (sock a')"
  using assms
  by (auto simp: art_step_eq art_inv_def sendto_def os_call_def
      split: if_splits list.splits prod.splits option.splits)

text \<open>
  Induction over a run of calls from a state that satisfies the invariant:
  the run is over, the first call is rejected for an argument, the socket
  fails on the first call, or the first call sends and the run goes on from
  the state it leaves.
\<close>

lemma art_run_induct [consumes 1, case_names Nil rejected failed sent]:
  assumes "art_inv a"
    and "\<And>a. art_inv a \<Longrightarrow> P [] a"
    and "\<And>op ops a. art_inv a \<Longrightarrow> \<not> sendable op \<Longrightarrow>
           art_run (op # ops) a = (Some ValueError, a) \<Longrightarrow> P (op # ops) a"
    and "\<And>op ops a s. art_inv a \<Longrightarrow> sendable op \<Longrightarrow>
           art_run (op # ops) a = (Some OSError, a\<lparr>sock := s\<rparr>) \<Longrightarrow>
           outbox s = outbox (sock a) \<Longrightarrow> os_faults (sock a) = True # os_faults s \<Longrightarrow>
           P (op # ops) a"
    and "\<And>op ops a s. art_inv a \<Longrightarrow> sendable op \<Longrightarrow>
           art_inv (a\<lparr>sock := s, seq := (seq a + 1) mod 256\<rparr>) \<Longrightarrow>
           art_run (op # ops) a = art_run ops (a\<lparr>sock := s, seq := (seq a + 1) mod 256\<rparr>) \<Longrightarrow>
           outbox s = outbox (sock a) @ [(dmx_frame (seq a) (payload op), (dst a, port a))] \<Longrightarrow>
           os_faults s = tl (os_faults (sock a)) \<Longrightarrow>
           P ops (a\<lparr>sock := s, seq := (seq a + 1) mod 256\<rparr>) \<Longrightarrow> P (op # ops) a"
  shows "P ops a"
  using assms(1)
proof (induction ops arbitrary: a)
  case Nil
  then show ?case by (rule assms(2))
next
  case (Cons op ops)
  from Cons.prems show ?case
  proof (cases rule: art_step_cases [where op = op])
    case rejected
    with Cons.prems show ?thesis
      by (intro assms(3)) (simp_all add: sendable_def art_run_Cons)
  next
    case (failed s)
    with Cons.prems art_step_failed_faults [OF Cons.prems failed(2)] show ?thesis
      by (intro assms(4) [of _ _ _ s]) (simp_all add: sendable_def art_run_Cons)
  next
    case (sent s)
    with Cons.prems have "art_inv (a\<lparr>sock := s, seq := (seq a + 1) mod 256\<rparr>)"
      by (auto intro: art_step_inv)
    with Cons.prems sent Cons.IH show ?thesis
      by (intro assms(5) [of _ _ s]) (simp_all add: sendable_def art_run_Cons)
  qed
qed

lemma art_run_prefix:
  assumes "art_inv a" "art_run ops a = (r, a')"
  shows "\<exists>k\<le>length ops.
     outbox (sock a') =
       outbox (sock a) @ map (\<lambda>d. (d, dst a, port a)) (frames (seq a) (take k ops)) \<and>
     seq a' = (seq a + int k) mod 256 \<and> (r = None \<longleftrightarrow> k = length ops)"
  using assms
proof (induction ops a rule: art_run_induct)
  case (sent op ops a s)
  then obtain k where k: "k \<le> length ops"
    "outbox (sock a') = outbox s @ map (\<lambda>d. (d, dst a, port a))
         (frames ((seq a + 1) mod 256) (take k ops))"
    "seq a' = ((seq a + 1) mod 256 + int k) mod 256" "r = None \<longleftrightarrow> k = length ops"
    by auto
  have "((seq a + 1) mod 256 + int k) mod 256 = (seq a + int (Suc k)) mod 256"
    by (simp add: mod_simps add.assoc)
  with k sent(5) show ?case
    by (intro exI [of _ "Suc k"]) simp
qed (auto simp: art_inv_def intro!: exI [of _ 0])

lemma art_run_quiet:
  assumes "art_inv a" "os_faults (sock a) = []" "list_all sendable ops"
  shows "fst (art_run ops a) = None"
  using assms by (induction ops a rule: art_run_induct) simp_all

lemma take_frames: "take k (frames n ops) = frames n (take k ops)"
proof (induction ops arbitrary: n k)
  case Nil
  show ?case by simp
next
  case (Cons op ops)
  then show ?case by (cases k) simp_all
qed

lemma art_run_error:
  assumes "art_inv a" "list_all sendable ops" "art_run ops a = (Some e, a')"
  shows "e = OSError"
  using assms by (induction ops a rule: art_run_induct) simp_all

section \<open>A session to test with\<close>

lemma fresh_session: "ArtNet_init d p br cb [] = Inr (fresh d p br cb)"
  by (simp add: ArtNet_init_eq_Inr_iff fresh_def)

lemma fresh_reachable: "valid_port p \<Longrightarrow> reachable (fresh d p br cb)"
  by (rule reachable.init [OF _ fresh_session])

lemma fresh_simps [simp]:
  "seq (fresh d p br cb) = 0" "dst (fresh d p br cb) = d" "port (fresh d p br cb) = p"
  "outbox (sock (fresh d p br cb)) = []" "os_faults (sock (fresh d p br cb)) = []"
  "art_inv (fresh d p br cb) \<longleftrightarrow> valid_port p"
  by (simp_all add: fresh_def art_inv_def)

lemma art_step_sends:
  assumes "art_inv a" "sendable op" "os_faults (sock a) = []"
  shows "art_step op a =
     (None, a\<lparr>sock := (sock a)\<lparr>outbox := outbox (sock a) @
         [(dmx_frame (seq a) (payload op), dst a, port a)]\<rparr>,
       seq := (seq a + 1) mod 256\<rparr>)"
  using assms by (simp add: art_step_eq sendable_def sendto_quiet art_inv_def)

lemma dmx_frame_60:
  "length p = 60 \<Longrightarrow> dmx_frame n p = artnet_hdr @ [word_of_int n, 0, 3, 0, 0, 60] @ p"
  by (simp add: dmx_frame_def)


section \<open>Properties\<close>

text \<open>
  Claim C1 (safety). Every datagram a session has handed to the network is a
  well-formed frame: it went to the session's destination, it parses under
  the wire format, it carries 60 data bytes for universe 3 on physical port
  0, and the datagram number \<open>k\<close> of the session carries the sequence number
  \<open>k mod 256\<close>, so that sequence numbers have no gaps and no repeats. The
  sessions are those created with a port in 0..65535; any other session has
  sent nothing.
\<close>

theorem reachable_datagrams_numbered:
  assumes "reachable a" "k < length (outbox (sock a))"
  shows "snd (outbox (sock a) ! k) = (dst a, port a) \<and>
     (\<exists>p. parse_artdmx (fst (outbox (sock a) ! k)) =
        Some \<lparr>dmx_seq = int k mod 256, dmx_phys = 0, dmx_universe = 3, dmx_data = p\<rparr> \<and>
        length p = 60)"
proof -
  from assms(1) have "numbered_from 0 (dst a, port a) (outbox (sock a))"
    using reachable_inv by (auto simp: numbered_def)
  from numbered_from_nth [OF this assms(2)]
  have to: "snd (outbox (sock a) ! k) = (dst a, port a)"
    and ok: "frame_ok k (fst (outbox (sock a) ! k))"
    by simp_all
  from ok obtain m where m: "parse_artdmx (fst (outbox (sock a) ! k)) = Some m"
    "dmx_seq m = int k mod 256" "dmx_phys m = 0" "dmx_universe m = 3" "length (dmx_data m) = 60"
    by (auto simp: frame_ok_def split: option.splits)
  then have "m = \<lparr>dmx_seq = int k mod 256, dmx_phys = 0, dmx_universe = 3, dmx_data = dmx_data m\<rparr>"
    by (cases m) simp
  with m to show ?thesis by metis
qed

theorem reachable_datagrams_numbered_witness:
  "reachable (snd (art_step (SendRGB 1 2 3) (fresh ''10.20.255.255'' 6454 6 False))) \<and>
   0 < length (outbox (sock (snd (art_step (SendRGB 1 2 3) (fresh ''10.20.255.255'' 6454 6 False))))) \<and>
   snd (outbox (sock (snd (art_step (SendRGB 1 2 3) (fresh ''10.20.255.255'' 6454 6 False)))) ! 0) =
     (''10.20.255.255'', 6454) \<and>
   (\<exists>p. parse_artdmx
      (fst (outbox (sock (snd (art_step (SendRGB 1 2 3) (fresh ''10.20.255.255'' 6454 6 False)))) ! 0)) =
        Some \<lparr>dmx_seq = 0, dmx_phys = 0, dmx_universe = 3, dmx_data = p\<rparr> \<and> length p = 60)"
proof -
  let ?a = "snd (art_step (SendRGB 1 2 3) (fresh ''10.20.255.255'' 6454 6 False))"
  have "reachable (fresh ''10.20.255.255'' 6454 6 False)"
    by (simp add: fresh_reachable)
  then have r: "reachable ?a"
    by (rule reachable.step) (rule prod.collapse [symmetric])
  have l: "0 < length (outbox (sock ?a))" "dst ?a = ''10.20.255.255''" "port ?a = 6454"
    using art_step_sends [of "fresh ''10.20.255.255'' 6454 6 False" "SendRGB 1 2 3"]
    by (simp_all add: sendable_def)
  from reachable_datagrams_numbered [OF r l(1)] r l show ?thesis
    by simp
qed

text \<open>
  Claim C20 (invariant). In every state a session can reach, the sequence
  counter is a byte and equals the number of datagrams sent so far modulo
  256; the universe is 3, the header is the fixed 12 bytes, and the socket
  has the broadcast flag set.
\<close>

theorem reachable_session_invariant:
  "reachable a \<Longrightarrow> art_inv a \<and> seq a = int (length (outbox (sock a))) mod 256"
  using reachable_inv by (auto simp: numbered_def)

theorem reachable_session_invariant_witness:
  "reachable (fresh ''10.20.255.255'' 6454 6 False) \<and>
   art_inv (fresh ''10.20.255.255'' 6454 6 False) \<and>
   seq (fresh ''10.20.255.255'' 6454 6 False) =
     int (length (outbox (sock (fresh ''10.20.255.255'' 6454 6 False)))) mod 256"
  using reachable_session_invariant [OF fresh_reachable, of 6454 "''10.20.255.255''" 6 False]
    fresh_reachable [of 6454 "''10.20.255.255''" 6 False]
  by simp

text \<open>
  Claim C4 (functional). \<^verbatim>\<open>sendrgb(r, g, b)\<close> with byte-sized arguments on a
  working network hands exactly one datagram to the socket: the 12 header
  bytes, the sequence number, 0, the universe 3 little-endian, the length 60
  big-endian, and \<open>[r, g, b, 0, 0]\<close> twelve times; then the sequence counter
  is incremented modulo 256.
\<close>

theorem sendrgb_sends:
  assumes "art_inv a" "in_byte r" "in_byte g" "in_byte b" "os_faults (sock a) = []"
  shows "sendrgb r g b a =
     (None, a\<lparr>sock := (sock a)\<lparr>outbox := outbox (sock a) @
         [(artnet_hdr @ [word_of_int (seq a), 0, 3, 0, 0, 60] @
             py_repeat [word_of_int r, word_of_int g, word_of_int b, 0, 0] 12,
           dst a, port a)]\<rparr>,
       seq := (seq a + 1) mod 256\<rparr>)"
  using art_step_sends [of a "SendRGB r g b"] assms
  by (simp add: sendable_def dmx_frame_60 payload_def)

theorem sendrgb_sends_witness:
  "art_inv (fresh ''h'' 6454 6 True) \<and> in_byte 10 \<and> in_byte 20 \<and> in_byte 30 \<and>
   os_faults (sock (fresh ''h'' 6454 6 True)) = [] \<and>
   sendrgb 10 20 30 (fresh ''h'' 6454 6 True) =
     (None, (fresh ''h'' 6454 6 True)\<lparr>sock := (sock (fresh ''h'' 6454 6 True))\<lparr>outbox :=
         [(artnet_hdr @ [0, 0, 3, 0, 0, 60] @ py_repeat [10, 20, 30, 0, 0] 12, ''h'', 6454)]\<rparr>,
       seq := 1\<rparr>)"
  using sendrgb_sends [of "fresh ''h'' 6454 6 True" 10 20 30] by simp

text \<open>
  Claim C19 (functional). \<^verbatim>\<open>sendwa(w, a)\<close> sends the same frame with the data
  \<open>[0, 0, 0, a, w]\<close> twelve times: the second argument is the fourth channel
  of each fixture and the first argument the fifth.
\<close>

theorem sendwa_sends:
  assumes "art_inv s" "in_byte w" "in_byte a" "os_faults (sock s) = []"
  shows "sendwa w a s =
     (None, s\<lparr>sock := (sock s)\<lparr>outbox := outbox (sock s) @
         [(artnet_hdr @ [word_of_int (seq s), 0, 3, 0, 0, 60] @
             py_repeat [0, 0, 0, word_of_int a, word_of_int w] 12,
           dst s, port s)]\<rparr>,
       seq := (seq s + 1) mod 256\<rparr>)"
  using art_step_sends [of s "SendWA w a"] assms
  by (simp add: sendable_def dmx_frame_60 payload_def)

theorem sendwa_sends_witness:
  "art_inv (fresh ''h'' 6454 6 True) \<and> in_byte 5 \<and> in_byte 9 \<and>
   os_faults (sock (fresh ''h'' 6454 6 True)) = [] \<and>
   sendwa 5 9 (fresh ''h'' 6454 6 True) =
     (None, (fresh ''h'' 6454 6 True)\<lparr>sock := (sock (fresh ''h'' 6454 6 True))\<lparr>outbox :=
         [(artnet_hdr @ [0, 0, 3, 0, 0, 60] @ py_repeat [0, 0, 0, 9, 5] 12, ''h'', 6454)]\<rparr>,
       seq := 1\<rparr>)"
  using sendwa_sends [of "fresh ''h'' 6454 6 True" 5 9] by simp

text \<open>
  Claim C6 (functional). After a run of \<open>n\<close> send calls that all succeed, the
  sequence counter has advanced by \<open>n\<close> modulo 256 and the datagrams sent are
  the frames of the calls, numbered from the counter's old value; after 256
  calls the counter is back at its old value.
\<close>

theorem art_run_counts:
  assumes "art_inv a" "art_run ops a = (None, a')"
  shows "seq a' = (seq a + int (length ops)) mod 256 \<and>
     map fst (outbox (sock a')) = map fst (outbox (sock a)) @ frames (seq a) ops \<and>
     (length ops = 256 \<longrightarrow> seq a' = seq a)"
proof -
  from art_run_prefix [OF assms] have
    "outbox (sock a') = outbox (sock a) @ map (\<lambda>d. (d, dst a, port a)) (frames (seq a) ops)"
    "seq a' = (seq a + int (length ops)) mod 256"
    by auto
  moreover from assms(1) have "in_byte (seq a)"
    by (simp add: art_inv_def)
  ultimately show ?thesis
    by (simp add: comp_def)
qed

theorem art_run_counts_witness:
  "art_inv (fresh ''h'' 6454 6 True) \<and>
   art_run [SendRGB 1 2 3, SendWA 4 5] (fresh ''h'' 6454 6 True) =
     (None, snd (art_run [SendRGB 1 2 3, SendWA 4 5] (fresh ''h'' 6454 6 True))) \<and>
   seq (snd (art_run [SendRGB 1 2 3, SendWA 4 5] (fresh ''h'' 6454 6 True))) = 2 \<and>
   map fst (outbox (sock (snd (art_run [SendRGB 1 2 3, SendWA 4 5] (fresh ''h'' 6454 6 True))))) =
     [dmx_frame 0 (payload (SendRGB 1 2 3)), dmx_frame 1 (payload (SendWA 4 5))]"
proof -
  let ?ops = "[SendRGB 1 2 3, SendWA 4 5]" and ?a = "fresh ''h'' 6454 6 True"
  have "fst (art_run ?ops ?a) = None"
    by (rule art_run_quiet) (simp_all add: sendable_def)
  then have run: "art_run ?ops ?a = (None, snd (art_run ?ops ?a))"
    by (metis prod.collapse)
  from art_run_counts [OF _ run] run show ?thesis
    by simp
qed

text \<open>
  Claim C7 (error). A send call that raises leaves the session as it was:
  either an argument is not a byte, the exception is \<^verbatim>\<open>ValueError\<close> and the
  object is unchanged, or the socket refused the datagram, the exception is
  \<^verbatim>\<open>OSError\<close>, and neither the sequence counter nor the list of sent
  datagrams has changed. No other exception can occur.
\<close>

theorem send_failure_atomic:
  assumes "art_inv a" "art_step op a = (Some e, a')"
  shows "(e = ValueError \<and> \<not> sendable op \<and> a' = a) \<or>
     (e = OSError \<and> sendable op \<and> seq a' = seq a \<and>
      outbox (sock a') = outbox (sock a) \<and> art_inv a')"
  using assms(1)
proof (cases rule: art_step_cases [where op = op])
  case rejected
  with assms show ?thesis by (simp add: sendable_def)
next
  case (sent s)
  with assms show ?thesis by simp
next
  case (failed s)
  with assms show ?thesis by (auto simp: sendable_def art_inv_def)
qed

theorem send_failure_atomic_witness:
  "art_inv (fresh ''h'' 6454 6 True) \<and>
   art_step (SendRGB 256 0 0) (fresh ''h'' 6454 6 True) = (Some ValueError, fresh ''h'' 6454 6 True) \<and>
   ((ValueError = ValueError \<and> \<not> sendable (SendRGB 256 0 0) \<and>
       fresh ''h'' 6454 6 True = fresh ''h'' 6454 6 True) \<or>
    (ValueError = OSError \<and> sendable (SendRGB 256 0 0) \<and>
       seq (fresh ''h'' 6454 6 True) = seq (fresh ''h'' 6454 6 True) \<and>
       outbox (sock (fresh ''h'' 6454 6 True)) = outbox (sock (fresh ''h'' 6454 6 True)) \<and>
       art_inv (fresh ''h'' 6454 6 True)))"
proof -
  have "art_step (SendRGB 256 0 0) (fresh ''h'' 6454 6 True) = (Some ValueError, fresh ''h'' 6454 6 True)"
    using art_step_eq [of "fresh ''h'' 6454 6 True" "SendRGB 256 0 0"] by simp
  from send_failure_atomic [OF _ this] this show ?thesis
    by simp
qed

text \<open>
  Claim C16 (roundtrip). A receiver that reads a datagram built by the sender
  under the wire format gets back the sequence number, physical port 0, the
  universe and the data bytes that went in; the datagram is 18 bytes longer
  than its data.
\<close>

theorem datagram_roundtrip:
  assumes "art_inv a" "length buf < 65536"
  shows "\<exists>d. datagram a buf = Inr d \<and> length d = 18 + length buf \<and>
     parse_artdmx d = Some \<lparr>dmx_seq = seq a, dmx_phys = 0, dmx_universe = 3, dmx_data = buf\<rparr>"
  using assms parse_datagram [of a buf "dmx_frame (seq a) buf"]
  by (simp add: datagram_inv art_inv_def)

theorem datagram_roundtrip_witness:
  "art_inv (fresh ''h'' 6454 6 True) \<and> length [1, 2, 3 :: byte] < 65536 \<and>
   (\<exists>d. datagram (fresh ''h'' 6454 6 True) [1, 2, 3] = Inr d \<and> length d = 18 + length [1, 2, 3 :: byte] \<and>
     parse_artdmx d = Some \<lparr>dmx_seq = 0, dmx_phys = 0, dmx_universe = 3, dmx_data = [1, 2, 3]\<rparr>)"
  using datagram_roundtrip [of "fresh ''h'' 6454 6 True" "[1, 2, 3]"] by simp


text \<open>
  Claim C27 (error). The constructor accepts every port number, and a session
  made with a port outside 0..65535 never sends: a call with byte arguments
  raises \<^verbatim>\<open>OverflowError\<close> from the socket before the operating system is
  asked, a call with another argument raises \<^verbatim>\<open>ValueError\<close>, the object is
  left as it was, and a run of calls ends at the first of them.
\<close>

theorem bad_port_never_sends:
  assumes "ArtNet_init d p br cb faults = Inr a" "\<not> valid_port p"
  shows "art_step op a = (Some (if sendable op then OverflowError else ValueError), a) \<and>
     art_run (op # ops) a = (Some (if sendable op then OverflowError else ValueError), a) \<and>
     outbox (sock a) = []"
proof -
  from assms have "art_step op a = (Some (if sendable op then OverflowError else ValueError), a)"
    by (intro art_step_bad_port) (auto simp: ArtNet_init_eq_Inr_iff)
  with assms(1) show ?thesis
    by (auto simp: art_run_Cons ArtNet_init_eq_Inr_iff)
qed

theorem bad_port_never_sends_witness:
  "ArtNet_init ''10.20.255.255'' 70000 6 False [] = Inr (fresh ''10.20.255.255'' 70000 6 False) \<and>
   \<not> valid_port 70000 \<and>
   art_step (SendRGB 255 255 255) (fresh ''10.20.255.255'' 70000 6 False) =
     (Some OverflowError, fresh ''10.20.255.255'' 70000 6 False) \<and>
   art_run [SendRGB 255 255 255, SendWA 0 0] (fresh ''10.20.255.255'' 70000 6 False) =
     (Some OverflowError, fresh ''10.20.255.255'' 70000 6 False)"
  using bad_port_never_sends [OF fresh_session, of 70000 "SendRGB 255 255 255"
      "''10.20.255.255''" 6 False "[SendWA 0 0]"]
  by (simp add: fresh_session sendable_def)

text \<open>
  Claim C26 (functional). The constructor fails with \<^verbatim>\<open>OSError\<close> when creating
  the socket or setting the broadcast flag fails, and otherwise returns a
  session with sequence counter 0, universe 3, brightness \<open>8 - brightness\<close>,
  the broadcast flag set, nothing sent, and the 12 header bytes
  \<^verbatim>\<open>Art-Net\<close>, 0, 0, 0x50, 0, 14.
\<close>

theorem ArtNet_init_spec:
  "ArtNet_init d p br cb faults =
     (if True \<in> set (take 2 faults) then Inl OSError
      else Inr \<lparr>seq = 0, dst = d, port = p, brightness = 8 - br, controlb = cb,
          sock = \<lparr>so_broadcast = True, outbox = [], os_faults = drop 2 faults\<rparr>,
          universe = 3, hdr = map of_char ''Art-Net'' @ [0, 0, 0x50, 0, 14]\<rparr>)"
  by (simp add: ArtNet_init_eq_Inr_iff ArtNet_init_eq_Inl_iff artnet_hdr_def)

end
