(* ===== verification/Sender_Spec.thy ===== *)
theory Sender_Spec
  imports ArtNet
begin

text \<open>
  The contract of the datagram sender of \<^verbatim>\<open>src/send_umbrella.py\<close> (class
  \<^verbatim>\<open>ArtNet\<close>), and the proof that the methods implement it.

  Seen from outside, a session is the list of payloads it has broadcast, the
  \<open>trace\<close>. A send call either appends its payload, or fails in the network
  and appends nothing, or is rejected for an argument that is no byte and
  appends nothing: the relation \<open>send_spec\<close>. \<open>run_spec\<close> is the contract of a
  sequence of calls that stops at the first exception. Sequence numbers,
  header, socket and counter do not appear: they are the implementation's
  business, fixed by the trace (\<open>ArtNet.numbered\<close>).

  \<open>sent_data\<close> maps a state of the implementation to its trace. The lemmas
  show a forward simulation (every step of the code is a step of the
  contract), and conversely that every behaviour the contract allows is
  produced by the code under some sequence of answers of the operating system.
\<close>

section \<open>The contract\<close>

type_synonym trace = "bytes list"

inductive send_spec :: "art_op \<Rightarrow> trace \<Rightarrow> py_error option \<Rightarrow> trace \<Rightarrow> bool" where
  sent: "sendable op \<Longrightarrow> send_spec op t None (t @ [payload op])"
| failed: "sendable op \<Longrightarrow> send_spec op t (Some OSError) t"
| rejected: "\<not> sendable op \<Longrightarrow> send_spec op t (Some ValueError) t"

inductive run_spec :: "art_op list \<Rightarrow> trace \<Rightarrow> py_error option \<Rightarrow> trace \<Rightarrow> bool" where
  nil: "run_spec [] t None t"
| cons_ok: "send_spec op t None t' \<Longrightarrow> run_spec ops t' r t'' \<Longrightarrow> run_spec (op # ops) t r t''"
| cons_err: "send_spec op t (Some e) t' \<Longrightarrow> run_spec (op # ops) t (Some e) t'"

code_pred send_spec .

code_pred run_spec .

definition sent_data :: "artnet \<Rightarrow> trace" where
  "sent_data a = map (\<lambda>(d, to). drop 18 d) (outbox (sock a))"

definition pushed :: "art_op \<Rightarrow> artnet \<Rightarrow> artnet" where
  "pushed op a =
     a\<lparr>sock := (sock a)\<lparr>outbox := outbox (sock a) @
         [(dmx_frame (seq a) (payload op), dst a, port a)]\<rparr>,
       seq := (seq a + 1) mod 256\<rparr>"

definition with_faults :: "bool list \<Rightarrow> artnet \<Rightarrow> artnet" where
  "with_faults fs a = a\<lparr>sock := (sock a)\<lparr>os_faults := fs\<rparr>\<rparr>"


section \<open>Case analysis\<close>

inductive_cases send_spec_NoneE [elim!]: "send_spec op t None t'"
inductive_cases send_spec_SomeE [elim!]: "send_spec op t (Some e) t'"
inductive_cases run_spec_NilE [elim!]: "run_spec [] t r t'"
inductive_cases run_spec_ConsE [elim!]: "run_spec (op # ops) t r t'"

inductive_simps send_spec_None_iff: "send_spec op t None t'"
inductive_simps send_spec_Some_iff: "send_spec op t (Some e) t'"

lemma send_spec_total: "\<exists>r t'. send_spec op t r t'"
  by (cases "sendable op") (auto intro: send_spec.intros)


section \<open>What a run of the contract leaves\<close>

lemma run_spec_prefix:
  assumes "run_spec ops t r t'"
  shows "\<exists>k\<le>length ops. t' = t @ map payload (take k ops) \<and> list_all sendable (take k ops) \<and>
     (r = None \<longleftrightarrow> k = length ops) \<and> (r = Some ValueError \<longleftrightarrow> k < length ops \<and> \<not> sendable (ops ! k))"
  using assms
proof (induction rule: run_spec.induct)
  case (nil t)
  show ?case by simp
next
  case (cons_ok op t t' ops r t'')
  then obtain k where "k \<le> length ops" "t'' = t' @ map payload (take k ops)"
    "list_all sendable (take k ops)" "r = None \<longleftrightarrow> k = length ops"
    "r = Some ValueError \<longleftrightarrow> k < length ops \<and> \<not> sendable (ops ! k)"
    by auto
  with cons_ok.hyps(1) show ?case
    by (intro exI [of _ "Suc k"]) auto
next
  case (cons_err op t e t' ops)
  then show ?case
    by (intro exI [of _ 0]) auto
qed


section \<open>The trace of a state\<close>

lemma drop_dmx_frame [simp]: "drop 18 (dmx_frame n p) = p"
  by (simp add: dmx_frame_def artnet_hdr_def)

lemma sent_data_fresh [simp]: "sent_data (fresh d p br cb) = []"
  by (simp add: sent_data_def)

lemma sent_data_with_faults [simp]: "sent_data (with_faults fs a) = sent_data a"
  by (simp add: sent_data_def with_faults_def)

lemma art_inv_with_faults [simp]: "art_inv (with_faults fs a) = art_inv a"
  by (simp add: art_inv_def with_faults_def)

lemma length_sent_data [simp, len_simps]: "length (sent_data a) = length (outbox (sock a))"
  by (simp add: sent_data_def)

lemma art_step_trace:
  assumes "art_inv a" "art_step op a = (r, a')"
  shows "(r = None \<and> sendable op \<and> sent_data a' = sent_data a @ [payload op]) \<or>
     (r = Some OSError \<and> sendable op \<and> sent_data a' = sent_data a) \<or>
     (r = Some ValueError \<and> \<not> sendable op \<and> sent_data a' = sent_data a)"
  using assms(1)
proof (cases rule: art_step_cases [where op = op])
  case rejected
  with assms(2) show ?thesis by (auto simp: sendable_def)
next
  case (sent s)
  with assms(2) show ?thesis by (auto simp: sendable_def sent_data_def)
next
  case (failed s)
  with assms(2) show ?thesis by (auto simp: sendable_def sent_data_def)
qed

lemma art_step_simulates:
  assumes "art_inv a" "art_step op a = (r, a')"
  shows "send_spec op (sent_data a) r (sent_data a')"
  using art_step_trace [OF assms] by (auto intro: send_spec.intros)

lemma art_run_simulates:
  assumes "art_inv a" "art_run ops a = (r, a')"
  shows "run_spec ops (sent_data a) r (sent_data a')"
  using assms
proof (induction ops arbitrary: a)
  case Nil
  then show ?case by (auto intro: run_spec.nil)
next
  case (Cons op ops)
  obtain r1 a1 where s: "art_step op a = (r1, a1)"
    by (cases "art_step op a")
  with Cons.prems(1) have sim: "send_spec op (sent_data a) r1 (sent_data a1)" and inv: "art_inv a1"
    by (auto intro: art_step_simulates art_step_inv)
  show ?case
  proof (cases r1)
    case None
    with Cons.prems(2) s have "art_run ops a1 = (r, a')"
      by (simp add: art_run_Cons)
    with inv have "run_spec ops (sent_data a1) r (sent_data a')"
      by (rule Cons.IH)
    with sim None show ?thesis
      by (metis run_spec.cons_ok)
  next
    case (Some e)
    with Cons.prems(2) s have "r = Some e" "a' = a1"
      by (simp_all add: art_run_Cons)
    with sim Some show ?thesis
      by (metis run_spec.cons_err)
  qed
qed


section \<open>The code under a scripted operating system\<close>

lemma art_inv_pushed [simp]: "art_inv a \<Longrightarrow> art_inv (pushed op a)"
  by (simp add: art_inv_def pushed_def)

lemma sent_data_pushed [simp]: "sent_data (pushed op a) = sent_data a @ [payload op]"
  by (simp add: sent_data_def pushed_def)

lemma art_step_scripted:
  assumes "art_inv a"
  shows "sendable op \<Longrightarrow>
      art_step op (with_faults (False # fs) a) = (None, with_faults fs (pushed op a))"
    and "sendable op \<Longrightarrow> art_step op (with_faults (True # fs) a) = (Some OSError, with_faults fs a)"
    and "\<not> sendable op \<Longrightarrow> art_step op (with_faults fs a) = (Some ValueError, with_faults fs a)"
  using assms art_step_eq [of "with_faults (False # fs) a" op]
    art_step_eq [of "with_faults (True # fs) a" op] art_step_eq [of "with_faults fs a" op]
  by (simp_all add: with_faults_def pushed_def sendto_def os_call_def sendable_def art_inv_def)

lemma art_run_scripted:
  assumes "art_inv a"
  shows "sendable op \<Longrightarrow>
      art_run (op # ops) (with_faults (False # fs) a) = art_run ops (with_faults fs (pushed op a))"
    and "sendable op \<Longrightarrow>
      art_run (op # ops) (with_faults (True # fs) a) = (Some OSError, with_faults fs a)"
    and "\<not> sendable op \<Longrightarrow>
      art_run (op # ops) (with_faults fs a) = (Some ValueError, with_faults fs a)"
  using art_step_scripted [OF assms, of op fs] by (simp_all add: art_run_Cons)

lemma run_spec_realised_from:
  assumes "run_spec ops t r t'" "art_inv a" "sent_data a = t"
  shows "\<exists>fs a'. art_run ops (with_faults fs a) = (r, a') \<and> sent_data a' = t'"
  using assms
proof (induction arbitrary: a rule: run_spec.induct)
  case (nil t)
  then show ?case by simp
next
  case (cons_ok op t t' ops r t'')
  from cons_ok.hyps(1) have ok: "sendable op" and t': "t' = t @ [payload op]"
    by auto
  from cons_ok.prems t' have "art_inv (pushed op a)" "sent_data (pushed op a) = t'"
    by simp_all
  from cons_ok.IH [OF this] obtain fs a' where
    "art_run ops (with_faults fs (pushed op a)) = (r, a')" "sent_data a' = t''"
    by auto
  with art_run_scripted(1) [OF cons_ok.prems(1) ok, of ops fs] show ?case
    by (intro exI [of _ "False # fs"] exI [of _ a']) simp
next
  case (cons_err op t e t' ops)
  from cons_err.hyps consider "sendable op" "e = OSError" "t' = t"
    | "\<not> sendable op" "e = ValueError" "t' = t"
    by auto
  then show ?case
  proof cases
    case 1
    with art_run_scripted(2) [OF cons_err.prems(1), of op ops "[]"] cons_err.prems(2) show ?thesis
      by (intro exI [of _ "[True]"] exI [of _ "with_faults [] a"]) simp
  next
    case 2
    with art_run_scripted(3) [OF cons_err.prems(1), of op ops "[]"] cons_err.prems(2) show ?thesis
      by (intro exI [of _ "[]"] exI [of _ "with_faults [] a"]) simp
  qed
qed

lemma reachable_trace_ops:
  assumes "reachable a"
  shows "\<exists>ops. list_all sendable ops \<and> sent_data a = map payload ops"
  using assms
proof (induction rule: reachable.induct)
  case (init d p br cb faults a)
  then show ?case
    by (intro exI [of _ "[]"]) (auto simp: ArtNet_init_eq_Inr_iff sent_data_def)
next
  case (step a op r a')
  then obtain ops where ops: "list_all sendable ops" "sent_data a = map payload ops"
    by auto
  from step.hyps(1) have "art_inv a"
    by (simp add: reachable_inv)
  from art_step_trace [OF this step.hyps(2)] ops show ?case
    by (auto intro: exI [of _ "ops @ [op]"] exI [of _ ops])
qed


section \<open>Properties\<close>

text \<open>
  Claim C17 (refinement). The two methods implement the contract: from a state
  that satisfies the session invariant, a call of \<^verbatim>\<open>sendrgb\<close> or \<^verbatim>\<open>sendwa\<close>
  that returns \<open>r\<close> and leaves state \<open>a'\<close> is a step of \<open>send_spec\<close> between
  the traces of the two states, and the invariant holds again.
\<close>

theorem art_step_refines_send_spec:
  assumes "art_inv a" "art_step op a = (r, a')"
  shows "send_spec op (sent_data a) r (sent_data a') \<and> art_inv a'"
  using assms by (auto intro: art_step_simulates art_step_inv)

theorem art_step_refines_send_spec_witness:
  "art_inv (fresh ''h'' 6454 6 True) \<and>
   art_step (SendWA 7 9) (fresh ''h'' 6454 6 True) =
     (None, snd (art_step (SendWA 7 9) (fresh ''h'' 6454 6 True))) \<and>
   send_spec (SendWA 7 9) [] None
     (sent_data (snd (art_step (SendWA 7 9) (fresh ''h'' 6454 6 True)))) \<and>
   sent_data (snd (art_step (SendWA 7 9) (fresh ''h'' 6454 6 True))) =
     [py_repeat [0, 0, 0, 9, 7] 12]"
proof -
  have s: "art_step (SendWA 7 9) (fresh ''h'' 6454 6 True) =
      (None, snd (art_step (SendWA 7 9) (fresh ''h'' 6454 6 True)))"
    using art_step_sends [of "fresh ''h'' 6454 6 True" "SendWA 7 9"] by (simp add: sendable_def)
  from art_step_refines_send_spec [OF _ s] s show ?thesis
    by (auto simp: payload_def)
qed

text \<open>
  Claim C5 (refinement). A sequence of send calls implements the contract
  of a run: whatever the operating system answers, the exception the
  sequence ends with and the payloads broadcast are related by \<open>run_spec\<close>,
  so that the payloads are those of the calls before the first exception, in
  order, and nothing else.
\<close>

theorem art_run_refines_run_spec:
  assumes "art_inv a" "art_run ops a = (r, a')"
  shows "run_spec ops (sent_data a) r (sent_data a') \<and>
     (\<exists>k\<le>length ops. sent_data a' = sent_data a @ map payload (take k ops) \<and>
        (r = None \<longleftrightarrow> k = length ops))"
  using run_spec_prefix [OF art_run_simulates [OF assms]] art_run_simulates [OF assms]
  by auto

theorem art_run_refines_run_spec_witness:
  "art_inv (with_faults [False, True] (fresh ''h'' 6454 6 True)) \<and>
   art_run [SendRGB 1 2 3, SendWA 4 5, SendWA 6 7] (with_faults [False, True] (fresh ''h'' 6454 6 True)) =
     (Some OSError,
      snd (art_run [SendRGB 1 2 3, SendWA 4 5, SendWA 6 7]
        (with_faults [False, True] (fresh ''h'' 6454 6 True)))) \<and>
   run_spec [SendRGB 1 2 3, SendWA 4 5, SendWA 6 7] [] (Some OSError) [payload (SendRGB 1 2 3)]"
proof -
  let ?ops = "[SendRGB 1 2 3, SendWA 4 5, SendWA 6 7]" and ?a = "fresh ''h'' 6454 6 True"
  have run: "art_run ?ops (with_faults [False, True] ?a) =
      (Some OSError, snd (art_run ?ops (with_faults [False, True] ?a)))"
    and tr: "sent_data (snd (art_run ?ops (with_faults [False, True] ?a))) = [payload (SendRGB 1 2 3)]"
    by (simp_all add: art_run_scripted sendable_def)
  from art_run_refines_run_spec [OF _ run] run tr show ?thesis
    by simp
qed

text \<open>
  Claim C18 (refinement). The contract allows nothing the code cannot do: for
  every run of \<open>run_spec\<close> from the trace of a state that satisfies the
  invariant there are answers of the operating system under which the code,
  started in that state, ends with the same exception and the same trace.
\<close>

theorem run_spec_realised:
  assumes "art_inv a" "run_spec ops (sent_data a) r t'"
  shows "\<exists>fs a'. art_run ops (with_faults fs a) = (r, a') \<and> sent_data a' = t'"
  using run_spec_realised_from [OF assms(2,1)] by simp

theorem run_spec_realised_witness:
  "art_inv (fresh ''h'' 6454 6 True) \<and>
   run_spec [SendRGB 1 2 3, SendRGB 0 0 300] (sent_data (fresh ''h'' 6454 6 True))
     (Some ValueError) [payload (SendRGB 1 2 3)] \<and>
   (\<exists>fs a'. art_run [SendRGB 1 2 3, SendRGB 0 0 300] (with_faults fs (fresh ''h'' 6454 6 True)) =
       (Some ValueError, a') \<and> sent_data a' = [payload (SendRGB 1 2 3)])"
proof -
  have "run_spec [SendRGB 1 2 3, SendRGB 0 0 300] (sent_data (fresh ''h'' 6454 6 True))
      (Some ValueError) [payload (SendRGB 1 2 3)]"
    by (rule run_spec.cons_ok [where t' = "[payload (SendRGB 1 2 3)]"])
      (auto intro: run_spec.cons_err simp: send_spec_None_iff send_spec_Some_iff sendable_def)
  from run_spec_realised [OF _ this] this show ?thesis
    by simp
qed

text \<open>
  Claim C21 (invariant). Everything a session has ever broadcast is the
  payload of a send call with byte-sized arguments: in every reachable state
  the trace is a list of 60-byte payloads, each twelve copies of one group
  of five channel values, and the sequence counter is the length of the
  trace modulo 256.
\<close>

theorem reachable_trace:
  assumes "reachable a"
  shows "\<exists>ops. list_all sendable ops \<and> sent_data a = map payload ops \<and>
     seq a = int (length ops) mod 256 \<and>
     list_all (\<lambda>p. length p = 60 \<and> p = py_repeat (take 5 p) 12) (sent_data a)"
proof -
  from reachable_trace_ops [OF assms] obtain ops where
    ops: "list_all sendable ops" "sent_data a = map payload ops"
    by auto
  moreover from assms have "seq a = int (length (outbox (sock a))) mod 256"
    using reachable_inv by (auto simp: numbered_def)
  with ops(2) have "seq a = int (length ops) mod 256"
    by (simp flip: length_sent_data)
  moreover have "length (payload op) = 60 \<and> payload op = py_repeat (take 5 (payload op)) 12" for op
    by (cases op) (simp_all add: payload_def py_repeat_Suc numeral_eq_Suc)
  with ops(2) have "list_all (\<lambda>p. length p = 60 \<and> p = py_repeat (take 5 p) 12) (sent_data a)"
    by (simp add: list_all_iff)
  ultimately show ?thesis
    by auto
qed

theorem reachable_trace_witness:
  "reachable (fresh ''h'' 6454 6 True) \<and>
   (\<exists>ops. list_all sendable ops \<and> sent_data (fresh ''h'' 6454 6 True) = map payload ops \<and>
     seq (fresh ''h'' 6454 6 True) = int (length ops) mod 256 \<and>
     list_all (\<lambda>p. length p = 60 \<and> p = py_repeat (take 5 p) 12)
       (sent_data (fresh ''h'' 6454 6 True)))"
  using reachable_trace [OF fresh_reachable, of 6454 "''h''" 6 True]
    fresh_reachable [of 6454 "''h''" 6 True]
  by simp

end
