(* ===== verification/Driver.thy ===== *)
theory Driver
  imports ArtNet
begin

text \<open>
  The demo sequence, the \<^verbatim>\<open>__main__\<close> block of \<^verbatim>\<open>src/send_umbrella.py\<close> (lines
  113 to 137). The state of the run is the \<open>world\<close>: the sender object bound
  to \<^verbatim>\<open>art\<close> and the seconds spent in \<^verbatim>\<open>time.sleep\<close>. \<open>demo_body\<close> is the block
  after the constructor call, statement by statement, and \<open>main\<close> the whole
  block; the list \<open>faults\<close> given to \<open>main\<close> scripts the answers of the
  operating system (see \<open>Udp_Socket\<close>).

  \<open>demo_script\<close> is the same sequence as data, a list of \<open>stmt\<close>; the lemmas
  show that \<open>demo_body\<close> runs it, and reduce the datagrams of the demo to a
  run of send calls (\<open>art_run\<close> over \<open>demo_ops\<close>).
\<close>

section \<open>The code\<close>

record world =
  art :: artnet
  slept :: nat

definition on_art :: "(artnet \<Rightarrow> artnet outcome) \<Rightarrow> world \<Rightarrow> world outcome" where
  "on_art m w = (case m (art w) of (r, a') \<Rightarrow> (r, w\<lparr>art := a'\<rparr>))"

definition sleep :: "nat \<Rightarrow> world \<Rightarrow> world outcome" where
  "sleep n w = (None, w\<lparr>slept := slept w + n\<rparr>)"

definition demo_body :: "world \<Rightarrow> world outcome" where
  "demo_body =
     run_all
       [on_art (sendrgb 255 255 255), sleep 1,
        on_art (sendrgb 0 255 255), sleep 1,
        on_art (sendrgb 0 0 255), sleep 1,
        on_art (sendrgb 0 255 0), sleep 1,
        on_art (sendrgb 255 0 0), sleep 1,
        on_art (sendwa 255 255), sleep 1,
        for_each (py_range 0 255 1) (\<lambda>i. on_art (sendwa (int i) 0)),
        for_each (py_range 0 255 1) (\<lambda>i. on_art (sendwa 0 (int i)))]"

definition main :: "bool list \<Rightarrow> py_error option \<times> world option" where
  "main faults =
     (case ArtNet_init ''10.20.255.255'' default_port default_brightness False faults of
        Inl e \<Rightarrow> (Some e, None)
      | Inr a \<Rightarrow> (case demo_body \<lparr>art = a, slept = 0\<rparr> of (r, w) \<Rightarrow> (r, Some w)))"


section \<open>The demo as data\<close>

datatype stmt = Send art_op | Sleep nat

fun exec :: "stmt \<Rightarrow> world \<Rightarrow> world outcome" where
  "exec (Send op) = on_art (art_step op)"
| "exec (Sleep n) = sleep n"

definition demo_script :: "stmt list" where
  "demo_script =
     [Send (SendRGB 255 255 255), Sleep 1, Send (SendRGB 0 255 255), Sleep 1,
      Send (SendRGB 0 0 255), Sleep 1, Send (SendRGB 0 255 0), Sleep 1,
      Send (SendRGB 255 0 0), Sleep 1, Send (SendWA 255 255), Sleep 1]
     @ map (\<lambda>i. Send (SendWA (int i) 0)) [0..<255]
     @ map (\<lambda>i. Send (SendWA 0 (int i))) [0..<255]"

fun sends :: "stmt list \<Rightarrow> art_op list" where
  "sends [] = []"
| "sends (Send op # ss) = op # sends ss"
| "sends (Sleep n # ss) = sends ss"

fun sleeps :: "stmt list \<Rightarrow> nat" where
  "sleeps [] = 0"
| "sleeps (Send op # ss) = sleeps ss"
| "sleeps (Sleep n # ss) = n + sleeps ss"

definition demo_ops :: "art_op list" where
  "demo_ops =
     [SendRGB 255 255 255, SendRGB 0 255 255, SendRGB 0 0 255, SendRGB 0 255 0,
      SendRGB 255 0 0, SendWA 255 255]
     @ map (\<lambda>i. SendWA (int i) 0) [0..<255] @ map (\<lambda>i. SendWA 0 (int i)) [0..<255]"


section \<open>Running a script\<close>

lemma on_art_simps [simp]:
  "m (art w) = (r, a') \<Longrightarrow> on_art m w = (r, w\<lparr>art := a'\<rparr>)"
  by (simp add: on_art_def)

lemma sends_append [simp]: "sends (xs @ ys) = sends xs @ sends ys"
  by (induction xs rule: sends.induct) simp_all

lemma sleeps_append [simp]: "sleeps (xs @ ys) = sleeps xs + sleeps ys"
  by (induction xs rule: sleeps.induct) simp_all

lemma sends_map_Send [simp]: "sends (map (\<lambda>i. Send (f i)) xs) = map f xs"
  by (induction xs) simp_all

lemma sleeps_map_Send [simp]: "sleeps (map (\<lambda>i. Send (f i)) xs) = 0"
  by (induction xs) simp_all

lemma demo_body_script: "demo_body = for_each demo_script exec"
proof -
  have loop: "for_each xs (\<lambda>i. on_art (art_step (f i))) = for_each (map (\<lambda>i. Send (f i)) xs) exec"
    for xs :: "nat list" and f
    by (simp add: for_each_def comp_def)
  have body: "demo_body =
      run_all (map exec [Send (SendRGB 255 255 255), Sleep 1, Send (SendRGB 0 255 255), Sleep 1,
        Send (SendRGB 0 0 255), Sleep 1, Send (SendRGB 0 255 0), Sleep 1,
        Send (SendRGB 255 0 0), Sleep 1, Send (SendWA 255 255), Sleep 1]
       @ [for_each (map (\<lambda>i. Send (SendWA (int i) 0)) [0..<255]) exec,
          for_each (map (\<lambda>i. Send (SendWA 0 (int i))) [0..<255]) exec])"
    using loop [of "[0..<255]" "\<lambda>i. SendWA (int i) 0"] loop [of "[0..<255]" "\<lambda>i. SendWA 0 (int i)"]
    by (simp add: demo_body_def py_range_unit del: upt_Suc)
  show ?thesis
    unfolding body demo_script_def for_each_append run_all_append run_all_pair
    by (simp only: for_each_def)
qed

lemma sends_demo_script: "sends demo_script = demo_ops"
  by (simp add: demo_script_def demo_ops_def del: upt_Suc)

lemma sleeps_demo_script: "sleeps demo_script = 6"
  by (simp add: demo_script_def del: upt_Suc)

lemma length_demo_ops [simp]: "length demo_ops = 516"
  by (simp add: demo_ops_def)

lemma demo_ops_sendable: "list_all sendable demo_ops"
  by (auto simp: demo_ops_def sendable_def list_all_iff in_byte_def)


text \<open>
  Induction over the execution of a script: it is over, it starts with a
  pause, it starts with a send call that returns, or it starts with a send
  call that raises and ends there.
\<close>

lemma script_induct [case_names Nil Sleep Send_ok Send_err]:
  assumes "\<And>w. P [] w"
    and "\<And>k ss w. for_each (Sleep k # ss) exec w = for_each ss exec (w\<lparr>slept := slept w + k\<rparr>) \<Longrightarrow>
           P ss (w\<lparr>slept := slept w + k\<rparr>) \<Longrightarrow> P (Sleep k # ss) w"
    and "\<And>op ss w a'. art_step op (art w) = (None, a') \<Longrightarrow>
           for_each (Send op # ss) exec w = for_each ss exec (w\<lparr>art := a'\<rparr>) \<Longrightarrow>
           P ss (w\<lparr>art := a'\<rparr>) \<Longrightarrow> P (Send op # ss) w"
    and "\<And>op ss w e a'. art_step op (art w) = (Some e, a') \<Longrightarrow>
           for_each (Send op # ss) exec w = (Some e, w\<lparr>art := a'\<rparr>) \<Longrightarrow> P (Send op # ss) w"
  shows "P ss w"
proof (induction ss arbitrary: w)
  case Nil
  show ?case by (rule assms(1))
next
  case (Cons st ss)
  show ?case
  proof (cases st)
    case (Sleep k)
    have "P (Sleep k # ss) w"
      by (rule assms(2) [OF _ Cons]) (simp add: sleep_def)
    with Sleep show ?thesis by simp
  next
    case (Send op)
    obtain r a' where step: "art_step op (art w) = (r, a')"
      by (cases "art_step op (art w)")
    have "P (Send op # ss) w"
    proof (cases r)
      case None
      with step show ?thesis
        by (intro assms(3) [OF _ _ Cons]) simp_all
    next
      case (Some e)
      with step show ?thesis
        by (intro assms(4)) simp_all
    qed
    with Send show ?thesis by simp
  qed
qed

lemma exec_script:
  "fst (for_each script exec w) = fst (art_run (sends script) (art w)) \<and>
   art (snd (for_each script exec w)) = snd (art_run (sends script) (art w))"
  by (induction script w rule: script_induct) (simp_all add: art_run_Cons)

lemma exec_script_slept:
  "fst (for_each script exec w) = None \<Longrightarrow>
     slept (snd (for_each script exec w)) = slept w + sleeps script"
  by (induction script w rule: script_induct) simp_all

lemma demo_body_art:
  "fst (demo_body w) = fst (art_run demo_ops (art w))"
  "art (snd (demo_body w)) = snd (art_run demo_ops (art w))"
  using exec_script [of demo_script w] by (simp_all add: demo_body_script sends_demo_script)

lemma demo_body_slept: "fst (demo_body w) = None \<Longrightarrow> slept (snd (demo_body w)) = slept w + 6"
  using exec_script_slept [of demo_script w] by (simp add: demo_body_script sleeps_demo_script)

lemma main_eq:
  "main faults =
     (case ArtNet_init ''10.20.255.255'' default_port default_brightness False faults of
        Inl e \<Rightarrow> (Some e, None)
      | Inr a \<Rightarrow> (fst (art_run demo_ops a), Some (snd (demo_body \<lparr>art = a, slept = 0\<rparr>))))"
proof (cases "ArtNet_init ''10.20.255.255'' default_port default_brightness False faults")
  case (Inl e)
  then show ?thesis by (simp add: main_def)
next
  case (Inr a)
  obtain r w where "demo_body \<lparr>art = a, slept = 0\<rparr> = (r, w)"
    by (cases "demo_body \<lparr>art = a, slept = 0\<rparr>")
  with demo_body_art(1) [of "\<lparr>art = a, slept = 0\<rparr>"] Inr show ?thesis
    by (simp add: main_def)
qed


lemma demo_start:
  "ArtNet_init ''10.20.255.255'' default_port default_brightness False [] =
     Inr (fresh ''10.20.255.255'' 6454 6 False)"
  by (simp add: fresh_session default_port_def default_brightness_def)

lemma demo_body_quiet:
  assumes "art_inv (art w)" "os_faults (sock (art w)) = []"
  shows "fst (demo_body w) = None" "slept (snd (demo_body w)) = slept w + 6"
    and "outbox (sock (art (snd (demo_body w)))) =
      outbox (sock (art w)) @
        map (\<lambda>d. (d, dst (art w), port (art w))) (frames (seq (art w)) demo_ops)"
    and "seq (art (snd (demo_body w))) = (seq (art w) + 516) mod 256"
proof -
  have quiet: "fst (art_run demo_ops (art w)) = None"
    using assms by (rule art_run_quiet) (rule demo_ops_sendable)
  then show "fst (demo_body w) = None"
    by (simp add: demo_body_art(1))
  then show "slept (snd (demo_body w)) = slept w + 6"
    by (rule demo_body_slept)
  from quiet have "art_run demo_ops (art w) = (None, art (snd (demo_body w)))"
    by (metis demo_body_art(2) prod.collapse)
  from art_run_prefix [OF assms(1) this]
  show "outbox (sock (art (snd (demo_body w)))) =
      outbox (sock (art w)) @
        map (\<lambda>d. (d, dst (art w), port (art w))) (frames (seq (art w)) demo_ops)"
    and "seq (art (snd (demo_body w))) = (seq (art w) + 516) mod 256"
    by auto
qed

lemma nth_demo_ops:
  "i < 255 \<Longrightarrow> demo_ops ! (6 + i) = SendWA (int i) 0"
  "i < 255 \<Longrightarrow> demo_ops ! (261 + i) = SendWA 0 (int i)"
  by (simp_all add: demo_ops_def nth_append del: upt_Suc)


section \<open>Properties\<close>

text \<open>
  Claim C10 (functional). On a system where no call fails, the demo runs to
  its end without an exception: it sends 516 datagrams to 10.20.255.255 port
  6454, which are the frames of \<open>demo_ops\<close> numbered from 0, sleeps 6 seconds
  in all, and leaves the sequence counter at 4, that is 516 modulo 256.
\<close>

theorem main_quiet:
  "\<exists>w. main [] = (None, Some w) \<and> slept w = 6 \<and> seq (art w) = 4 \<and>
     length (outbox (sock (art w))) = 516 \<and>
     outbox (sock (art w)) = map (\<lambda>d. (d, ''10.20.255.255'', 6454)) (frames 0 demo_ops)"
proof -
  let ?w0 = "\<lparr>art = fresh ''10.20.255.255'' 6454 6 False, slept = 0\<rparr>"
  have "art_inv (art ?w0)" "os_faults (sock (art ?w0)) = []"
    by simp_all
  note quiet = demo_body_quiet [OF this]
  from quiet(1) have "main [] = (None, Some (snd (demo_body ?w0)))"
    by (simp add: main_eq demo_start demo_body_art(1))
  with quiet(2-4) show ?thesis
    by simp
qed

text \<open>
  Claim C30 (error). Every argument the demo passes to a send call is a
  byte, so the only exception the program can end with is \<^verbatim>\<open>OSError\<close>, from
  the socket; it never raises \<^verbatim>\<open>ValueError\<close> or \<^verbatim>\<open>struct.error\<close>.
\<close>

theorem main_raises_only_OSError: "fst (main faults) = None \<or> fst (main faults) = Some OSError"
proof (cases "ArtNet_init ''10.20.255.255'' default_port default_brightness False faults")
  case (Inl e)
  then have "e = OSError"
    by (simp add: ArtNet_init_eq_Inl_iff)
  with Inl show ?thesis
    by (simp add: main_eq)
next
  case (Inr a)
  then have "art_inv a"
    by (simp add: init_inv [OF valid_default_port])
  then have "e = OSError" if "art_run demo_ops a = (Some e, a')" for e a'
    using demo_ops_sendable that by (rule art_run_error)
  with Inr show ?thesis
    by (cases "art_run demo_ops a"; cases "fst (art_run demo_ops a)") (auto simp: main_eq)
qed

text \<open>
  Claim C12 (safety). Whatever the operating system answers, what the demo has
  sent when it ends is a prefix of the 516 frames of the full run, in order
  and without gaps, the sequence counter equals the number of datagrams sent
  modulo 256, and the run ended normally exactly if all 516 were sent.
\<close>

theorem main_sends_prefix:
  assumes "main faults = (r, Some w)"
  shows "\<exists>k\<le>516. map fst (outbox (sock (art w))) = take k (frames 0 demo_ops) \<and>
     seq (art w) = int k mod 256 \<and> (r = None \<longleftrightarrow> k = 516)"
proof -
  from assms obtain a where a: "ArtNet_init ''10.20.255.255'' default_port default_brightness False faults = Inr a"
    and r: "r = fst (art_run demo_ops a)" and w: "w = snd (demo_body \<lparr>art = a, slept = 0\<rparr>)"
    by (auto simp: main_eq split: sum.splits)
  then have run: "art_run demo_ops a = (r, art w)"
    by (metis demo_body_art(2) prod.collapse world.select_convs(1))
  from a have inv: "art_inv a" and fresh: "seq a = 0" "outbox (sock a) = []"
    by (auto simp: init_inv [OF valid_default_port] ArtNet_init_eq_Inr_iff)
  from art_run_prefix [OF inv run] fresh show ?thesis
    by (auto simp: take_frames comp_def)
qed

theorem main_sends_prefix_witness:
  "main [False, False, True] =
     (Some OSError, Some \<lparr>art = (fresh ''10.20.255.255'' 6454 6 False), slept = 0\<rparr>) \<and>
   (\<exists>k\<le>516. map fst (outbox (sock (art \<lparr>art = (fresh ''10.20.255.255'' 6454 6 False), slept = 0\<rparr>))) =
       take k (frames 0 demo_ops) \<and>
     seq (art \<lparr>art = (fresh ''10.20.255.255'' 6454 6 False), slept = 0\<rparr>) = int k mod 256 \<and>
     (Some OSError = None \<longleftrightarrow> k = 516))"
proof -
  have "main [False, False, True] =
      (Some OSError, Some \<lparr>art = (fresh ''10.20.255.255'' 6454 6 False), slept = 0\<rparr>)"
    by (simp add: main_def ArtNet_init_def socket_defs version_bytes artnet_id_eq fresh_def
        artnet_hdr_def default_port_def default_brightness_def demo_body_def and_then_def
        on_art_def send_defs bytearray_py_repeat)
  from main_sends_prefix [OF this] this show ?thesis
    by simp
qed



end
