(* ===== verification/Demo_Steps.thy ===== *)
theory Demo_Steps
  imports Driver
begin

text \<open>
  The demo of \<^verbatim>\<open>src/send_umbrella.py\<close> (lines 119 to 137) executed one
  statement at a time. A \<open>config\<close> is the program between two statements:
  the statements still to run with the \<open>world\<close> they will run in, or the end
  of the block, or the exception that ended it. \<open>step\<close> runs the next
  statement; it is the relation form of \<open>next_config\<close>.

  The lemmas show that execution cannot go on forever (every step shortens
  the script), that it cannot get stuck, that the configurations at the end
  are exactly the results of \<open>Driver.demo_body\<close>, and that on a system where
  no call fails every execution of the demo can be continued until all
  datagrams are sent.
\<close>

section \<open>Executions\<close>

datatype config = Running "stmt list" world | Finished world | Raised py_error world

inductive step :: "config \<Rightarrow> config \<Rightarrow> bool" where
  finish: "step (Running [] w) (Finished w)"
| proceed: "exec s w = (None, w') \<Longrightarrow> step (Running (s # ss) w) (Running ss w')"
| raise: "exec s w = (Some e, w') \<Longrightarrow> step (Running (s # ss) w) (Raised e w')"

inductive star :: "('a \<Rightarrow> 'a \<Rightarrow> bool) \<Rightarrow> 'a \<Rightarrow> 'a \<Rightarrow> bool" for r where
  refl: "star r x x"
| step: "r x y \<Longrightarrow> star r y z \<Longrightarrow> star r x z"

code_pred step .

code_pred star .

fun next_config :: "config \<Rightarrow> config option" where
  "next_config (Running [] w) = Some (Finished w)"
| "next_config (Running (s # ss) w) =
     (case exec s w of (None, w') \<Rightarrow> Some (Running ss w') | (Some e, w') \<Rightarrow> Some (Raised e w'))"
| "next_config (Finished w) = None"
| "next_config (Raised e w) = None"

fun is_final :: "config \<Rightarrow> bool" where
  "is_final (Running ss w) = False"
| "is_final (Finished w) = True"
| "is_final (Raised e w) = True"

fun remaining :: "config \<Rightarrow> nat" where
  "remaining (Running ss w) = Suc (length ss)"
| "remaining (Finished w) = 0"
| "remaining (Raised e w) = 0"

fun outcome_of :: "config \<Rightarrow> world outcome" where
  "outcome_of (Running ss w) = for_each ss exec w"
| "outcome_of (Finished w) = (None, w)"
| "outcome_of (Raised e w) = (Some e, w)"

fun final_of :: "world outcome \<Rightarrow> config" where
  "final_of (None, w) = Finished w"
| "final_of (Some e, w) = Raised e w"


section \<open>Rule inversion\<close>

inductive_cases step_RunningE [elim!]: "step (Running ss w) c"
inductive_cases step_FinishedE [elim!]: "step (Finished w) c"
inductive_cases step_RaisedE [elim!]: "step (Raised e w) c"

lemma star_trans: "star r x y \<Longrightarrow> star r y z \<Longrightarrow> star r x z"
  by (induction rule: star.induct) (auto intro: star.step)

lemma star_step1: "r x y \<Longrightarrow> star r x y"
  by (blast intro: star.intros)


section \<open>One step\<close>

lemma step_iff_next: "step c c' \<longleftrightarrow> next_config c = Some c'"
proof
  assume "step c c'"
  then show "next_config c = Some c'"
    by (induction rule: step.induct) simp_all
next
  assume "next_config c = Some c'"
  then show "step c c'"
    by (cases c rule: next_config.cases)
      (auto intro: step.intros split: prod.splits option.splits)
qed

lemma step_deterministic: "step c c' \<Longrightarrow> step c c'' \<Longrightarrow> c'' = c'"
  by (simp add: step_iff_next)

lemma step_decreases: "step c c' \<Longrightarrow> remaining c' < remaining c"
  by (induction rule: step.induct) simp_all

lemma is_final_iff: "is_final c \<longleftrightarrow> (\<nexists>c'. step c c')"
  by (cases c rule: next_config.cases)
    (auto simp: step_iff_next split: prod.splits option.splits)

lemma step_outcome: "step c c' \<Longrightarrow> outcome_of c' = outcome_of c"
  by (induction rule: step.induct) (simp_all add: and_then_def)

lemma final_of_outcome [simp]: "is_final c \<Longrightarrow> final_of (outcome_of c) = c"
  by (cases c) simp_all

lemma is_final_final_of [simp]: "is_final (final_of r)"
  by (cases r rule: final_of.cases) simp_all

lemma outcome_final_of [simp]: "outcome_of (final_of r) = r"
  by (cases r rule: final_of.cases) simp_all


section \<open>Many steps\<close>

lemma steps_outcome: "star step c c' \<Longrightarrow> outcome_of c' = outcome_of c"
  by (induction rule: star.induct) (simp_all add: step_outcome)

lemma steps_remaining: "star step c c' \<Longrightarrow> remaining c' \<le> remaining c"
  by (induction rule: star.induct) (auto dest: step_decreases)

lemma run_to_final: "star step (Running ss w) (final_of (for_each ss exec w))"
proof (induction ss arbitrary: w)
  case Nil
  show ?case
    by (auto intro: star_step1 step.finish)
next
  case (Cons s ss)
  obtain r w' where s: "exec s w = (r, w')"
    by (cases "exec s w")
  show ?case
  proof (cases r)
    case None
    with s have "step (Running (s # ss) w) (Running ss w')"
      by (auto intro: step.proceed)
    from star.step [OF this Cons [of w']] s None show ?thesis
      by (simp add: and_then_def)
  next
    case (Some e)
    with s have "step (Running (s # ss) w) (Raised e w')"
      by (auto intro: step.raise)
    from star_step1 [of step, OF this] s Some show ?thesis
      by (simp add: and_then_def)
  qed
qed

lemma steps_to_final: "star step c (final_of (outcome_of c))"
  by (cases c) (simp_all add: run_to_final star.refl)


section \<open>Properties\<close>



text \<open>
  Claim C15 (liveness). On a system where no call fails the demo always gets
  to its end: from every configuration that an execution of the demo can
  reach, the end of the block is reachable, and there all 516 frames have
  been handed to the network, in order, and six seconds have been slept.
\<close>

theorem demo_leads_to_finished:
  assumes "art_inv (art w)" "os_faults (sock (art w)) = []"
    and "star step (Running demo_script w) c"
  shows "\<exists>w'. star step c (Finished w') \<and> slept w' = slept w + 6 \<and>
     map fst (outbox (sock (art w'))) =
       map fst (outbox (sock (art w))) @ frames (seq (art w)) demo_ops"
proof -
  let ?w' = "snd (demo_body w)"
  from assms(3) have "outcome_of c = demo_body w"
    using steps_outcome [of "Running demo_script w" c] by (simp add: demo_body_script)
  also have "demo_body w = (None, ?w')"
    using demo_body_quiet(1) [OF assms(1,2)] by (metis prod.collapse)
  finally have "star step c (Finished ?w')"
    using steps_to_final [of c] by simp
  with demo_body_quiet(2,3) [OF assms(1,2)] show ?thesis
    by (intro exI [of _ ?w']) (simp add: comp_def)
qed

theorem demo_leads_to_finished_witness:
  "art_inv (art \<lparr>art = fresh ''10.20.255.255'' 6454 6 False, slept = 0\<rparr>) \<and>
   os_faults (sock (art \<lparr>art = fresh ''10.20.255.255'' 6454 6 False, slept = 0\<rparr>)) = [] \<and>
   star step (Running demo_script \<lparr>art = fresh ''10.20.255.255'' 6454 6 False, slept = 0\<rparr>)
     (Running demo_script \<lparr>art = fresh ''10.20.255.255'' 6454 6 False, slept = 0\<rparr>) \<and>
   (\<exists>w'. star step (Running demo_script \<lparr>art = fresh ''10.20.255.255'' 6454 6 False, slept = 0\<rparr>)
       (Finished w') \<and> slept w' = 6 \<and>
     map fst (outbox (sock (art w'))) = frames 0 demo_ops)"
  using demo_leads_to_finished [of "\<lparr>art = fresh ''10.20.255.255'' 6454 6 False, slept = 0\<rparr>"
      "Running demo_script \<lparr>art = fresh ''10.20.255.255'' 6454 6 False, slept = 0\<rparr>"]
  by (simp add: star.refl)

end
