(* ===== verification/Timeline.thy ===== *)
theory Timeline
  imports Driver "HOL-Library.Sublist"
begin

text \<open>
  The demo of \<^verbatim>\<open>src/send_umbrella.py\<close> (lines 119 to 137) as it is seen from
  outside: the datagrams on the network and the pauses of the clock, in the
  order in which they happen. An \<open>event\<close> is one datagram or one pause.
  \<open>observe\<close> reads the events of one statement off the two states around it:
  the datagrams the socket has been handed and the seconds by which the
  clock has moved. \<open>history\<close> runs a script with \<open>Driver.exec\<close> and collects
  what is observed, up to the first exception. \<open>history_final\<close> shows that
  nothing is invented and nothing is lost: the datagrams in the socket's
  outbox and the seconds on the clock after the run are those of the
  history.

  \<open>timeline\<close> is what the script promises: one event for each statement,
  with consecutive sequence numbers for the sends. The lemmas show that the
  history is always a prefix of the timeline and equals it when the script
  runs to its end, and give the timeline of the demo: six frames, each
  followed by a pause of one second, and then the 510 frames of the two
  ramps with no pause between them.
\<close>

section \<open>Events\<close>

datatype event = is_Sent: Sent (frame_of: bytes) | Slept (secs: nat)

definition emitted :: "world \<Rightarrow> world \<Rightarrow> event list" where
  "emitted w w' =
     map (\<lambda>(d, to). Sent d) (drop (length (outbox (sock (art w)))) (outbox (sock (art w'))))"

definition observe :: "world \<Rightarrow> world \<Rightarrow> event list" where
  "observe w w' =
     emitted w w' @ (if slept w < slept w' then [Slept (slept w' - slept w)] else [])"

fun history :: "stmt list \<Rightarrow> world \<Rightarrow> event list" where
  "history [] w = []"
| "history (s # ss) w =
     (case exec s w of
        (None, w') \<Rightarrow> observe w w' @ history ss w'
      | (Some e, w') \<Rightarrow> observe w w')"

fun timeline :: "int \<Rightarrow> stmt list \<Rightarrow> event list" where
  "timeline n [] = []"
| "timeline n (Send op # ss) = Sent (dmx_frame n (payload op)) # timeline ((n + 1) mod 256) ss"
| "timeline n (Sleep k # ss) = (if 0 < k then [Slept k] else []) @ timeline n ss"

definition demo_events :: "int \<Rightarrow> event list" where
  "demo_events n =
     concat (map (\<lambda>d. [Sent d, Slept 1]) (take 6 (frames n demo_ops))) @
     map Sent (drop 6 (frames n demo_ops))"


section \<open>One statement\<close>

lemma observe_sleep [simp]:
  "observe w (w\<lparr>slept := slept w + k\<rparr>) = (if 0 < k then [Slept k] else [])"
  by (simp add: observe_def emitted_def)

lemma observe_send:
  assumes "art_inv (art w)" "art_step op (art w) = (r, a')"
  shows "observe w (w\<lparr>art := a'\<rparr>) =
     (if r = None then [Sent (dmx_frame (seq (art w)) (payload op))] else [])"
proof (cases r)
  case None
  with art_step_ok(5) [OF assms(1), of op a'] assms(2) show ?thesis
    by (simp add: observe_def emitted_def)
next
  case (Some e)
  with art_step_err(1) [OF assms(1), of op e a'] assms(2) show ?thesis
    by (simp add: observe_def emitted_def)
qed

lemma history_Send:
  assumes "art_inv (art w)" "art_step op (art w) = (r, a')"
  shows "history (Send op # ss) w =
     (if r = None then Sent (dmx_frame (seq (art w)) (payload op)) # history ss (w\<lparr>art := a'\<rparr>)
      else [])"
  using observe_send [OF assms] assms(2) by (cases r) simp_all

lemma history_Sleep:
  "history (Sleep k # ss) w =
     (if 0 < k then [Slept k] else []) @ history ss (w\<lparr>slept := slept w + k\<rparr>)"
  by (simp add: sleep_def)

declare history.simps(2) [simp del]


section \<open>A script\<close>

lemma history_final:
  assumes "art_inv (art w)"
  shows "outbox (sock (art (snd (for_each ss exec w)))) =
       outbox (sock (art w)) @
         map (\<lambda>e. (frame_of e, (dst (art w), port (art w)))) (filter is_Sent (history ss w)) \<and>
     slept (snd (for_each ss exec w)) =
       slept w + sum_list (map secs (filter (\<lambda>e. \<not> is_Sent e) (history ss w)))"
  using assms
proof (induction ss w rule: script_induct)
  case (Send_ok op ss w a')
  with art_step_ok [OF Send_ok.prems Send_ok.hyps(1)] show ?case
    by (simp add: history_Send [OF Send_ok.prems Send_ok.hyps(1)])
next
  case (Send_err op ss w e a')
  with art_step_err [OF Send_err.prems Send_err.hyps(1)] show ?case
    by (simp add: history_Send [OF Send_err.prems Send_err.hyps(1)])
qed (simp_all add: history_Sleep)

lemma history_prefix:
  assumes "art_inv (art w)"
  shows "prefix (history ss w) (timeline (seq (art w)) ss)"
  using assms
proof (induction ss w rule: script_induct)
  case (Send_ok op ss w a')
  with art_step_ok [OF Send_ok.prems Send_ok.hyps(1)] show ?case
    by (simp add: history_Send [OF Send_ok.prems Send_ok.hyps(1)])
next
  case (Send_err op ss w e a')
  then show ?case
    by (simp add: history_Send [OF Send_err.prems Send_err.hyps(1)])
qed (simp_all add: history_Sleep)

lemma history_complete:
  assumes "art_inv (art w)" "fst (for_each ss exec w) = None"
  shows "history ss w = timeline (seq (art w)) ss"
  using assms
proof (induction ss w rule: script_induct)
  case (Send_ok op ss w a')
  with art_step_ok [OF Send_ok.prems(1) Send_ok.hyps(1)] show ?case
    by (simp add: history_Send [OF Send_ok.prems(1) Send_ok.hyps(1)])
qed (simp_all add: history_Sleep)

lemma timeline_sends: "timeline n (map Send ops) = map Sent (frames n ops)"
  by (induction ops arbitrary: n) simp_all


section \<open>The demo\<close>

lemma timeline_held:
  "timeline n (concat (map (\<lambda>op. [Send op, Sleep 1]) ops) @ map Send rest) =
     concat (map (\<lambda>d. [Sent d, Slept 1]) (take (length ops) (frames n (ops @ rest)))) @
     map Sent (drop (length ops) (frames n (ops @ rest)))"
  by (induction ops arbitrary: n) (simp_all add: timeline_sends)

lemma demo_script_held:
  "demo_script = concat (map (\<lambda>op. [Send op, Sleep 1]) (take 6 demo_ops)) @ map Send (drop 6 demo_ops)"
  by (simp add: demo_script_def demo_ops_def comp_def)

lemma timeline_demo: "timeline n demo_script = demo_events n"
proof -
  have "timeline n demo_script =
      timeline n (concat (map (\<lambda>op. [Send op, Sleep 1]) (take 6 demo_ops)) @ map Send (drop 6 demo_ops))"
    by (subst demo_script_held) (rule refl)
  also have "\<dots> = demo_events n"
    unfolding demo_events_def timeline_held by simp
  finally show ?thesis .
qed

lemma frames_two:
  "frames n (a # b # ops) =
     dmx_frame n (payload a) # dmx_frame ((n + 1) mod 256) (payload b) #
       frames (((n + 1) mod 256 + 1) mod 256) ops"
  by (simp only: frames.simps)

lemma events_start:
  "take 4 (concat (map (\<lambda>d. [Sent d, Slept 1]) (take 6 (frames n (a # b # ops)))) @ evs) =
     [Sent (dmx_frame n (payload a)), Slept 1,
      Sent (dmx_frame ((n + 1) mod 256) (payload b)), Slept 1]"
  by (subst frames_two) (simp del: frames.simps)

lemma demo_events_start:
  "take 4 (demo_events n) =
     [Sent (dmx_frame n (payload (SendRGB 255 255 255))), Slept 1,
      Sent (dmx_frame ((n + 1) mod 256) (payload (SendRGB 0 255 255))), Slept 1]"
  unfolding demo_events_def demo_ops_def append_Cons by (rule events_start)

lemma length_demo_events: "length (demo_events n) = 522"
  by (simp add: demo_events_def length_concat comp_def sum_list_triv)


section \<open>Properties\<close>

text \<open>
  Claim C13 (safety). Frames and pauses of the demo happen in the order of
  the script, whatever the operating system answers: what an observer of
  the network and the clock has seen when the demo ends is a prefix of six
  frames, each followed by a pause of one second, and then the frames of the
  two ramps with no pause between them; when the demo ends without an
  exception the observer has seen all of it. The datagrams the socket holds
  after \<open>demo_body\<close> are the old ones followed by the frames of the history,
  and the clock has moved by the pauses of the history.
\<close>

theorem demo_history:
  assumes "art_inv (art w)"
  shows "prefix (history demo_script w) (demo_events (seq (art w))) \<and>
     (fst (demo_body w) = None \<longrightarrow> history demo_script w = demo_events (seq (art w))) \<and>
     outbox (sock (art (snd (demo_body w)))) =
       outbox (sock (art w)) @
         map (\<lambda>e. (frame_of e, (dst (art w), port (art w)))) (filter is_Sent (history demo_script w)) \<and>
     slept (snd (demo_body w)) =
       slept w + sum_list (map secs (filter (\<lambda>e. \<not> is_Sent e) (history demo_script w)))"
  using history_prefix [OF assms, of demo_script] history_complete [OF assms, of demo_script]
    history_final [OF assms, of demo_script]
  by (simp add: timeline_demo demo_body_script)

theorem demo_history_witness:
  "art_inv (art \<lparr>art = fresh ''10.20.255.255'' 6454 6 False, slept = 0\<rparr>) \<and>
   fst (demo_body \<lparr>art = fresh ''10.20.255.255'' 6454 6 False, slept = 0\<rparr>) = None \<and>
   history demo_script \<lparr>art = fresh ''10.20.255.255'' 6454 6 False, slept = 0\<rparr> = demo_events 0 \<and>
   length (demo_events 0) = 522 \<and>
   take 4 (demo_events 0) =
     [Sent (dmx_frame 0 (payload (SendRGB 255 255 255))), Slept 1,
      Sent (dmx_frame 1 (payload (SendRGB 0 255 255))), Slept 1]"
  using demo_history [of "\<lparr>art = fresh ''10.20.255.255'' 6454 6 False, slept = 0\<rparr>"]
    demo_body_quiet(1) [of "\<lparr>art = fresh ''10.20.255.255'' 6454 6 False, slept = 0\<rparr>"]
  by (simp add: demo_events_start length_demo_events)

end
