(* ===== verification/Program.thy ===== *)
theory Program
  imports Driver
begin

text \<open>
  The module \<^verbatim>\<open>src/send_umbrella.py\<close> as a whole: its import statements (lines
  25 to 32) and the guard of the demo (line 113). Running the file executes
  the imports in order, binds the functions and the class, and runs the demo
  if the module is the main program.

  The modules installed on the system are a parameter: a map from the name
  of a module to the names it defines. An import of a module that is not
  installed, or of a name that the module does not define, raises
  \<^verbatim>\<open>ImportError\<close>. Loading a module has no other effect in the model.
\<close>

section \<open>Import statements\<close>

datatype import_stmt = Import string | From string string

type_synonym modules = "string \<Rightarrow> string list option"

definition module_imports :: "import_stmt list" where
  "module_imports =
     [Import ''socket'', Import ''time'', From ''struct'' ''pack'', From ''PIL'' ''Image'',
      Import ''os'', From ''itertools'' ''chain'', Import ''sys'',
      From ''colortemp'' ''colortemp'']"

fun run_import :: "modules \<Rightarrow> import_stmt \<Rightarrow> py_error option" where
  "run_import env (Import m) = (case env m of None \<Rightarrow> Some ImportError | Some names \<Rightarrow> None)"
| "run_import env (From m n) =
     (case env m of
        None \<Rightarrow> Some ImportError
      | Some names \<Rightarrow> if n \<in> set names then None else Some ImportError)"

fun run_imports :: "modules \<Rightarrow> import_stmt list \<Rightarrow> py_error option" where
  "run_imports env [] = None"
| "run_imports env (i # rest) =
     (case run_import env i of Some e \<Rightarrow> Some e | None \<Rightarrow> run_imports env rest)"

definition run_module :: "modules \<Rightarrow> string \<Rightarrow> bool list \<Rightarrow> py_error option \<times> world option" where
  "run_module env name faults =
     (case run_imports env module_imports of
        Some e \<Rightarrow> (Some e, None)
      | None \<Rightarrow> if name = ''__main__'' then main faults else (None, None))"


section \<open>The modules of a system\<close>

fun module_of :: "import_stmt \<Rightarrow> string" where
  "module_of (Import m) = m"
| "module_of (From m n) = m"

definition stdlib :: modules where
  "stdlib =
     [''socket'' \<mapsto> [''socket'', ''AF_INET'', ''SOCK_DGRAM'', ''SOL_SOCKET'', ''SO_BROADCAST''],
      ''time'' \<mapsto> [''sleep''], ''struct'' \<mapsto> [''pack''], ''os'' \<mapsto> [],
      ''itertools'' \<mapsto> [''chain''], ''sys'' \<mapsto> []]"


section \<open>Lemmas\<close>

lemma run_import_error: "run_import env i = Some e \<Longrightarrow> e = ImportError"
  by (cases i) (auto split: option.splits if_splits)

lemma run_import_missing: "env (module_of i) = None \<Longrightarrow> run_import env i = Some ImportError"
  by (cases i) simp_all

lemma run_imports_eq:
  "run_imports env is =
     (if list_all (\<lambda>i. run_import env i = None) is then None else Some ImportError)"
  by (induction "is") (auto split: option.splits dest: run_import_error)

lemma run_module_eq:
  "run_module env name faults =
     (if \<not> list_all (\<lambda>i. run_import env i = None) module_imports then (Some ImportError, None)
      else if name = ''__main__'' then main faults else (None, None))"
  by (simp add: run_module_def run_imports_eq)

lemma set_module_imports:
  "module_of ` set module_imports =
     {''socket'', ''time'', ''struct'', ''PIL'', ''os'', ''itertools'', ''sys'', ''colortemp''}"
  by (auto simp: module_imports_def)


section \<open>Properties\<close>

text \<open>
  Claim C28 (error). The script needs every module it imports, used or not:
  if one of the eight modules named in its import statements is not
  installed, running the file raises \<^verbatim>\<open>ImportError\<close> before the sender is
  created, whatever the name it runs under. This holds for \<^verbatim>\<open>colortemp\<close>,
  \<^verbatim>\<open>os\<close>, \<^verbatim>\<open>itertools\<close> and \<^verbatim>\<open>sys\<close>, which the code never uses.
\<close>

theorem missing_module_stops_program:
  assumes "m \<in> {''socket'', ''time'', ''struct'', ''PIL'', ''os'', ''itertools'', ''sys'',
      ''colortemp''}"
    and "env m = None"
  shows "run_module env name faults = (Some ImportError, None)"
proof -
  from assms(1) obtain i where "i \<in> set module_imports" "module_of i = m"
    unfolding set_module_imports [symmetric] by auto
  with assms(2) have "\<not> list_all (\<lambda>i. run_import env i = None) module_imports"
    using run_import_missing [of env i] by (auto simp: list_all_iff)
  then show ?thesis
    by (simp add: run_module_eq)
qed

theorem missing_module_stops_program_witness:
  "''colortemp'' \<in> {''socket'', ''time'', ''struct'', ''PIL'', ''os'', ''itertools'', ''sys'',
      ''colortemp''} \<and>
   (stdlib(''PIL'' \<mapsto> [''Image''])) ''colortemp'' = None \<and>
   run_module (stdlib(''PIL'' \<mapsto> [''Image''])) ''__main__'' [] = (Some ImportError, None)"
  using missing_module_stops_program [of "''colortemp''" "stdlib(''PIL'' \<mapsto> [''Image''])"
      "''__main__''" "[]"]
  by (simp add: stdlib_def)

end
