(* ===== verification/Spec2Isabelle.thy ===== *)
theory Spec2Isabelle
  imports Py_Prelude Wheel Rearange Image_Buffer Pil_Image Struct_Pack Udp_Socket ArtNet Sender_Spec
    Driver Demo_Steps Timeline Program
begin

text \<open>
  A verification development for \<^verbatim>\<open>src/send_umbrella.py\<close>, a script that turns a
  16 by 16 image into the byte buffer of a serpentine LED panel and broadcasts
  lighting values as Art-Net style UDP datagrams.

  \<^bold>\<open>The program and its parts.\<close> The script has four functions of its own and
  a demo block. \<^verbatim>\<open>wheel\<close> maps a position to a colour. \<^verbatim>\<open>rearange\<close> reorders 256
  pixels from image order to the wiring order of the panel and flattens them
  to bytes; \<^verbatim>\<open>imageToBuffer\<close> decodes a file, swaps the channels of every pixel
  and calls \<^verbatim>\<open>rearange\<close>. The class \<^verbatim>\<open>ArtNet\<close> owns a UDP socket and a sequence
  counter and has two methods, \<^verbatim>\<open>sendrgb\<close> and \<^verbatim>\<open>sendwa\<close>, that frame 60 data
  bytes and send them. The \<^verbatim>\<open>__main__\<close> block creates one \<^verbatim>\<open>ArtNet\<close> object and
  plays a fixed sequence of sends and sleeps.

  \<^bold>\<open>The theories.\<close>
  \<^item> \<open>Py_Prelude\<close>: the Python values and builtins the script uses. Integers
    are \<^typ>\<open>int\<close>, bytes are 8-bit words, an exception is a value of
    \<open>py_error\<close>; a call that returns a value has type \<open>py_error + 'a\<close> and a
    statement that changes state returns the exception, if any, with the state
    it left (\<open>'s outcome\<close>). \<open>bytearray\<close>, \<open>py_range\<close>, \<open>py_slice\<close>, \<open>py_repeat\<close>,
    \<open>item0\<close> and \<open>map_result\<close> are the builtins; \<open>and_then\<close>, \<open>run_all\<close> and
    \<open>for_each\<close> sequence statements. Its lemma collections (\<open>py_defs\<close>,
    \<open>len_simps\<close>, \<open>result_iffs\<close>) feed the proofs of all other theories.
  \<^item> \<open>Wheel\<close>: \<open>wheel\<close> is \<^verbatim>\<open>wheel\<close> (lines 35-44). The lemmas compare it with
    the curve of the specification, with and without 8-bit truncation, and
    give its range, its cycle and its smoothness.
  \<^item> \<open>Rearange\<close>: \<open>rearange_loop\<close>, \<open>segment_line\<close>, \<open>rearange_pixels\<close> and
    \<open>rearange\<close> are \<^verbatim>\<open>rearange\<close> (lines 47-64) on a list of tuples;
    \<open>rearange_any\<close> is the same function on a list whose items may be
    numbers, with the \<^verbatim>\<open>TypeError\<close> of line 64. The wiring is restated as
    index arithmetic (\<open>wire_source\<close>, \<open>wire_pos\<close>); the lemmas show that the
    loop implements it, that the two index maps are inverse permutations of
    0..255, that the loop permutes the first 256 pixels of any input, and
    which exception comes first.
  \<^item> \<open>Image_Buffer\<close>: \<open>swap_channels\<close>, \<open>frame_of_pixels\<close> and
    \<open>imageToBuffer\<close> are \<^verbatim>\<open>imageToBuffer\<close> (lines 67-78), with every exception of
    the two comprehensions as a branch. The decoder of the imaging library is
    a parameter. The lemmas give the length of the result, the blank frame
    for other pixel counts, the exceptions, and the place of each pixel.
  \<^item> \<open>Pil_Image\<close>: the interface of the imaging library that lines 68 and 69
    call: images with a mode, a size and samples, \<open>Image_open\<close> on the files
    of the system and \<open>getdata\<close>. \<open>pil_decode\<close> is the two lines and
    \<open>load_image\<close> is \<^verbatim>\<open>imageToBuffer\<close> with the library in place of the
    parameter. The lemmas show that \<open>load_image\<close> is the function \<open>load_spec\<close>,
    which says for every file and every mode what is returned or raised.
  \<^item> \<open>Struct_Pack\<close>: the three formats of \<^verbatim>\<open>struct.pack\<close> used on lines 101
    and 107, with their range errors and their readers.
  \<^item> \<open>Udp_Socket\<close>: the socket calls of lines 92, 93, 101 and 107 as an
    interface: a record of the broadcast flag, the datagrams handed to the
    network and the scripted failures of the operating system, and the
    range check of the port (\<open>valid_port\<close>).
  \<^item> \<open>ArtNet\<close>: the record \<open>artnet\<close> holds the attributes of the object;
    \<open>ArtNet_init\<close> is \<^verbatim>\<open>__init__\<close> (lines 82-97), \<open>sendrgb\<close> and \<open>sendwa\<close> the
    methods (lines 99-108), \<open>datagram\<close> and \<open>transmit\<close> their common tail.
    \<open>art_step\<close> is the interface the driver uses: one constructor of \<open>art_op\<close>
    per method. \<open>parse_artdmx\<close> reads the wire format back. The invariants
    \<open>art_inv\<close> and \<open>numbered\<close> are proved for every state \<open>reachable\<close> from the
    constructor with a port in 0..65535; the lemmas on \<open>art_run\<close> describe
    runs of calls, failures included, and what a session with another port
    does.
  \<^item> \<open>Sender_Spec\<close>: the contract of the sender, as the relations \<open>send_spec\<close>
    and \<open>run_spec\<close> over the trace of payloads broadcast. \<open>sent_data\<close> maps a
    state of \<open>ArtNet\<close> to its trace; the lemmas show that every call and every
    run of calls is a step of the contract (a forward simulation), and that
    every run of the contract is produced by the code under some answers of
    the operating system.
  \<^item> \<open>Driver\<close>: \<open>main\<close> and \<open>demo_body\<close> are the \<^verbatim>\<open>__main__\<close> block (lines
    113-137) over the \<open>world\<close> of the sender object and the seconds slept. The
    lemmas reduce the demo to \<open>art_run\<close> over the list \<open>demo_ops\<close> of its 516
    send calls.
  \<^item> \<open>Demo_Steps\<close>: the demo executed one statement at a time, as the
    relation \<open>step\<close> on configurations. The lemmas show that execution
    ends, that it agrees with \<open>demo_body\<close>, and that on a working system
    every execution can be continued until all frames are sent.
  \<^item> \<open>Timeline\<close>: the demo as an observer of the network and the clock sees
    it. \<open>history\<close> collects the datagrams and pauses of each statement of
    a run in the order in which they happen, \<open>timeline\<close> is the sequence
    the script promises. The lemmas show that the history is a prefix of
    the timeline, all of it when no call fails, that it accounts for
    every datagram in the socket and every second on the clock, and that
    the demo holds each of its first six frames for one second and sends the
    two ramps without a pause.
  \<^item> \<open>Program\<close>: the module as a whole: \<open>module_imports\<close> are the import
    statements (lines 25-32) and \<open>run_module\<close> runs them and then, under the
    guard of line 113, the demo.
  \<^item> This theory: the properties that span components: the whole program on
    a working system, the colour wheel through the sender, and an image from
    the file to the bytes a datagram would carry.

  \<^bold>\<open>Bounds and termination.\<close> Every loop of the script runs over a finite list
  built by \<^verbatim>\<open>range\<close> or over the pixel data, so every definition is a total
  function by structural recursion and no fuel is needed; \<open>Demo_Steps\<close> proves
  the same for execution step by step, where the measure is the number of
  statements left. Python integers are
  unbounded and are kept as \<^typ>\<open>int\<close>; the places where the script reduces
  them (\<^verbatim>\<open>& 0xFF\<close>, \<^verbatim>\<open>% 256\<close>, \<^verbatim>\<open>bytearray\<close>, \<^verbatim>\<open>pack\<close>) are written out, and the
  bytes on the wire are 8-bit words.

  \<^bold>\<open>What is not modelled.\<close> The imaging library, the network stack, the
  module system and the clock are libraries the script calls. They are
  modelled as interfaces, from their documented behaviour and only as far as
  the script depends on it: decoding the bytes of an image file is not
  modelled (a file of the model already holds the decoded image), nor are
  delivery of datagrams, the resolution of host names, the code that an
  imported module runs when it is loaded, and real time (\<open>slept\<close> only adds
  up the arguments of \<^verbatim>\<open>time.sleep\<close>, and \<open>Timeline\<close> records the order of
  sends and pauses, not their duration). The module \<^verbatim>\<open>colortemp\<close> is imported on line 32 and never
  used; its source is not in the repository, so only its import is modelled.
  Lines 1 to 24 are the licence. What a fixture does with a frame is outside
  the program. Every other line of the file is the source of a definition.
  Values are typed in the model: a position, a channel and a port are
  integers and pixel data is a list of tuples or numbers. The exceptions
  Python raises for values of other types (a string as a channel, a file
  name that is no string) are not modelled.

  \<^bold>\<open>Environment.\<close> Five assumptions about the world enter the model and
  are visible in the statements: a file holds a well-formed image, some
  other data, or does not exist; a system call fails exactly when the next
  entry of \<open>os_faults\<close> says so, and a failed call changes nothing but that
  list; a datagram for the limited broadcast address is refused on a socket
  without the broadcast flag; a send to a port outside 0..65535 raises
  \<^verbatim>\<open>OverflowError\<close> before the operating system is asked; an import fails
  exactly when the module or the name is not installed.
\<close>


section \<open>The whole program\<close>

text \<open>
  Claim C11 (functional). Running the file on a system that has every module
  of the import statements and on which no call of the operating system
  fails: as the main program it ends without an exception, has sent the 516
  frames of the demo numbered from 0 to 10.20.255.255 port 6454 and slept
  six seconds, and an observer has seen the frames and pauses of
  \<open>demo_events\<close> in their order; imported under another name it defines its
  functions and sends nothing, whatever the operating system would answer.
\<close>

theorem program_on_working_system:
  assumes "list_all (\<lambda>i. run_import env i = None) module_imports"
  shows "(\<exists>w. run_module env ''__main__'' [] = (None, Some w) \<and>
       outbox (sock (art w)) = map (\<lambda>d. (d, ''10.20.255.255'', 6454)) (frames 0 demo_ops) \<and>
       seq (art w) = 4 \<and> slept w = 6) \<and>
     history demo_script \<lparr>art = fresh ''10.20.255.255'' 6454 6 False, slept = 0\<rparr> =
       demo_events 0 \<and>
     (name \<noteq> ''__main__'' \<longrightarrow> run_module env name faults = (None, None))"
proof -
  let ?w0 = "\<lparr>art = fresh ''10.20.255.255'' 6454 6 False, slept = 0\<rparr>"
  have start: "art_inv (art ?w0)" "os_faults (sock (art ?w0)) = []"
    by simp_all
  note quiet = demo_body_quiet [OF start]
  from quiet(1) assms have "run_module env ''__main__'' [] = (None, Some (snd (demo_body ?w0)))"
    by (simp add: run_module_eq main_eq demo_start demo_body_art(1))
  moreover from quiet(1) have "history demo_script ?w0 = demo_events 0"
    using history_complete [OF start(1), of demo_script] by (simp add: demo_body_script timeline_demo)
  ultimately show ?thesis
    using quiet(2-4) assms by (simp add: run_module_eq)
qed

theorem program_on_working_system_witness:
  "list_all (\<lambda>i. run_import (stdlib(''PIL'' \<mapsto> [''Image''], ''colortemp'' \<mapsto> [''colortemp''])) i = None)
     module_imports \<and>
   (\<exists>w. run_module (stdlib(''PIL'' \<mapsto> [''Image''], ''colortemp'' \<mapsto> [''colortemp''])) ''__main__'' [] =
       (None, Some w) \<and>
     outbox (sock (art w)) = map (\<lambda>d. (d, ''10.20.255.255'', 6454)) (frames 0 demo_ops) \<and>
     seq (art w) = 4 \<and> slept w = 6) \<and>
   run_module (stdlib(''PIL'' \<mapsto> [''Image''], ''colortemp'' \<mapsto> [''colortemp''])) ''send_umbrella'' [True] =
     (None, None)"
  using program_on_working_system
    [of "stdlib(''PIL'' \<mapsto> [''Image''], ''colortemp'' \<mapsto> [''colortemp''])" "''send_umbrella''" "[True]"]
  by (simp add: stdlib_def module_imports_def)


section \<open>From the colour wheel to the wire\<close>

text \<open>
  Claim C31 (functional). Sending the colour of a wheel position never fails
  on its arguments: for a position in 0..255 on a working network,
  \<^verbatim>\<open>sendrgb(*wheel(pos))\<close> sends one frame whose data are the three bytes of
  \<open>wheel8\<close> followed by two zeros, twelve times, and advances the sequence
  counter.
\<close>

theorem wheel_colour_is_sent:
  assumes "art_inv a" "os_faults (sock a) = []" "in_byte pos"
  shows "sendrgb (wheel pos ! 0) (wheel pos ! 1) (wheel pos ! 2) a =
     (None, a\<lparr>sock := (sock a)\<lparr>outbox := outbox (sock a) @
         [(dmx_frame (seq a) (py_repeat (wheel8 (word_of_int pos) @ [0, 0]) 12),
           dst a, port a)]\<rparr>,
       seq := (seq a + 1) mod 256\<rparr>)"
proof -
  obtain r g b where w: "wheel pos = [r, g, b]"
    using length_wheel [of pos] by (auto simp: numeral_3_eq_3 length_Suc_conv simp del: length_wheel)
  with wheel_in_byte [of pos] have ok: "sendable (SendRGB r g b)"
    by (simp add: sendable_def)
  from w assms(3) have "wheel8 (word_of_int pos) = [word_of_int r, word_of_int g, word_of_int b]"
    by (simp add: wheel8_of_int flip: wheel_eq_ramp)
  with art_step_sends [OF assms(1) ok assms(2)] w show ?thesis
    by (simp add: payload_def)
qed

theorem wheel_colour_is_sent_witness:
  "art_inv (fresh ''h'' 6454 6 True) \<and> os_faults (sock (fresh ''h'' 6454 6 True)) = [] \<and>
   in_byte 85 \<and>
   sendrgb (wheel 85 ! 0) (wheel 85 ! 1) (wheel 85 ! 2) (fresh ''h'' 6454 6 True) =
     (None, (fresh ''h'' 6454 6 True)\<lparr>sock := (sock (fresh ''h'' 6454 6 True))\<lparr>outbox :=
         [(dmx_frame 0 (py_repeat (wheel8 (word_of_int 85) @ [0, 0]) 12), ''h'', 6454)]\<rparr>,
       seq := 1\<rparr>)"
  using wheel_colour_is_sent [of "fresh ''h'' 6454 6 True" 85] by simp


section \<open>From the image to the wire\<close>

text \<open>
  Claim C3 (functional). End to end on a 16 by 16 image in RGB or RGBA: the
  loader returns normally, and the pixel in row \<open>row\<close> and column \<open>col\<close>
  with channels \<open>r, g, b\<close> is found in the buffer as the bytes \<open>b, g, r\<close> at
  three times its wire position, which is segment \<open>row\<close> for the left half
  and \<open>16 + row\<close> for the right half, counted backwards within the segment
  on odd rows.
\<close>

theorem image_pixel_on_wire:
  assumes "decode fname = Inr pix" "length pix = 256"
    and "list_all is_rgb pix \<or> list_all is_rgba pix"
    and "row < 16" "col < 16" "pix ! (16 * row + col) = Bands (r # g # b # rest)"
  shows "\<exists>bs. imageToBuffer decode fname = Inr bs \<and>
     take 3 (drop (3 * wire_pos (16 * row + col)) bs) =
       [word_of_int b, word_of_int g, word_of_int r] \<and>
     wire_pos (16 * row + col) =
       8 * (if col < 8 then row else 16 + row) + (if odd row then 7 - col mod 8 else col mod 8)"
proof -
  have "16 * row + col < 256"
    using assms(4,5) by simp
  from frame_pixel_bytes [OF assms(2,3) this assms(6)] assms(1)
  have "\<exists>bs. imageToBuffer decode fname = Inr bs \<and>
     take 3 (drop (3 * wire_pos (16 * row + col)) bs) =
       [word_of_int b, word_of_int g, word_of_int r]"
    by (simp add: imageToBuffer_def)
  moreover from assms(5) have "(16 * row + col) div 16 = row" "(16 * row + col) mod 16 = col"
    by simp_all
  then have "wire_pos (16 * row + col) =
       8 * (if col < 8 then row else 16 + row) + (if odd row then 7 - col mod 8 else col mod 8)"
    by (simp add: wire_pos_def serpentine_def Let_def)
  ultimately show ?thesis
    by simp
qed

theorem image_pixel_on_wire_witness:
  "(\<lambda>f. Inr ((replicate 256 (Bands [0, 0, 0]))[16 * 2 + 10 := Bands [10, 20, 30]])) ''a.png'' =
     Inr ((replicate 256 (Bands [0, 0, 0]))[16 * 2 + 10 := Bands [10, 20, 30]]) \<and>
   length ((replicate 256 (Bands [0, 0, 0]))[16 * 2 + 10 := Bands [10, 20, 30]]) = 256 \<and>
   (list_all is_rgb ((replicate 256 (Bands [0, 0, 0]))[16 * 2 + 10 := Bands [10, 20, 30]]) \<or>
    list_all is_rgba ((replicate 256 (Bands [0, 0, 0]))[16 * 2 + 10 := Bands [10, 20, 30]])) \<and>
   (2::nat) < 16 \<and> (10::nat) < 16 \<and>
   (replicate 256 (Bands [0, 0, 0]))[16 * 2 + 10 := Bands [10, 20, 30]] ! (16 * 2 + 10) =
     Bands (10 # 20 # 30 # []) \<and>
   (\<exists>bs. imageToBuffer
        (\<lambda>f. Inr ((replicate 256 (Bands [0, 0, 0]))[16 * 2 + 10 := Bands [10, 20, 30]])) ''a.png'' =
        Inr bs \<and>
     take 3 (drop (3 * 146) bs) = [30, 20, 10] \<and> wire_pos (16 * 2 + 10) = 146)"
proof -
  let ?pix = "(replicate 256 (Bands [0, 0, 0]))[16 * 2 + 10 := Bands [10, 20, 30]]"
  have rgb: "list_all is_rgb ?pix"
    by (auto simp: list_all_iff is_rgb_def dest!: subsetD [OF set_update_subset_insert])
  then have "list_all is_rgb ?pix \<or> list_all is_rgba ?pix" ..
  from image_pixel_on_wire [of "\<lambda>f. Inr ?pix" "''a.png''" ?pix 2 10 10 20 30 "[]", OF _ _ this] rgb
  show ?thesis
    by (simp add: wire_defs)
qed

text \<open>
  Claim C35 (bounds). A buffer returned by \<^verbatim>\<open>imageToBuffer\<close> can be framed by
  the sender's datagram format and read back unchanged, but its 768 bytes are
  more than the 512 channels of one universe, as the comment on line 114 of
  the script says.
\<close>

theorem image_frame_exceeds_universe:
  assumes "art_inv a" "imageToBuffer decode fname = Inr bs"
  shows "512 < length bs \<and>
     (\<exists>d. datagram a bs = Inr d \<and> length d = 786 \<and>
        parse_artdmx d =
          Some \<lparr>dmx_seq = seq a, dmx_phys = 0, dmx_universe = 3, dmx_data = bs\<rparr>)"
proof -
  from assms(2) have len: "length bs = 768"
    by (auto simp: imageToBuffer_def rbind_eq_Inr_iff intro: length_frame_of_pixels)
  with assms(1) have "datagram a bs = Inr (dmx_frame (seq a) bs)"
    by (simp add: datagram_inv)
  with parse_datagram [of a bs "dmx_frame (seq a) bs"] assms(1) len show ?thesis
    by (simp add: art_inv_def)
qed

theorem image_frame_exceeds_universe_witness:
  "art_inv (fresh ''h'' 6454 6 True) \<and>
   imageToBuffer (\<lambda>f. Inr [Bands [1, 2, 3]]) ''a.png'' = Inr blank_frame \<and>
   512 < length blank_frame \<and>
   (\<exists>d. datagram (fresh ''h'' 6454 6 True) blank_frame = Inr d \<and> length d = 786 \<and>
      parse_artdmx d =
        Some \<lparr>dmx_seq = 0, dmx_phys = 0, dmx_universe = 3, dmx_data = blank_frame\<rparr>)"
proof -
  have "imageToBuffer (\<lambda>f. Inr [Bands [1, 2, 3]]) ''a.png'' = Inr blank_frame"
    by (simp add: imageToBuffer_def frame_of_pixels_def swap_channels_Bands blank_frame_eq)
  from image_frame_exceeds_universe [OF _ this, of "fresh ''h'' 6454 6 True"] this show ?thesis
    by simp
qed

end
